(* ===== verification/Prelude.thy ===== *)
theory Prelude
  imports Main
begin

section \<open>Shared vocabulary: JavaScript values, keyed stores, runs\<close>

text \<open>
  What every component theory uses: ordered maps (a JavaScript \<open>Map\<close>, or a plain object used
  as a dictionary, both of which iterate in insertion order), property reads that can fall
  through to \<open>Object.prototype\<close>, the string operations the source calls, and two interfaces,
  \<open>keyed_store\<close> and \<open>step_system\<close>, that several components provide.

  Strings are lists of \<open>char\<close>, that is of UTF-16 code units below 256 (Latin-1). On such
  strings \<open>normalize("NFC")\<close> is the identity, because every Latin-1 character is NFC-stable
  and none is a combining mark. Objects keyed by decimal array indices, which JavaScript
  iterates in numeric order, are outside the model.
\<close>

named_theorems js_simps \<open>defining equations of the JavaScript string and map operations\<close>

subsection \<open>Ordered maps\<close>

type_synonym 'v jmap = "(string \<times> 'v) list"

fun jput :: "'k \<Rightarrow> 'v \<Rightarrow> ('k \<times> 'v) list \<Rightarrow> ('k \<times> 'v) list" where
  "jput k v [] = [(k, v)]"
| "jput k v ((k', v') # m) = (if k' = k then (k, v) # m else (k', v') # jput k v m)"

definition jdel :: "'k \<Rightarrow> ('k \<times> 'v) list \<Rightarrow> ('k \<times> 'v) list" where
  "jdel k m = filter (\<lambda>e. fst e \<noteq> k) m"

abbreviation jkeys :: "('k \<times> 'v) list \<Rightarrow> 'k list" where
  "jkeys m \<equiv> map fst m"

abbreviation jvals :: "('k \<times> 'v) list \<Rightarrow> 'v list" where
  "jvals m \<equiv> map snd m"

definition jhas :: "('k \<times> 'v) list \<Rightarrow> 'k \<Rightarrow> bool" where
  "jhas m k = (k \<in> set (jkeys m))"

abbreviation jwf :: "('k \<times> 'v) list \<Rightarrow> bool" where
  "jwf m \<equiv> distinct (jkeys m)"

lemma map_of_jput [simp]: "map_of (jput k v m) = (map_of m)(k \<mapsto> v)"
  by (induction m) (auto simp: fun_eq_iff)

lemma map_of_jdel [simp]: "map_of (jdel k m) = (map_of m)(k := None)"
  by (induction m) (auto simp: jdel_def fun_eq_iff)

lemma set_jkeys_jput [simp]: "fst ` set (jput k v m) = insert k (fst ` set m)"
  by (simp flip: dom_map_of_conv_image_fst)

lemma set_jkeys_jdel [simp]: "fst ` set (jdel k m) = fst ` set m - {k}"
  by (auto simp: jdel_def)

lemma jwf_jput [simp]: "jwf m \<Longrightarrow> jwf (jput k v m)"
  by (induction m) auto

lemma jwf_jdel [simp]: "jwf m \<Longrightarrow> jwf (jdel k m)"
  by (induction m) (auto simp: jdel_def)

lemma set_jput_subset: "set (jput k v m) \<subseteq> insert (k, v) (set m)"
  by (induction m) (auto split: if_splits)

lemma jdel_absent: "map_of m k = None \<Longrightarrow> jdel k m = m"
  by (auto simp: jdel_def map_of_eq_None_iff filter_id_conv)

lemma jhas_iff: "jhas m k \<longleftrightarrow> map_of m k \<noteq> None"
  by (simp add: jhas_def map_of_eq_None_iff)

lemma jkeys_jput_fresh: "k \<notin> set (jkeys m) \<Longrightarrow> jput k v m = m @ [(k, v)]"
  by (induction m) auto

lemma jkeys_jput_same: "k \<in> set (jkeys m) \<Longrightarrow> jkeys (jput k v m) = jkeys m"
  by (induction m) (auto simp: rev_image_eqI)

lemma length_jput: "length (jput k v m) = (if k \<in> set (jkeys m) then length m else Suc (length m))"
  by (induction m) (auto simp: rev_image_eqI)

text \<open>An update in place of the value under a key that is present.\<close>

definition jupd :: "'k \<Rightarrow> ('v \<Rightarrow> 'v) \<Rightarrow> ('k \<times> 'v) list \<Rightarrow> ('k \<times> 'v) list" where
  "jupd k f m = map (\<lambda>(k', v). (k', if k' = k then f v else v)) m"

lemma jkeys_jupd [simp]: "jkeys (jupd k f m) = jkeys m"
  by (simp add: jupd_def case_prod_unfold comp_def)

lemma jkeys_jupds [simp]: "jkeys (fold (\<lambda>k. jupd k (f k)) ks m) = jkeys m"
  by (induction ks arbitrary: m) auto

lemma map_of_jupd: "map_of (jupd k f m) k' = (if k' = k then map_option f (map_of m k') else map_of m k')"
  by (induction m) (auto simp: jupd_def)

lemma map_of_jupds: "distinct ks \<Longrightarrow>
    map_of (fold (\<lambda>k. jupd k (f k)) ks m) k' = (if k' \<in> set ks then map_option (f k') (map_of m k') else map_of m k')"
  by (induction ks arbitrary: m) (auto simp: map_of_jupd)

lemma map_of_map_snd: "map_of (map (\<lambda>(k, v). (k, f v)) m) k = map_option f (map_of m k)"
  by (induction m) auto

lemma map_of_filter_keys: "jwf m \<Longrightarrow> map_of (filter (\<lambda>(k, v). q v) m) k =
    (case map_of m k of None \<Rightarrow> None | Some v \<Rightarrow> if q v then Some v else None)"
  by (induction m) (auto simp: map_of_eq_None_iff split: option.splits dest: map_of_SomeD)

subsection \<open>Property reads on plain objects\<close>

text \<open>
  \<open>obj[key]\<close> on a plain object finds an own property first and then a member of
  \<open>Object.prototype\<close>. Where the source reads a dictionary this way without an own-property
  check, the model uses \<open>js_get\<close>, so that a key such as \<open>constructor\<close> reads as an inherited
  function object, which has none of the fields the source then looks for.
\<close>

datatype 'v propval = Own 'v | Inherited | Absent

definition object_prototype_members :: "string list" where
  "object_prototype_members =
     [''constructor'', ''__defineGetter__'', ''__defineSetter__'', ''hasOwnProperty'',
      ''__lookupGetter__'', ''__lookupSetter__'', ''isPrototypeOf'',
      ''propertyIsEnumerable'', ''toString'', ''valueOf'', ''__proto__'', ''toLocaleString'']"

definition js_get :: "'v jmap \<Rightarrow> string \<Rightarrow> 'v propval" where
  "js_get m k = (case map_of m k of
       Some v \<Rightarrow> Own v
     | None \<Rightarrow> if k \<in> set object_prototype_members then Inherited else Absent)"

lemma js_get_Own_iff [simp]: "js_get m k = Own v \<longleftrightarrow> map_of m k = Some v"
  by (auto simp: js_get_def split: option.splits)

lemma js_get_Absent_iff: "js_get m k = Absent \<longleftrightarrow> map_of m k = None \<and> k \<notin> set object_prototype_members"
  by (auto simp: js_get_def split: option.splits)

lemma js_get_plain: "k \<notin> set object_prototype_members \<Longrightarrow>
    js_get m k = (case map_of m k of Some v \<Rightarrow> Own v | None \<Rightarrow> Absent)"
  by (auto simp: js_get_def split: option.splits)

subsection \<open>Optional values, deduplication, first matches\<close>

fun first_some :: "('a \<Rightarrow> 'b option) \<Rightarrow> 'a list \<Rightarrow> 'b option" where
  "first_some f [] = None"
| "first_some f (x # xs) = (case f x of Some y \<Rightarrow> Some y | None \<Rightarrow> first_some f xs)"

text \<open>\<open>a ?? b\<close>.\<close>

definition coalesce :: "'a option \<Rightarrow> 'a \<Rightarrow> 'a" where
  "coalesce x d = (case x of Some v \<Rightarrow> v | None \<Rightarrow> d)"

lemma coalesce_simps [simp]: "coalesce None d = d" "coalesce (Some v) d = v"
  by (simp_all add: coalesce_def)

text \<open>First-seen deduplication: \<open>[...new Set(xs)]\<close>.\<close>

fun dedupe_from :: "'a list \<Rightarrow> 'a list \<Rightarrow> 'a list" where
  "dedupe_from seen [] = []"
| "dedupe_from seen (x # xs) =
     (if x \<in> set seen then dedupe_from seen xs else x # dedupe_from (x # seen) xs)"

definition dedupe :: "'a list \<Rightarrow> 'a list" where
  "dedupe xs = dedupe_from [] xs"

lemma set_dedupe_from: "set (dedupe_from seen xs) = set xs - set seen"
  by (induction xs arbitrary: seen) auto

lemma distinct_dedupe_from: "distinct (dedupe_from seen xs)"
  by (induction xs arbitrary: seen) (auto simp: set_dedupe_from)

lemma set_dedupe [simp]: "set (dedupe xs) = set xs"
  by (simp add: dedupe_def set_dedupe_from)

lemma distinct_dedupe [simp]: "distinct (dedupe xs)"
  by (simp add: dedupe_def distinct_dedupe_from)

lemma dedupe_from_fresh: "distinct xs \<Longrightarrow> set xs \<inter> set seen = {} \<Longrightarrow> dedupe_from seen xs = xs"
  by (induction xs arbitrary: seen) auto

lemma dedupe_id: "distinct xs \<Longrightarrow> dedupe xs = xs"
  by (simp add: dedupe_def dedupe_from_fresh)

lemma dedupe_single: "length (dedupe xs) \<le> 1 \<Longrightarrow> a \<in> set xs \<Longrightarrow> b \<in> set xs \<Longrightarrow> a = b"
proof -
  assume "length (dedupe xs) \<le> 1" "a \<in> set xs" "b \<in> set xs"
  then have "a \<in> set (dedupe xs)" "b \<in> set (dedupe xs)" by simp_all
  with \<open>length (dedupe xs) \<le> 1\<close> show "a = b" by (cases "dedupe xs") auto
qed

lemma find_SomeD: "find P xs = Some x \<Longrightarrow> P x \<and> x \<in> set xs"
  by (auto simp: find_Some_iff)

lemma list_all2_memD: "list_all2 R xs ys \<Longrightarrow> x \<in> set xs \<Longrightarrow> \<exists>y \<in> set ys. R x y"
  by (induction rule: list_all2_induct) auto

subsection \<open>Stable partitions\<close>

definition partition_stable :: "('a \<Rightarrow> bool) \<Rightarrow> 'a list \<Rightarrow> 'a list" where
  "partition_stable p xs = filter p xs @ filter (\<lambda>x. \<not> p x) xs"

lemma set_partition_stable [simp]: "set (partition_stable p xs) = set xs"
  by (auto simp: partition_stable_def)

lemma length_partition_stable [simp]: "length (partition_stable p xs) = length xs"
  by (simp add: partition_stable_def sum_length_filter_compl)

lemma partition_stable_idem [simp]: "partition_stable p (partition_stable p xs) = partition_stable p xs"
  by (simp add: partition_stable_def)

lemma filter_partition_stable: "filter q (partition_stable p xs) = partition_stable p (filter q xs)"
  by (simp add: partition_stable_def conj_commute)

text \<open>
  A stable sort by a comparator that answers a negative, zero or positive number: \<open>xs.sort(cmp)\<close>
  for a comparator that is a total preorder.
\<close>

fun insert_by :: "('a \<Rightarrow> 'a \<Rightarrow> int) \<Rightarrow> 'a \<Rightarrow> 'a list \<Rightarrow> 'a list" where
  "insert_by cmp x [] = [x]"
| "insert_by cmp x (y # ys) = (if cmp x y \<le> 0 then x # y # ys else y # insert_by cmp x ys)"

definition sort_by :: "('a \<Rightarrow> 'a \<Rightarrow> int) \<Rightarrow> 'a list \<Rightarrow> 'a list" where
  "sort_by cmp xs = foldr (insert_by cmp) xs []"

lemma set_insert_by [simp]: "set (insert_by cmp x ys) = insert x (set ys)"
  by (induction ys) auto

lemma set_sort_by [simp]: "set (sort_by cmp xs) = set xs"
  by (induction xs) (auto simp: sort_by_def)

lemma length_insert_by [simp]: "length (insert_by cmp x ys) = Suc (length ys)"
  by (induction ys) auto

lemma length_sort_by [simp]: "length (sort_by cmp xs) = length xs"
  by (induction xs) (auto simp: sort_by_def)

subsection \<open>Strings\<close>

definition is_ws :: "char \<Rightarrow> bool" where
  "is_ws c = (let n = (of_char c :: nat) in (9 \<le> n \<and> n \<le> 13) \<or> n = 32 \<or> n = 160)"

definition trim :: "string \<Rightarrow> string" where
  "trim s = rev (dropWhile is_ws (rev (dropWhile is_ws s)))"

definition starts_with :: "string \<Rightarrow> string \<Rightarrow> bool" where
  "starts_with p s = (take (length p) s = p)"

definition ends_with :: "string \<Rightarrow> string \<Rightarrow> bool" where
  "ends_with p s = (drop (length s - length p) s = p)"

fun str_includes :: "string \<Rightarrow> string \<Rightarrow> bool" where
  "str_includes p [] = (p = [])"
| "str_includes p (c # s) = (starts_with p (c # s) \<or> str_includes p s)"

fun split_on :: "char \<Rightarrow> string \<Rightarrow> string list" where
  "split_on d [] = [[]]"
| "split_on d (c # s) =
     (if c = d then [] # split_on d s
      else case split_on d s of [] \<Rightarrow> [[c]] | w # ws \<Rightarrow> (c # w) # ws)"

fun join_with :: "string \<Rightarrow> string list \<Rightarrow> string" where
  "join_with sep [] = []"
| "join_with sep [x] = x"
| "join_with sep (x # y # xs) = x @ sep @ join_with sep (y # xs)"

fun index_of :: "char \<Rightarrow> string \<Rightarrow> nat option" where
  "index_of d [] = None"
| "index_of d (c # s) = (if c = d then Some 0 else map_option Suc (index_of d s))"

definition lower :: "string \<Rightarrow> string" where
  "lower s = map (\<lambda>c. let n = (of_char c :: nat)
     in if (65 \<le> n \<and> n \<le> 90) \<or> (192 \<le> n \<and> n \<le> 222 \<and> n \<noteq> 215) then char_of (n + 32) else c) s"

definition is_digit :: "char \<Rightarrow> bool" where
  "is_digit c = (let n = (of_char c :: nat) in 48 \<le> n \<and> n \<le> 57)"

text \<open>\<open>Number.parseInt(s, 10)\<close>, for values a double holds exactly.\<close>

definition parse_int :: "string \<Rightarrow> int option" where
  "parse_int s =
     (let t = dropWhile is_ws s;
          neg = starts_with ''-'' t;
          u = (if neg \<or> starts_with ''+'' t then tl t else t);
          ds = takeWhile is_digit u;
          n = foldl (\<lambda>acc c. 10 * acc + int (of_char c - 48)) 0 ds
      in if ds = [] then None else Some (if neg then - n else n))"

text \<open>Decimal rendering of a number that is an integer: \<open>String(n)\<close>.\<close>

definition digit_char :: "nat \<Rightarrow> char" where
  "digit_char d = char_of (48 + d)"

fun nat_str :: "nat \<Rightarrow> string" where
  "nat_str n = (if n < 10 then [digit_char n] else nat_str (n div 10) @ [digit_char (n mod 10)])"

declare nat_str.simps [simp del]

definition int_str :: "int \<Rightarrow> string" where
  "int_str i = (if i < 0 then CHR ''-'' # nat_str (nat (- i)) else nat_str (nat i))"

abbreviation newline :: char where "newline \<equiv> CHR 0x0A"
abbreviation dquote :: char where "dquote \<equiv> CHR 0x22"
abbreviation squote :: char where "squote \<equiv> CHR 0x27"
abbreviation backslash :: char where "backslash \<equiv> CHR 0x5C"

definition quoted :: "string \<Rightarrow> string" where
  "quoted s = [squote] @ s @ [squote]"

lemma split_on_nonempty [simp]: "split_on d s \<noteq> []"
  by (cases s) (auto split: list.splits)

lemma join_split: "join_with [d] (split_on d s) = s"
proof (induction s)
  case Nil
  show ?case by simp
next
  case (Cons c s)
  obtain w ws where w: "split_on d s = w # ws"
    by (metis neq_Nil_conv split_on_nonempty)
  show ?case using Cons.IH w by (cases ws) auto
qed

lemma split_on_no_sep: "d \<notin> set s \<Longrightarrow> split_on d s = [s]"
  by (induction s) auto

lemma split_on_append_sep: "d \<notin> set w \<Longrightarrow> split_on d (w @ d # s) = w # split_on d s"
  by (induction w) auto

lemma split_join: "ws \<noteq> [] \<Longrightarrow> \<forall>w \<in> set ws. d \<notin> set w \<Longrightarrow> split_on d (join_with [d] ws) = ws"
proof (induction "[d]" ws rule: join_with.induct)
  case (3 x y xs)
  then show ?case by (simp add: split_on_append_sep)
qed (auto simp: split_on_no_sep)

lemma split_on_parts: "w \<in> set (split_on d s) \<Longrightarrow> d \<notin> set w"
proof (induction s arbitrary: w)
  case Nil
  then show ?case by simp
next
  case (Cons c s)
  obtain v vs where v: "split_on d s = v # vs"
    by (metis neq_Nil_conv split_on_nonempty)
  with Cons show ?case by (auto split: if_splits)
qed

lemma index_of_None: "index_of d s = None \<longleftrightarrow> d \<notin> set s"
  by (induction s) auto

lemma index_of_Some: "index_of d s = Some i \<Longrightarrow>
    d \<notin> set (take i s) \<and> s = take i s @ d # drop (Suc i) s"
  by (induction s arbitrary: i) (auto split: if_splits)

lemma index_of_append: "d \<notin> set w \<Longrightarrow> index_of d (w @ d # s) = Some (length w)"
  by (induction w) auto

lemma starts_with_append [simp]: "starts_with p (p @ s)"
  by (simp add: starts_with_def)

lemma starts_with_iff: "starts_with p s \<longleftrightarrow> (\<exists>t. s = p @ t)"
  unfolding starts_with_def by (metis append_eq_conv_conj)

lemma digit_char_inj: "a < 10 \<Longrightarrow> b < 10 \<Longrightarrow> digit_char a = digit_char b \<Longrightarrow> a = b"
proof -
  assume ab: "a < 10" "b < 10" and eq: "digit_char a = digit_char b"
  have "of_char (char_of (48 + a) :: char) = (of_char (char_of (48 + b) :: char) :: nat)"
    using eq by (simp add: digit_char_def)
  then show "a = b" using ab by (simp add: of_char_of)
qed

lemma nat_str_nonempty [simp]: "nat_str n \<noteq> []" "[] \<noteq> nat_str n"
  by (subst nat_str.simps; simp)+

lemma nat_str_inj: "nat_str m = nat_str n \<Longrightarrow> m = n"
proof (induction m arbitrary: n rule: nat_str.induct)
  case (1 m)
  have m: "nat_str m = (if m < 10 then [digit_char m] else nat_str (m div 10) @ [digit_char (m mod 10)])"
    by (rule nat_str.simps)
  have n: "nat_str n = (if n < 10 then [digit_char n] else nat_str (n div 10) @ [digit_char (n mod 10)])"
    by (rule nat_str.simps)
  show ?case
  proof (cases "m < 10"; cases "n < 10")
    assume "\<not> m < 10" "\<not> n < 10"
    with "1.prems" m n have "nat_str (m div 10) = nat_str (n div 10)"
      and d: "digit_char (m mod 10) = digit_char (n mod 10)" by auto
    with "1.IH" \<open>\<not> m < 10\<close> have "m div 10 = n div 10" by blast
    moreover from d have "m mod 10 = n mod 10" by (intro digit_char_inj) auto
    ultimately show ?thesis by (metis div_mult_mod_eq)
  qed (use "1.prems" m n digit_char_inj in auto)
qed

lemma digit_char_range: "d < 10 \<Longrightarrow> 48 \<le> (of_char (digit_char d) :: nat) \<and> (of_char (digit_char d) :: nat) \<le> 57"
  by (simp add: digit_char_def of_char_of)

lemma nat_str_digits: "c \<in> set (nat_str n) \<Longrightarrow> 48 \<le> (of_char c :: nat) \<and> (of_char c :: nat) \<le> 57"
proof (induction n rule: nat_str.induct)
  case (1 n)
  show ?case
  proof (cases "n < 10")
    case True
    with 1(2) digit_char_range [of n] show ?thesis by (subst (asm) nat_str.simps) simp
  next
    case False
    with 1(2) have "c \<in> set (nat_str (n div 10)) \<or> c = digit_char (n mod 10)"
      by (subst (asm) nat_str.simps) auto
    with 1(1) False digit_char_range [of "n mod 10"] show ?thesis by auto
  qed
qed

subsection \<open>JSON values and truthiness\<close>

text \<open>
  Values the source holds as \<open>unknown\<close>: parsed JSON. Numbers are the integers.
\<close>

datatype json =
    JNull
  | JBool bool
  | JNum int
  | JStr string
  | JArr "json list"
  | JObj "(string \<times> json) list"

fun is_plain_object :: "json \<Rightarrow> bool" where
  "is_plain_object (JObj _) = True"
| "is_plain_object _ = False"

text \<open>An optional string used as a condition: absent and empty are both false.\<close>

definition truthy :: "string option \<Rightarrow> bool" where
  "truthy x = (case x of None \<Rightarrow> False | Some s \<Rightarrow> s \<noteq> [])"

lemma truthy_simps [simp]: "\<not> truthy None" "truthy (Some s) \<longleftrightarrow> s \<noteq> []"
  by (simp_all add: truthy_def)

subsection \<open>Interfaces\<close>

text \<open>
  A store of values under keys, with the laws its clients rely on: what a read returns after a
  write and after a removal, and that both keep the store well formed.
\<close>

locale keyed_store =
  fixes get :: "'s \<Rightarrow> 'k \<Rightarrow> 'v option"
    and put :: "'k \<Rightarrow> 'v \<Rightarrow> 's \<Rightarrow> 's"
    and del :: "'k \<Rightarrow> 's \<Rightarrow> 's"
    and ok :: "'s \<Rightarrow> bool"
  assumes get_put: "ok s \<Longrightarrow> get (put k v s) k' = (if k' = k then Some v else get s k')"
    and get_del: "ok s \<Longrightarrow> get (del k s) k' = (if k' = k then None else get s k')"
    and ok_put: "ok s \<Longrightarrow> ok (put k v s)"
    and ok_del: "ok s \<Longrightarrow> ok (del k s)"
begin

lemma get_put_same: "ok s \<Longrightarrow> get (put k v s) k = Some v"
  by (simp add: get_put)

lemma get_put_put: "ok s \<Longrightarrow> get (put k w (put k v s)) = get (put k w s)"
  by (rule ext) (simp add: get_put ok_put)

lemma put_commute: "ok s \<Longrightarrow> k \<noteq> l \<Longrightarrow> get (put k v (put l w s)) = get (put l w (put k v s))"
  by (rule ext) (simp add: get_put ok_put)

lemma get_del_put: "ok s \<Longrightarrow> get (del k (put k v s)) = get (del k s)"
  by (rule ext) (simp add: get_put get_del ok_put)

lemma get_del_del: "ok s \<Longrightarrow> get (del k (del k s)) = get (del k s)"
  by (rule ext) (simp add: get_del ok_del)

lemma ok_puts: "ok s \<Longrightarrow> ok (fold (\<lambda>(k, v). put k v) kvs s)"
  by (induction kvs arbitrary: s) (auto simp: ok_put)

lemma get_puts: "ok s \<Longrightarrow> get (fold (\<lambda>(k, v). put k v) kvs s) k =
    (case map_of (rev kvs) k of Some v \<Rightarrow> Some v | None \<Rightarrow> get s k)"
proof (induction kvs arbitrary: s)
  case Nil
  then show ?case by simp
next
  case (Cons e kvs)
  obtain l w where e: "e = (l, w)" by (cases e)
  from Cons.prems have "ok (put l w s)" by (rule ok_put)
  from Cons.IH [OF this] Cons.prems show ?case
    by (simp add: e get_put map_add_def split: option.splits)
qed

end

interpretation jm: keyed_store map_of jput jdel jwf
  by unfold_locales auto

text \<open>
  A store of records that carry their own key: adding replaces a record with the same key, and a
  record is read back in the form \<open>norm\<close> gives it. The extension has an update that only replaces
  and never adds.
\<close>

locale record_store =
  fixes key :: "'v \<Rightarrow> 'k"
    and norm :: "'v \<Rightarrow> 'v"
    and get :: "'s \<Rightarrow> 'k \<Rightarrow> 'v option"
    and add :: "'v \<Rightarrow> 's \<Rightarrow> 's"
    and remove :: "'k \<Rightarrow> 's \<Rightarrow> 's"
  assumes get_add: "get (add v s) k = (if k = key v then Some (norm v) else get s k)"
    and get_remove: "get (remove k s) k' = (if k' = k then None else get s k')"
begin

lemma add_commute: "key v \<noteq> key w \<Longrightarrow> get (add v (add w s)) = get (add w (add v s))"
  by (rule ext) (simp add: get_add)

lemma get_remove_add: "get (remove (key v) (add v s)) = get (remove (key v) s)"
  by (rule ext) (simp add: get_add get_remove)

end

locale updatable_store = record_store key norm get add remove
  for key :: "'v \<Rightarrow> 'k" and norm and get :: "'s \<Rightarrow> 'k \<Rightarrow> 'v option" and add and remove +
  fixes update :: "'v \<Rightarrow> 's \<Rightarrow> 's"
  assumes get_update: "get (update v s) k = (if k = key v \<and> get s k \<noteq> None then Some (norm v) else get s k)"
begin

lemma update_absent: "get s (key v) = None \<Longrightarrow> get (update v s) = get s"
  by (rule ext) (simp add: get_update)

lemma update_present: "get s (key v) \<noteq> None \<Longrightarrow> get (update v s) = get (add v s)"
  by (rule ext) (simp add: get_update get_add)

lemma updates_absent: "get s k = None \<Longrightarrow> get (fold update vs s) k = None"
  by (induction vs arbitrary: s) (auto simp: get_update)

lemma updates_after_remove: "get (fold update vs (remove k s)) k = None"
  by (rule updates_absent) (simp add: get_remove)

end

subsection \<open>Finding the first record with a key\<close>

definition find_key :: "('v \<Rightarrow> 'k) \<Rightarrow> 'k \<Rightarrow> 'v list \<Rightarrow> 'v option" where
  "find_key f k vs = find (\<lambda>v. f v = k) vs"

lemma find_key_simps [simp]: "find_key f k [] = None"
  "find_key f k (v # vs) = (if f v = k then Some v else find_key f k vs)"
  by (simp_all add: find_key_def)

lemma find_key_append: "find_key f k (xs @ ys) = (case find_key f k xs of None \<Rightarrow> find_key f k ys | Some v \<Rightarrow> Some v)"
  by (induction xs) (auto simp: find_key_def)

lemma find_key_filter: "find_key f k (filter (\<lambda>v. f v \<noteq> k') xs) = (if k = k' then None else find_key f k xs)"
  by (induction xs) (auto simp: find_key_def)

lemma find_key_map: "(\<And>v. f (g v) = f v) \<Longrightarrow> find_key f k (map g xs) = map_option g (find_key f k xs)"
  by (induction xs) (auto simp: find_key_def)

lemma find_key_None: "find_key f k xs = None \<longleftrightarrow> k \<notin> f ` set xs"
  by (auto simp: find_key_def find_None_iff)

lemma find_key_Some: "find_key f k xs = Some v \<Longrightarrow> v \<in> set xs \<and> f v = k"
  by (auto simp: find_key_def find_Some_iff)

text \<open>Replacing the first record with the key of the new one.\<close>

fun replace_first :: "('a \<Rightarrow> bool) \<Rightarrow> 'a \<Rightarrow> 'a list \<Rightarrow> 'a list" where
  "replace_first p v [] = []"
| "replace_first p v (x # xs) = (if p x then v # xs else x # replace_first p v xs)"

lemma find_key_replace: "find_key f k (replace_first (\<lambda>x. f x = f v) v xs)
    = (if k = f v \<and> find_key f k xs \<noteq> None then Some v else find_key f k xs)"
  by (induction xs) (auto simp: find_key_def)

subsection \<open>Runs\<close>

text \<open>
  A system driven by events: an invariant every step keeps holds after every run.
\<close>

locale step_system =
  fixes step :: "'e \<Rightarrow> 's \<Rightarrow> 's"
    and inv :: "'s \<Rightarrow> bool"
  assumes inv_step: "inv s \<Longrightarrow> inv (step e s)"
begin

lemma inv_run: "inv s \<Longrightarrow> inv (fold step es s)"
  by (induction es arbitrary: s) (auto intro: inv_step)

end

lemmas js_string_defs = trim_def starts_with_def ends_with_def is_ws_def lower_def int_str_def

declare js_string_defs [js_simps] nat_str.simps [js_simps] digit_char_def [js_simps]

end
