(* ===== verification/ProjectConfig.thy ===== *)
theory ProjectConfig
  imports Prelude
begin

section \<open>Project configuration\<close>

text \<open>
  The configuration a project declares in \<open>roubo.yaml\<close>, as \<open>shared/config-schema.ts\<close> types it
  after parsing, and the registered project of \<open>shared/types.ts\<close>. The sections no modelled
  service reads (\<open>tools\<close>, \<open>jigs\<close>, \<open>integration\<close>, \<open>users\<close>) are kept as JSON values.
  \<open>config_ok\<close> states the bounds the schema enforces on the sections that are typed.
\<close>

record port_config =
  base :: int
  https :: "bool option"

datatype layout_type = Meta_repo | Monorepo | Single_repo

record submodule_init =
  reuseMainCheckout :: "bool option"
  init_jobs :: "int option"

record layout_config =
  layout_kind :: layout_type
  submodules :: "string jmap option"
  submoduleInit :: "submodule_init option"

text \<open>A \<open>shell\<close> setting: a boolean, or the shell invocation itself.\<close>

datatype shell_setting = Shell_flag bool | Shell_cmd string

record component_binding =
  plugin_id :: string
  plugin_source :: "string option"

record component_config =
  plugin :: "component_binding option"
  config_block :: "json jmap option"
  dependsOn :: "string list option"
  legacy_setup :: "string option"
  legacy_connection :: "string option"

record benches_config =
  max_benches :: int
  setup_command :: "string option"
  setup_shell :: "shell_setting option"
  enforceIssueDependencies :: "bool option"

record project_config =
  project_name :: string
  displayName :: string
  repo :: "string option"
  github_project :: "int option"
  jigSettings :: "json option"

record roubo_config =
  cfg_project :: project_config
  cfg_layout :: layout_config
  cfg_components :: "component_config jmap"
  cfg_ports :: "port_config jmap"
  cfg_tools :: "json option"
  benches_cfg :: benches_config
  cfg_jigs :: "json option"
  cfg_integration :: "json option"
  cfg_users :: "json option"
  cfg_marketplaces :: "string list option"

record config_field_error =
  error_path :: string
  error_message :: string

record project_settings =
  branchFromDefault :: bool
  pullLatest :: bool

definition DEFAULT_PROJECT_SETTINGS :: project_settings where
  "DEFAULT_PROJECT_SETTINGS = \<lparr>branchFromDefault = True, pullLatest = True\<rparr>"

record registered_project =
  project_id :: string
  repoPath :: string
  config :: "roubo_config option"
  configValid :: bool
  configError :: "string option"
  fieldErrors :: "config_field_error list option"
  settings :: project_settings

definition project_name_ok :: "string \<Rightarrow> bool" where
  "project_name_ok s = (s \<noteq> [] \<and> list_all (\<lambda>c. let n = (of_char c :: nat) in
     (97 \<le> n \<and> n \<le> 122) \<or> (48 \<le> n \<and> n \<le> 57) \<or> c = CHR ''-'') s)"

definition submodule_init_ok :: "submodule_init \<Rightarrow> bool" where
  "submodule_init_ok i = (case init_jobs i of None \<Rightarrow> True | Some n \<Rightarrow> 1 \<le> n \<and> n \<le> 16)"

definition port_config_ok :: "port_config \<Rightarrow> bool" where
  "port_config_ok p = (1 \<le> base p \<and> base p \<le> 65535)"

definition benches_config_ok :: "benches_config \<Rightarrow> bool" where
  "benches_config_ok b = (1 \<le> max_benches b \<and> max_benches b \<le> 99 \<and> setup_shell b \<noteq> Some (Shell_cmd []))"

text \<open>The two cross-field rules of the schema's \<open>superRefine\<close> are the last two conjuncts.\<close>

definition config_ok :: "roubo_config \<Rightarrow> bool" where
  "config_ok c =
     (project_name_ok (project_name (cfg_project c))
      \<and> jwf (cfg_ports c) \<and> jwf (cfg_components c)
      \<and> list_all port_config_ok (jvals (cfg_ports c)) \<and> benches_config_ok (benches_cfg c)
      \<and> (case submoduleInit (cfg_layout c) of None \<Rightarrow> True | Some i \<Rightarrow> submodule_init_ok i)
      \<and> (case submodules (cfg_layout c) of None \<Rightarrow> True | Some m \<Rightarrow> \<not> jhas m ''.'')
      \<and> (submoduleInit (cfg_layout c) \<noteq> None \<longrightarrow> layout_kind (cfg_layout c) = Meta_repo))"

lemma config_ok_max: "config_ok c \<Longrightarrow> 1 \<le> max_benches (benches_cfg c) \<and> max_benches (benches_cfg c) \<le> 99"
  by (simp add: config_ok_def benches_config_ok_def)

lemma config_ok_base: "config_ok c \<Longrightarrow> (n, p) \<in> set (cfg_ports c) \<Longrightarrow> 1 \<le> base p \<and> base p \<le> 65535"
  by (auto simp: config_ok_def port_config_ok_def list_all_iff)

end
