(* ===== verification/BenchOrder.thy ===== *)
theory BenchOrder
  imports ProjectConfig
begin

section \<open>Component start order\<close>

text \<open>
  \<open>server/services/bench-manager.ts\<close>, \<open>resolveComponentOrder\<close> and \<open>getComponentOrder\<close>: the order
  in which the components of a bench start, from their \<open>dependsOn\<close> lists. The closure \<open>visit\<close> is a
  depth-first walk; its mutable \<open>visited\<close> set and \<open>order\<close> list are the threaded state, and the
  \<open>ancestors\<close> set is an argument, because each call removes again what it added. The walk ends
  because each descent adds a component to the ancestors.
\<close>

type_synonym order_state = "string list \<times> string list"

definition deps_in :: "component_config jmap \<Rightarrow> string \<Rightarrow> string list" where
  "deps_in cs name =
     filter (\<lambda>d. d \<in> set (jkeys cs))
       (case map_of cs name of None \<Rightarrow> [] | Some c \<Rightarrow> coalesce (dependsOn c) [])"

lemma deps_in_unknown: "name \<notin> fst ` set cs \<Longrightarrow> deps_in cs name = []"
  by (simp add: deps_in_def map_of_eq_None_iff [symmetric])

text \<open>The result \<open>Inl name\<close> is the \<open>DEPENDENCY_CYCLE\<close> error about \<open>name\<close>.\<close>

function (sequential)
  visit :: "component_config jmap \<Rightarrow> string \<Rightarrow> string list \<Rightarrow> order_state \<Rightarrow> string + order_state"
  and visit_deps :: "component_config jmap \<Rightarrow> string list \<Rightarrow> string list \<Rightarrow> order_state \<Rightarrow> string + order_state"
where
  "visit cs name ancestors st =
     (if name \<in> set (fst st) then Inr st
      else if name \<in> set ancestors then Inl name
      else case visit_deps cs (deps_in cs name) (name # ancestors) st of
             Inl e \<Rightarrow> Inl e
           | Inr st' \<Rightarrow> Inr (name # fst st', snd st' @ [name]))"
| "visit_deps cs [] ancestors st = Inr st"
| "visit_deps cs (d # ds) ancestors st =
     (case visit cs d ancestors st of
        Inl e \<Rightarrow> Inl e
      | Inr st' \<Rightarrow> visit_deps cs ds ancestors st')"
  by pat_completeness auto

termination
proof (relation "measures [\<lambda>x. case x of Inl (cs, name, anc, st) \<Rightarrow> card (fst ` set cs - set anc)
                             | Inr (cs, ds, anc, st) \<Rightarrow> card (fst ` set cs - set anc),
                           \<lambda>x. case x of Inl _ \<Rightarrow> 1 | Inr (cs, ds, anc, st) \<Rightarrow> 2 * length ds]", goal_cases)
  case (2 cs name anc st)
  show ?case
  proof (cases "name \<in> fst ` set cs")
    case True
    then have "fst ` set cs - set (name # anc) \<subset> fst ` set cs - set anc" using 2 by auto
    then have "card (fst ` set cs - set (name # anc)) < card (fst ` set cs - set anc)"
      by (intro psubset_card_mono) auto
    then show ?thesis by simp
  next
    case False
    then have "fst ` set cs - set (name # anc) = fst ` set cs - set anc" by auto
    then show ?thesis using deps_in_unknown [OF False] by simp
  qed
qed simp_all

definition resolveComponentOrder :: "component_config jmap \<Rightarrow> string + string list" where
  "resolveComponentOrder cs =
     (case visit_deps cs (jkeys cs) [] ([], []) of Inl e \<Rightarrow> Inl e | Inr st \<Rightarrow> Inr (snd st))"

definition getComponentOrder :: "component_config jmap \<Rightarrow> string + string list" where
  "getComponentOrder cs =
     (if list_ex (\<lambda>c. coalesce (dependsOn c) [] \<noteq> []) (jvals cs) then resolveComponentOrder cs
      else
        (let known = filter (\<lambda>n. n \<in> set (jkeys cs)) [''app'', ''backend'', ''frontend'']
         in Inr (known @ filter (\<lambda>n. n \<notin> set known) (jkeys cs))))"

subsection \<open>The walk returns a topological order\<close>

definition dep :: "component_config jmap \<Rightarrow> (string \<times> string) set" where
  "dep cs = {(a, b). b \<in> set (deps_in cs a)}"

definition topo :: "component_config jmap \<Rightarrow> string list \<Rightarrow> bool" where
  "topo cs ord \<longleftrightarrow> distinct ord \<and> (\<forall>xs y ys. ord = xs @ y # ys \<longrightarrow> set (deps_in cs y) \<subseteq> set xs)"

lemma topo_Nil [simp]: "topo cs []"
  by (simp add: topo_def)

lemma topo_snoc: "topo cs ord \<Longrightarrow> y \<notin> set ord \<Longrightarrow> set (deps_in cs y) \<subseteq> set ord \<Longrightarrow> topo cs (ord @ [y])"
proof -
  assume t: "topo cs ord" and y: "y \<notin> set ord" "set (deps_in cs y) \<subseteq> set ord"
  have "set (deps_in cs z) \<subseteq> set xs" if e: "ord @ [y] = xs @ z # zs" for xs z zs
  proof (cases zs rule: rev_cases)
    case Nil
    with e y show ?thesis by simp
  next
    case (snoc ws w)
    with e have "ord = xs @ z # ws" by simp
    with t show ?thesis unfolding topo_def by blast
  qed
  with t y show ?thesis unfolding topo_def by auto
qed

definition walk_ok :: "component_config jmap \<Rightarrow> string list \<Rightarrow> order_state \<Rightarrow> order_state \<Rightarrow> bool" where
  "walk_ok cs anc st st' \<longleftrightarrow> topo cs (snd st') \<and> set (fst st') = set (snd st') \<and> set (snd st) \<subseteq> set (snd st')
     \<and> (set (snd st') - set (snd st)) \<inter> set anc = {}"

lemma visit_correct:
  "topo cs (snd st) \<Longrightarrow> set (fst st) = set (snd st) \<Longrightarrow> visit cs name anc st = Inr st' \<Longrightarrow>
     walk_ok cs anc st st' \<and> name \<in> set (snd st') \<and>
     (name \<in> fst ` set cs \<longrightarrow> set (snd st') \<subseteq> set (snd st) \<union> fst ` set cs)"
  "topo cs (snd st) \<Longrightarrow> set (fst st) = set (snd st) \<Longrightarrow> visit_deps cs ds anc st = Inr st' \<Longrightarrow>
     walk_ok cs anc st st' \<and> set ds \<subseteq> set (snd st') \<and>
     (set ds \<subseteq> fst ` set cs \<longrightarrow> set (snd st') \<subseteq> set (snd st) \<union> fst ` set cs)"
proof (induction cs name anc st and cs ds anc st arbitrary: st' and st' rule: visit_visit_deps.induct)
  case (1 cs name anc st)
  show ?case
  proof (cases "name \<in> set (fst st)")
    case True
    with 1 show ?thesis by (auto simp: walk_ok_def)
  next
    case False
    with "1.prems"(3) have anc: "name \<notin> set anc" by (auto split: if_splits)
    from "1.prems"(3) False anc obtain st1 where st1: "visit_deps cs (deps_in cs name) (name # anc) st = Inr st1"
      and st': "st' = (name # fst st1, snd st1 @ [name])" by (auto split: sum.splits)
    from "1.IH" [OF False anc "1.prems"(1,2) st1] have w: "walk_ok cs (name # anc) st st1"
      and d: "set (deps_in cs name) \<subseteq> set (snd st1)"
      and k: "set (deps_in cs name) \<subseteq> fst ` set cs \<longrightarrow> set (snd st1) \<subseteq> set (snd st) \<union> fst ` set cs" by blast+
    have "name \<notin> set (snd st1)" using w False "1.prems"(2) by (auto simp: walk_ok_def)
    then have "topo cs (snd st1 @ [name])" using w d by (intro topo_snoc) (auto simp: walk_ok_def)
    moreover have "set (deps_in cs name) \<subseteq> fst ` set cs" by (auto simp: deps_in_def)
    ultimately show ?thesis using w k anc st' by (auto simp: walk_ok_def)
  qed
next
  case (2 cs anc st)
  then show ?case by (simp add: walk_ok_def)
next
  case (3 cs d ds anc st)
  from "3.prems"(3) obtain st1 where st1: "visit cs d anc st = Inr st1" "visit_deps cs ds anc st1 = Inr st'"
    by (auto split: sum.splits)
  from "3.IH"(1) [OF "3.prems"(1,2) st1(1)] have a: "walk_ok cs anc st st1" "d \<in> set (snd st1)"
    "d \<in> fst ` set cs \<longrightarrow> set (snd st1) \<subseteq> set (snd st) \<union> fst ` set cs" by blast+
  from "3.IH"(2) [OF st1(1) _ _ st1(2)] a(1) have b: "walk_ok cs anc st1 st'" "set ds \<subseteq> set (snd st')"
    "set ds \<subseteq> fst ` set cs \<longrightarrow> set (snd st') \<subseteq> set (snd st1) \<union> fst ` set cs" by (auto simp: walk_ok_def)
  have "walk_ok cs anc st st'" using a(1) b(1) by (auto simp: walk_ok_def)
  moreover have "d \<in> set (snd st')" using a(2) b(1) by (auto simp: walk_ok_def)
  ultimately show ?case using a(3) b(2,3) by auto
qed

lemma visit_cycle:
  "(\<forall>a \<in> set anc. (a, name) \<in> (dep cs)\<^sup>+) \<Longrightarrow> visit cs name anc st = Inl e \<Longrightarrow> (e, e) \<in> (dep cs)\<^sup>+"
  "(\<forall>a \<in> set anc. \<forall>d \<in> set ds. (a, d) \<in> (dep cs)\<^sup>+) \<Longrightarrow> visit_deps cs ds anc st = Inl e \<Longrightarrow> (e, e) \<in> (dep cs)\<^sup>+"
proof (induction cs name anc st and cs ds anc st rule: visit_visit_deps.induct)
  case (1 cs name anc st)
  from "1.prems"(2) have v: "name \<notin> set (fst st)" by (auto split: if_splits)
  show ?case
  proof (cases "name \<in> set anc")
    case True
    with 1 v show ?thesis by auto
  next
    case False
    with "1.prems"(2) v have d: "visit_deps cs (deps_in cs name) (name # anc) st = Inl e"
      by (auto split: sum.splits)
    have "(a, x) \<in> (dep cs)\<^sup>+" if "a \<in> set (name # anc)" "x \<in> set (deps_in cs name)" for a x
    proof -
      have "(name, x) \<in> dep cs" using that(2) by (simp add: dep_def)
      with that(1) "1.prems"(1) show ?thesis by (auto intro: trancl_into_trancl)
    qed
    with "1.IH" [OF v False _ d] show ?thesis by blast
  qed
next
  case (3 cs d ds anc st)
  then show ?case by (auto split: sum.splits)
qed simp

lemma topo_acyclic:
  assumes "topo cs ord" and "fst ` set cs \<subseteq> set ord"
  shows "acyclic (dep cs)"
proof -
  have before: "\<exists>xs ys. ord = xs @ a # ys \<and> b \<in> set xs" if ab: "(a, b) \<in> (dep cs)\<^sup>+" for a b
    using ab
  proof (induction rule: converse_trancl_induct)
    case (base a)
    then have "a \<in> fst ` set cs" "b \<in> set (deps_in cs a)" using deps_in_unknown by (force simp: dep_def)+
    moreover obtain xs ys where "ord = xs @ a # ys" using calculation(1) assms(2) by (meson split_list subsetD)
    ultimately show ?case using assms(1) unfolding topo_def by blast
  next
    case (step a c)
    then have "a \<in> fst ` set cs" "c \<in> set (deps_in cs a)" using deps_in_unknown by (force simp: dep_def)+
    moreover obtain xs ys where o: "ord = xs @ a # ys" using calculation(1) assms(2) by (meson split_list subsetD)
    ultimately have c: "c \<in> set xs" using assms(1) unfolding topo_def by blast
    from step.IH obtain us vs where u: "ord = us @ c # vs" "b \<in> set us" by blast
    from c obtain ps qs where p: "xs = ps @ c # qs" by (meson split_list)
    have eq: "us @ c # vs = ps @ c # (qs @ a # ys)" using u(1) o p by simp
    have "distinct (us @ c # vs)" using assms(1) u(1) by (simp add: topo_def)
    then have nin: "c \<notin> set us" "c \<notin> set vs" by auto
    then have "us = ps" using append_Cons_eq_iff [OF nin, of ps "qs @ a # ys"] eq by blast
    then have "b \<in> set xs" using u(2) p by simp
    with o show ?case by blast
  qed
  show ?thesis
  proof (rule acyclicI, rule allI, rule notI)
    fix a assume "(a, a) \<in> (dep cs)\<^sup>+"
    from before [OF this] assms(1) show False by (auto simp: topo_def)
  qed
qed

lemma resolve_Inr:
  assumes "resolveComponentOrder cs = Inr ord"
  shows "topo cs ord" and "set ord = fst ` set cs"
proof -
  obtain st where st: "visit_deps cs (jkeys cs) [] ([], []) = Inr st" "ord = snd st"
    using assms by (auto simp: resolveComponentOrder_def split: sum.splits)
  from visit_correct(2) [OF _ _ st(1)] st(2) show "topo cs ord" "set ord = fst ` set cs"
    by (auto simp: walk_ok_def)
qed

lemma resolve_Inl: "resolveComponentOrder cs = Inl e \<Longrightarrow> \<not> acyclic (dep cs)"
  using visit_cycle(2) [of "[]" "jkeys cs" cs "([], [])" e]
  by (auto simp: resolveComponentOrder_def acyclic_def split: sum.splits)

lemma no_deps: "\<not> list_ex (\<lambda>c. coalesce (dependsOn c) [] \<noteq> []) (jvals cs) \<Longrightarrow> deps_in cs n = []"
  by (auto simp: deps_in_def list_ex_iff split: option.splits dest!: map_of_SomeD)

lemma known_first:
  assumes "distinct D" and "distinct ks"
  shows "distinct (filter (\<lambda>n. n \<in> set ks) D @ filter (\<lambda>n. n \<notin> set (filter (\<lambda>n. n \<in> set ks) D)) ks)
    \<and> set (filter (\<lambda>n. n \<in> set ks) D @ filter (\<lambda>n. n \<notin> set (filter (\<lambda>n. n \<in> set ks) D)) ks) = set ks"
  using assms by auto

lemma getComponentOrder_Inr:
  assumes "jwf cs" and "getComponentOrder cs = Inr ord"
  shows "topo cs ord \<and> set ord = fst ` set cs"
proof (cases "list_ex (\<lambda>c. coalesce (dependsOn c) [] \<noteq> []) (jvals cs)")
  case True
  with assms(2) resolve_Inr show ?thesis by (simp add: getComponentOrder_def)
next
  case False
  define D where "D = [''app'', ''backend'', ''frontend'']"
  have D: "distinct D" by (simp add: D_def)
  have ord: "ord = filter (\<lambda>n. n \<in> set (jkeys cs)) D @
      filter (\<lambda>n. n \<notin> set (filter (\<lambda>n. n \<in> set (jkeys cs)) D)) (jkeys cs)"
    using assms(2) False unfolding getComponentOrder_def Let_def D_def [symmetric] by auto
  have "distinct ord \<and> set ord = set (jkeys cs)"
    unfolding ord by (rule known_first [OF D assms(1)])
  then show ?thesis using no_deps [OF False] by (simp add: topo_def)
qed

subsection \<open>Properties\<close>

definition sample_component :: "string list \<Rightarrow> component_config" where
  "sample_component ds = \<lparr>plugin = None, config_block = None, dependsOn = Some ds, legacy_setup = None, legacy_connection = None\<rparr>"

text \<open>
  The start order contains every component of the bench exactly once, and each component comes
  after all the components it depends on.
\<close>

theorem start_order_topological:
  assumes "jwf cs" and "getComponentOrder cs = Inr ord"
  shows "distinct ord \<and> set ord = set (jkeys cs)
    \<and> (\<forall>xs y ys. ord = xs @ y # ys \<longrightarrow> set (deps_in cs y) \<subseteq> set xs)"
  using getComponentOrder_Inr [OF assms] by (simp add: topo_def)

theorem start_order_topological_witness:
  "distinct [''db'', ''api'', ''web''] \<and> set (deps_in [(''web'', sample_component [''api'', ''db'']),
     (''api'', sample_component [''db'']), (''db'', sample_component [])] ''web'') \<subseteq> {''db'', ''api''}"
proof -
  let ?cs = "[(''web'', sample_component [''api'', ''db'']), (''api'', sample_component [''db'']),
     (''db'', sample_component [])]"
  have "getComponentOrder ?cs = Inr [''db'', ''api'', ''web'']"
    by (simp add: getComponentOrder_def resolveComponentOrder_def deps_in_def sample_component_def)
  from start_order_topological [OF _ this, THEN conjunct2, THEN conjunct2, rule_format,
      of "[''db'', ''api'']" "''web''" "[]"]
  show ?thesis by simp
qed

text \<open>
  C40. A configuration is refused, before anything starts, exactly when the \<open>dependsOn\<close> lists,
  restricted to the components that exist, contain a cycle.
\<close>

theorem cycle_refused_iff:
  assumes "jwf cs"
  shows "(\<exists>e. getComponentOrder cs = Inl e) \<longleftrightarrow> \<not> acyclic (dep cs)"
proof (cases "getComponentOrder cs")
  case (Inl e)
  then have "resolveComponentOrder cs = Inl e" by (simp add: getComponentOrder_def split: if_splits)
  with Inl resolve_Inl show ?thesis by blast
next
  case (Inr ord)
  with getComponentOrder_Inr [OF assms] topo_acyclic [of cs ord] show ?thesis by auto
qed

theorem cycle_refused_iff_witness:
  "\<exists>e. getComponentOrder [(''a'', sample_component [''b'']), (''b'', sample_component [''a''])] = Inl e"
proof -
  let ?cs = "[(''a'', sample_component [''b'']), (''b'', sample_component [''a''])]"
  have "(''a'', ''b'') \<in> dep ?cs" "(''b'', ''a'') \<in> dep ?cs"
    by (simp_all add: dep_def deps_in_def sample_component_def)
  then have "(''a'', ''a'') \<in> (dep ?cs)\<^sup>+" by (rule trancl_into_trancl [OF r_into_trancl])
  then have "\<not> acyclic (dep ?cs)" by (auto simp: acyclic_def)
  then show ?thesis by (subst cycle_refused_iff) simp_all
qed

end
