(* ===== verification/Ports.thy ===== *)
theory Ports
  imports ProjectConfig
begin

section \<open>Port allocation\<close>

text \<open>
  \<open>server/services/port-allocator.ts\<close>: the port of a component on bench \<open>n\<close>, the range of
  ports a project can hand out, and the overlap check run when a project is registered. The
  rendering of a conflict as text (\<open>checkPortConflicts\<close>) keeps the message's parts.
\<close>

definition allocatePorts :: "roubo_config \<Rightarrow> int \<Rightarrow> int jmap" where
  "allocatePorts c benchNumber =
     map (\<lambda>(name, portConfig). (name, base portConfig + (benchNumber - 1))) (cfg_ports c)"

record port_range =
  range_name :: string
  range_project :: string
  low :: int
  high :: int

record port_conflict =
  newRange :: port_range
  existingRange :: port_range

definition getPortRanges :: "string \<Rightarrow> roubo_config \<Rightarrow> port_range list" where
  "getPortRanges projectId c =
     map (\<lambda>(name, portConfig).
        \<lparr>range_name = name, range_project = projectId, low = base portConfig,
         high = base portConfig + max_benches (benches_cfg c) - 1\<rparr>) (cfg_ports c)"

definition ranges_overlap :: "port_range \<Rightarrow> port_range \<Rightarrow> bool" where
  "ranges_overlap nr er = (low nr \<le> high er \<and> low er \<le> high nr)"

fun getPortConflicts :: "string \<Rightarrow> roubo_config \<Rightarrow> registered_project list \<Rightarrow> port_conflict list" where
  "getPortConflicts newId newConfig [] = []"
| "getPortConflicts newId newConfig (existing # rest) =
     (if project_id existing = newId then []
      else case config existing of
        None \<Rightarrow> []
      | Some c \<Rightarrow>
          concat (map (\<lambda>nr.
            concat (map (\<lambda>er. if ranges_overlap nr er
                               then [\<lparr>newRange = nr, existingRange = er\<rparr>] else [])
                        (getPortRanges (project_id existing) c)))
            (getPortRanges newId newConfig)))
     @ getPortConflicts newId newConfig rest"

definition range_text :: "port_range \<Rightarrow> string" where
  "range_text r = range_project r @ ''.'' @ range_name r @ '' ('' @ int_str (low r) @ ''-''
     @ int_str (high r) @ '')''"

definition checkPortConflicts :: "string \<Rightarrow> roubo_config \<Rightarrow> registered_project list \<Rightarrow> string list" where
  "checkPortConflicts newId newConfig existing =
     map (\<lambda>pc. ''Port conflict: '' @ range_text (newRange pc) @ '' overlaps with ''
               @ range_text (existingRange pc))
       (getPortConflicts newId newConfig existing)"

subsection \<open>What the ranges mean\<close>

text \<open>A port that some bench of the project, numbered from 1 to its maximum, is given.\<close>

definition uses_port :: "roubo_config \<Rightarrow> int \<Rightarrow> string \<Rightarrow> int \<Rightarrow> bool" where
  "uses_port c n name p \<longleftrightarrow>
     1 \<le> n \<and> n \<le> max_benches (benches_cfg c) \<and> (name, p) \<in> set (allocatePorts c n)"

lemma set_allocatePorts: "(name, p) \<in> set (allocatePorts c n) \<longleftrightarrow>
    (\<exists>pc. (name, pc) \<in> set (cfg_ports c) \<and> p = base pc + (n - 1))"
  by (auto simp: allocatePorts_def)

lemma jkeys_allocatePorts [simp]: "jkeys (allocatePorts c n) = jkeys (cfg_ports c)"
  by (induction "cfg_ports c") (auto simp: allocatePorts_def)

lemma uses_port_iff: "(\<exists>n. uses_port c n name p) \<longleftrightarrow>
    (\<exists>r \<in> set (getPortRanges pid c). range_name r = name \<and> low r \<le> p \<and> p \<le> high r)"
proof
  assume "\<exists>n. uses_port c n name p"
  then obtain n pc where n: "1 \<le> n" "n \<le> max_benches (benches_cfg c)"
    and pc: "(name, pc) \<in> set (cfg_ports c)" and p: "p = base pc + (n - 1)"
    by (auto simp: uses_port_def set_allocatePorts)
  let ?r = "\<lparr>range_name = name, range_project = pid, low = base pc,
             high = base pc + max_benches (benches_cfg c) - 1\<rparr>"
  have "?r \<in> set (getPortRanges pid c)" using pc by (force simp: getPortRanges_def)
  then show "\<exists>r \<in> set (getPortRanges pid c). range_name r = name \<and> low r \<le> p \<and> p \<le> high r"
    using n p by (intro bexI [of _ ?r]) auto
next
  assume "\<exists>r \<in> set (getPortRanges pid c). range_name r = name \<and> low r \<le> p \<and> p \<le> high r"
  then obtain pc where pc: "(name, pc) \<in> set (cfg_ports c)"
    and b: "base pc \<le> p" "p \<le> base pc + max_benches (benches_cfg c) - 1"
    by (auto simp: getPortRanges_def)
  have "uses_port c (p - base pc + 1) name p"
    using b pc by (auto simp: uses_port_def set_allocatePorts)
  then show "\<exists>n. uses_port c n name p" ..
qed

lemma getPortConflicts_set: "pc \<in> set (getPortConflicts nid nc ps) \<longleftrightarrow>
    (\<exists>q \<in> set ps. \<exists>c. project_id q \<noteq> nid \<and> config q = Some c
       \<and> newRange pc \<in> set (getPortRanges nid nc)
       \<and> existingRange pc \<in> set (getPortRanges (project_id q) c)
       \<and> ranges_overlap (newRange pc) (existingRange pc))"
proof (induction ps)
  case Nil
  then show ?case by simp
next
  case (Cons q ps)
  have cell: "pc \<in> set (concat (map (\<lambda>nr. concat (map (\<lambda>er. if ranges_overlap nr er
         then [\<lparr>newRange = nr, existingRange = er\<rparr>] else []) ers)) nrs))
      \<longleftrightarrow> newRange pc \<in> set nrs \<and> existingRange pc \<in> set ers
          \<and> ranges_overlap (newRange pc) (existingRange pc)" for nrs ers
    by (cases pc) (force split: if_splits)
  show ?case
    by (auto simp only: getPortConflicts.simps set_append Un_iff cell Cons.IH
        split: if_splits option.splits) auto
qed

lemma overlap_common: "1 \<le> max_benches (benches_cfg c) \<Longrightarrow> 1 \<le> max_benches (benches_cfg d) \<Longrightarrow>
    nr \<in> set (getPortRanges i c) \<Longrightarrow> er \<in> set (getPortRanges j d) \<Longrightarrow>
    ranges_overlap nr er \<longleftrightarrow> (\<exists>p. low nr \<le> p \<and> p \<le> high nr \<and> low er \<le> p \<and> p \<le> high er)"
proof -
  assume m: "1 \<le> max_benches (benches_cfg c)" "1 \<le> max_benches (benches_cfg d)"
    and r: "nr \<in> set (getPortRanges i c)" "er \<in> set (getPortRanges j d)"
  have "low nr \<le> high nr" "low er \<le> high er"
    using m r by (auto simp: getPortRanges_def)
  then show ?thesis
    by (auto simp: ranges_overlap_def intro: exI [of _ "max (low nr) (low er)"])
qed

lemma no_conflict_no_share:
  assumes "config_ok nc" and "config_ok c" and "config q = Some c" and "project_id q \<noteq> nid"
    and "getPortConflicts nid nc [q] = []"
  shows "\<not> (uses_port nc n a p \<and> uses_port c m b p)"
proof
  assume "uses_port nc n a p \<and> uses_port c m b p"
  then obtain nr er where r: "nr \<in> set (getPortRanges nid nc)" "er \<in> set (getPortRanges (project_id q) c)"
    "low nr \<le> p" "p \<le> high nr" "low er \<le> p" "p \<le> high er"
    using uses_port_iff [of nc a p nid] uses_port_iff [of c b p "project_id q"] by blast
  then have "ranges_overlap nr er" by (simp add: ranges_overlap_def)
  then have "\<lparr>newRange = nr, existingRange = er\<rparr> \<in> set (getPortConflicts nid nc [q])"
    unfolding getPortConflicts_set using r assms(3,4) by auto
  with assms(5) show False by simp
qed

subsection \<open>Properties\<close>

text \<open>
  The registration check is exact: it reports a conflict for the pair of ports named
  \<open>a\<close> (new project) and \<open>b\<close> (an already registered project with a config) if and only if some
  bench of the new project and some bench of the registered one would be given the same port
  for them. So a project that registers without a conflict never shares a port with another.
\<close>

theorem port_conflicts_exact:
  assumes "config_ok nc" and "q \<in> set ps" and "config q = Some c" and "config_ok c"
    and "project_id q \<noteq> nid"
  shows "(\<exists>pc \<in> set (getPortConflicts nid nc ps). newRange pc \<in> set (getPortRanges nid nc)
            \<and> range_name (newRange pc) = a
            \<and> existingRange pc \<in> set (getPortRanges (project_id q) c)
            \<and> range_name (existingRange pc) = b)
         \<longleftrightarrow> (\<exists>n m p. uses_port nc n a p \<and> uses_port c m b p)"
    (is "?lhs \<longleftrightarrow> ?rhs")
proof -
  have ov: "ranges_overlap nr er \<longleftrightarrow> (\<exists>p. low nr \<le> p \<and> p \<le> high nr \<and> low er \<le> p \<and> p \<le> high er)"
    if "nr \<in> set (getPortRanges nid nc)" "er \<in> set (getPortRanges (project_id q) c)" for nr er
    using overlap_common [OF _ _ that] config_ok_max [OF assms(1)] config_ok_max [OF assms(4)] by blast
  have pair: "\<lparr>newRange = nr, existingRange = er\<rparr> \<in> set (getPortConflicts nid nc ps)"
    if "nr \<in> set (getPortRanges nid nc)" "er \<in> set (getPortRanges (project_id q) c)"
      "ranges_overlap nr er" for nr er
    using that assms(2,3,5) by (auto simp: getPortConflicts_set)
  have ovl: "ranges_overlap (newRange pc) (existingRange pc)"
    if "pc \<in> set (getPortConflicts nid nc ps)" for pc
    using that by (auto simp: getPortConflicts_set)
  have "?lhs \<longleftrightarrow> (\<exists>nr \<in> set (getPortRanges nid nc). \<exists>er \<in> set (getPortRanges (project_id q) c).
      range_name nr = a \<and> range_name er = b \<and> ranges_overlap nr er)"
    (is "_ \<longleftrightarrow> ?mid")
  proof
    assume ?lhs
    then show ?mid using ovl by blast
  next
    assume ?mid
    then obtain nr er where "nr \<in> set (getPortRanges nid nc)"
      "er \<in> set (getPortRanges (project_id q) c)" "range_name nr = a" "range_name er = b"
      "ranges_overlap nr er" by blast
    with pair [of nr er] show ?lhs
      by (intro bexI [of _ "\<lparr>newRange = nr, existingRange = er\<rparr>"]) auto
  qed
  also have "\<dots> \<longleftrightarrow> ?rhs"
  proof -
    have "?rhs \<longleftrightarrow> (\<exists>p. (\<exists>n. uses_port nc n a p) \<and> (\<exists>m. uses_port c m b p))" by blast
    then show ?thesis
      unfolding uses_port_iff [of nc a _ nid] uses_port_iff [of c b _ "project_id q"]
      using ov by blast
  qed
  finally show ?thesis .
qed

definition sample_layout :: layout_config where
  "sample_layout = \<lparr>layout_kind = Single_repo, submodules = None, submoduleInit = None\<rparr>"

definition sample_benches :: "int \<Rightarrow> benches_config" where
  "sample_benches n = \<lparr>max_benches = n, setup_command = None, setup_shell = None,
     enforceIssueDependencies = None\<rparr>"

definition sample_config :: "string \<Rightarrow> int jmap \<Rightarrow> int \<Rightarrow> roubo_config" where
  "sample_config name bases n =
     \<lparr>cfg_project = \<lparr>project_name = name, displayName = name, repo = None, github_project = None,
        jigSettings = None\<rparr>,
      cfg_layout = sample_layout, cfg_components = [],
      cfg_ports = map (\<lambda>(k, b). (k, \<lparr>base = b, https = None\<rparr>)) bases, cfg_tools = None,
      benches_cfg = sample_benches n, cfg_jigs = None, cfg_integration = None, cfg_users = None,
      cfg_marketplaces = None\<rparr>"

definition sample_project :: "string \<Rightarrow> roubo_config \<Rightarrow> registered_project" where
  "sample_project i c = \<lparr>project_id = i, repoPath = ''/repo'', config = Some c,
     configValid = True, configError = None, fieldErrors = None, settings = DEFAULT_PROJECT_SETTINGS\<rparr>"

lemma sample_config_ok [simp]: "config_ok (sample_config name bases n) \<longleftrightarrow> project_name_ok name
    \<and> jwf bases \<and> list_all (\<lambda>(k, b). 1 \<le> b \<and> b \<le> 65535) bases \<and> 1 \<le> n \<and> n \<le> 99"
  by (auto simp: config_ok_def sample_config_def sample_layout_def sample_benches_def
      benches_config_ok_def port_config_ok_def list_all_iff comp_def case_prod_unfold)

lemmas sample_defs = sample_layout_def sample_benches_def sample_config_def sample_project_def

theorem port_conflicts_exact_witness:
  "\<exists>n m p. uses_port (sample_config ''a'' [(''web'', 4000)] 3) n ''web'' p
         \<and> uses_port (sample_config ''b'' [(''api'', 4002)] 2) m ''api'' p"
proof -
  let ?nc = "sample_config ''a'' [(''web'', 4000)] 3"
  let ?c = "sample_config ''b'' [(''api'', 4002)] 2"
  let ?q = "sample_project ''b'' ?c"
  have ok: "config_ok ?nc" "?q \<in> set [?q]" "config ?q = Some ?c" "config_ok ?c" "project_id ?q \<noteq> ''a''"
    by (simp_all add: project_name_ok_def, simp_all add: sample_defs)
  have "\<exists>pc \<in> set (getPortConflicts ''a'' ?nc [?q]). newRange pc \<in> set (getPortRanges ''a'' ?nc)
      \<and> range_name (newRange pc) = ''web'' \<and> existingRange pc \<in> set (getPortRanges (project_id ?q) ?c)
      \<and> range_name (existingRange pc) = ''api''"
    by (simp add: sample_defs getPortRanges_def ranges_overlap_def)
  with port_conflicts_exact [OF ok, of "''web''" "''api''"] show ?thesis by blast
qed

text \<open>
  Within one project the check proves nothing: it never compares a project with itself, so
  for every pair of ports whose bases are closer than the number of benches there are two benches
  of the same project that are given one and the same port, with no conflict reported.
\<close>

theorem same_project_ports_collide:
  assumes "config_ok c" and "(a, pa) \<in> set (cfg_ports c)" and "(b, pb) \<in> set (cfg_ports c)"
    and "base pa < base pb" and "base pb - base pa < max_benches (benches_cfg c)"
  shows "(\<exists>n m p. n \<noteq> m \<and> uses_port c n a p \<and> uses_port c m b p)
    \<and> getPortConflicts i c [q\<lparr>project_id := i, config := Some c\<rparr>] = []"
proof -
  let ?n = "base pb - base pa + 1"
  have "uses_port c ?n a (base pb)" "uses_port c 1 b (base pb)"
    using assms config_ok_max [OF assms(1)] by (auto simp: uses_port_def set_allocatePorts)
  then have "\<exists>n m p. n \<noteq> m \<and> uses_port c n a p \<and> uses_port c m b p"
    using assms(4) by (intro exI [of _ ?n] exI [of _ 1] exI [of _ "base pb"]) auto
  then show ?thesis by simp
qed

theorem same_project_ports_collide_witness:
  "\<exists>n m p. n \<noteq> m \<and> uses_port (sample_config ''a'' [(''web'', 4000), (''api'', 4001)] 2) n ''web'' p
         \<and> uses_port (sample_config ''a'' [(''web'', 4000), (''api'', 4001)] 2) m ''api'' p"
  by (rule same_project_ports_collide [where pa = "\<lparr>base = 4000, https = None\<rparr>"
        and pb = "\<lparr>base = 4001, https = None\<rparr>", THEN conjunct1])
     (simp_all add: project_name_ok_def, simp_all add: sample_defs)

end
