(* ===== verification/StateStore.thy ===== *)
theory StateStore
  imports ProjectConfig
begin

section \<open>Benches and the state file\<close>

text \<open>
  The bench types of \<open>shared/types.ts\<close> and the state store of \<open>server/services/state.ts\<close>: the
  persisted benches and projects, their migrations on load, workspace paths, and the persisted
  projection of a bench. A state file is the value it parses to; reading and writing the file
  itself is outside the model, so an operation that loads, changes and saves is a function on that
  value. Parts of a bench that no modelled operation looks into (container assignments, the payloads
  of a notification, an issue's raw payload) are JSON values.
\<close>

subsection \<open>Bench data\<close>

datatype bench_status = Idle | Preparing | Active | Bench_error | Clearing

datatype component_state = Stopped | Starting | Running | Errored | Stopping | Completed

datatype step_status = Step_pending | Step_running | Step_done | Step_error | Step_cancelled

datatype phase_status = Phase_pending | Phase_running | Phase_done | Phase_error

record component_phase =
  phase_label :: string
  phase_status :: phase_status

record provisioning_step =
  pstep_id :: string
  pstep_label :: string
  pstep_status :: step_status
  pstep_error :: "string option"
  pstep_phases :: "component_phase list option"

record component_status =
  comp_name :: string
  comp_status :: component_state
  pid :: "int option"
  containerId :: "string option"
  comp_error :: "string option"
  statusDetail :: "string option"
  statusDetailStartedAt :: "string option"
  startedAt :: "string option"
  comp_phases :: "component_phase list option"
  comp_url :: "string option"
  setupComplete :: bool

record bench_notification =
  notif_id :: string
  notif_type :: string
  notif_priority :: string
  notif_session :: "string option"
  notif_metadata :: "json option"
  notif_createdAt :: string
  launchFailure :: "json option"
  unexpectedExit :: "json option"

record assigned_issue =
  issue_number :: "int option"
  integrationId :: "string option"
  externalId :: "string option"
  issue_title :: string
  blockedBy :: "string list option"
  issueType :: "json option"
  issue_raw :: "json option"
  externalUrl :: "string option"

record bench =
  bench_id :: int
  bench_project :: string
  branch :: string
  workspacePath :: string
  bench_status :: bench_status
  bench_ports :: "int jmap"
  bench_components :: "component_status jmap"
  createdAt :: string
  bench_error :: "string option"
  provisioningSteps :: "provisioning_step list"
  teardownSteps :: "provisioning_step list"
  assignedContainers :: "json jmap option"
  assignedIssue :: "assigned_issue option"
  notifications :: "bench_notification list"
  baseBranch :: "string option"
  baseCommit :: "string option"
  injectedJigId :: "string option"
  injectedJigSource :: "string option"
  variant :: "string option"
  focusedSpecPath :: "string option"
  benchSetupComplete :: "bool option"

text \<open>The two legacy keys an older build wrote are the last two fields.\<close>

record persisted_bench =
  pb_id :: int
  pb_project :: string
  pb_branch :: string
  pb_workspacePath :: string
  pb_ports :: "int jmap"
  pb_createdAt :: string
  pb_assignedContainers :: "json jmap option"
  pb_assignedIssue :: "assigned_issue option"
  pb_notifications :: "bench_notification list option"
  pb_baseBranch :: "string option"
  pb_baseCommit :: "string option"
  pb_injectedJigId :: "string option"
  pb_injectedJigSource :: "string option"
  pb_variant :: "string option"
  pb_focusedSpecPath :: "string option"
  componentSetupState :: "bool jmap option"
  componentUrls :: "string jmap option"
  pb_benchSetupComplete :: "bool option"
  injectedBlueprintId :: "json option"
  injectedBlueprintSource :: "json option"

record ledger_entry =
  owner_plugin :: string
  owner_bench :: int
  processIds :: "string list"
  composeProjects :: "string list"

record persisted_state =
  state_benches :: "persisted_bench list"
  resourceOwnership :: "ledger_entry list option"
  state_schemaVersion :: "int option"
  state_migration :: "json option"
  notices :: "string jmap option"

record project_entry =
  entry_id :: string
  entry_repoPath :: string
  entry_settings :: "project_settings option"

subsection \<open>Loading\<close>

definition migrateAssignedIssue :: "assigned_issue option \<Rightarrow> assigned_issue option" where
  "migrateAssignedIssue issue =
     (case issue of
        None \<Rightarrow> None
      | Some i \<Rightarrow>
          if truthy (integrationId i) \<and> truthy (externalId i) then Some i
          else Some (i\<lparr>integrationId := Some (coalesce (integrationId i) ''github-com''),
                       externalId := Some (coalesce (externalId i)
                         (case issue_number i of None \<Rightarrow> [] | Some n \<Rightarrow> int_str n))\<rparr>))"

fun json_string :: "json option \<Rightarrow> string option" where
  "json_string (Some (JStr s)) = Some s"
| "json_string _ = None"

definition first_defined :: "'a option \<Rightarrow> 'a option \<Rightarrow> 'a option" where
  "first_defined a b = (case a of Some v \<Rightarrow> Some v | None \<Rightarrow> b)"

definition migrateInjectedJigFields :: "persisted_bench \<Rightarrow> persisted_bench" where
  "migrateInjectedJigFields b =
     b\<lparr>pb_injectedJigId := first_defined (pb_injectedJigId b) (json_string (injectedBlueprintId b)),
       pb_injectedJigSource := first_defined (pb_injectedJigSource b) (json_string (injectedBlueprintSource b)),
       injectedBlueprintId := None, injectedBlueprintSource := None\<rparr>"

definition load_bench :: "persisted_bench \<Rightarrow> persisted_bench" where
  "load_bench b = migrateInjectedJigFields (b\<lparr>pb_assignedIssue := migrateAssignedIssue (pb_assignedIssue b)\<rparr>)"

text \<open>The file's value: \<open>None\<close> when there is no file.\<close>

definition loadState :: "persisted_state option \<Rightarrow> persisted_state" where
  "loadState file =
     (case file of
        None \<Rightarrow> \<lparr>state_benches = [], resourceOwnership = None, state_schemaVersion = None,
                  state_migration = None, notices = None\<rparr>
      | Some data \<Rightarrow> data\<lparr>state_benches := map load_bench (state_benches data)\<rparr>)"

subsection \<open>Projects and benches\<close>

definition addProject :: "project_entry \<Rightarrow> project_entry list \<Rightarrow> project_entry list" where
  "addProject entry ps = filter (\<lambda>a. entry_id a \<noteq> entry_id entry) ps @ [entry]"

definition removeProject :: "string \<Rightarrow> project_entry list \<Rightarrow> project_entry list" where
  "removeProject projectId ps = filter (\<lambda>a. entry_id a \<noteq> projectId) ps"

definition bench_key_of :: "persisted_bench \<Rightarrow> string \<times> int" where
  "bench_key_of b = (pb_project b, pb_id b)"

definition addBench :: "persisted_bench \<Rightarrow> persisted_state option \<Rightarrow> persisted_state option" where
  "addBench b file =
     (let data = loadState file in
      Some (data\<lparr>state_benches := filter (\<lambda>x. \<not> (pb_project x = pb_project b \<and> pb_id x = pb_id b))
                    (state_benches data) @ [b]\<rparr>))"

definition updateBench :: "persisted_bench \<Rightarrow> persisted_state option \<Rightarrow> persisted_state option" where
  "updateBench b file =
     (let data = loadState file; same = (\<lambda>x. pb_project x = pb_project b \<and> pb_id x = pb_id b) in
      if \<not> list_ex same (state_benches data) then file
      else Some (data\<lparr>state_benches := replace_first same b (state_benches data)\<rparr>))"

definition removeBench :: "string \<Rightarrow> int \<Rightarrow> persisted_state option \<Rightarrow> persisted_state option" where
  "removeBench projectId benchId file =
     (let data = loadState file in
      Some (data\<lparr>state_benches := filter (\<lambda>b. \<not> (pb_project b = projectId \<and> pb_id b = benchId))
                    (state_benches data)\<rparr>))"

definition getPersistedBenches :: "string option \<Rightarrow> persisted_state option \<Rightarrow> persisted_bench list" where
  "getPersistedBenches projectId file =
     (let data = loadState file in
      if truthy projectId then filter (\<lambda>b. Some (pb_project b) = projectId) (state_benches data)
      else state_benches data)"

subsection \<open>Workspace paths\<close>

abbreviation slash :: char where "slash \<equiv> CHR ''/''"

definition is_trim_char :: "char \<Rightarrow> bool" where
  "is_trim_char c = (c = CHR ''-'' \<or> c = CHR ''.'')"

definition sanitizeBranchForPath :: "string \<Rightarrow> string" where
  "sanitizeBranchForPath br =
     (let slashed = map (\<lambda>c. if c = slash then CHR ''-'' else c) br;
          cut = rev (dropWhile is_trim_char (rev (dropWhile is_trim_char slashed)))
      in if cut = [] then ''branch'' else cut)"

definition is_word_char :: "char \<Rightarrow> bool" where
  "is_word_char c = (let n = (of_char c :: nat) in
     (48 \<le> n \<and> n \<le> 57) \<or> (65 \<le> n \<and> n \<le> 90) \<or> (97 \<le> n \<and> n \<le> 122) \<or> n = 95)"

text \<open>\<open>PROJECT_ID_RE\<close> and \<open>SAFE_WORKSPACE_PATH_RE\<close> of \<open>server/lib/safe-path.ts\<close>.\<close>

definition project_id_ok :: "string \<Rightarrow> bool" where
  "project_id_ok s = (s \<noteq> [] \<and> s \<noteq> ''.'' \<and> s \<noteq> ''..''
     \<and> list_all (\<lambda>c. is_word_char c \<or> c = CHR ''.'' \<or> c = CHR ''-'') s)"

definition safe_workspace_path :: "string \<Rightarrow> bool" where
  "safe_workspace_path s = (starts_with [slash] s \<and> 2 \<le> length s
     \<and> list_all (\<lambda>c. is_word_char c \<or> c \<in> {CHR '' '', CHR ''.'', CHR ''-'', slash}) (tl s))"

definition workspace_dir :: "int \<Rightarrow> string option \<Rightarrow> string" where
  "workspace_dir benchNumber br =
     (if truthy br then ''bench-'' @ int_str benchNumber @ ''-'' @ sanitizeBranchForPath (the br)
      else ''bench-'' @ int_str benchNumber)"

text \<open>
  \<open>resolveWithin\<close> joins its segments under the root; both are single names that are neither empty
  nor dots, so the join is the concatenation. A null character is refused.
\<close>

definition getWorkspacePath :: "string \<Rightarrow> string \<Rightarrow> int \<Rightarrow> string option \<Rightarrow> string option" where
  "getWorkspacePath root projectName benchNumber br =
     (if \<not> project_id_ok projectName then None
      else if benchNumber < 0 then None
      else if CHR 0x00 \<in> set (workspace_dir benchNumber br) then None
      else Some (root @ ''/'' @ projectName @ ''/'' @ workspace_dir benchNumber br))"

subsection \<open>The persisted part of a bench\<close>

definition toComponentUrls :: "component_status jmap \<Rightarrow> string jmap option" where
  "toComponentUrls cs =
     (let urls = map (\<lambda>(name, c). (name, the (comp_url c))) (filter (\<lambda>(name, c). truthy (comp_url c)) cs)
      in if urls \<noteq> [] then Some urls else None)"

definition toPersistedBench :: "bench \<Rightarrow> persisted_bench" where
  "toPersistedBench b =
     \<lparr>pb_id = bench_id b, pb_project = bench_project b, pb_branch = branch b,
      pb_workspacePath = workspacePath b, pb_ports = bench_ports b, pb_createdAt = createdAt b,
      pb_assignedContainers = assignedContainers b, pb_assignedIssue = assignedIssue b,
      pb_notifications = Some (notifications b), pb_baseBranch = baseBranch b, pb_baseCommit = baseCommit b,
      pb_injectedJigId = injectedJigId b, pb_injectedJigSource = injectedJigSource b,
      pb_variant = variant b, pb_focusedSpecPath = focusedSpecPath b,
      componentSetupState = Some (map (\<lambda>(name, c). (name, setupComplete c)) (bench_components b)),
      componentUrls = toComponentUrls (bench_components b),
      pb_benchSetupComplete = benchSetupComplete b,
      injectedBlueprintId = None, injectedBlueprintSource = None\<rparr>"

subsection \<open>The stores\<close>

lemma migrateAssignedIssue_idem [simp]:
  "migrateAssignedIssue (migrateAssignedIssue i) = migrateAssignedIssue i"
  by (cases i) (auto simp: migrateAssignedIssue_def)

lemma load_bench_idem [simp]: "load_bench (load_bench b) = load_bench b"
  by (simp add: load_bench_def migrateInjectedJigFields_def first_defined_def split: option.split)

lemma bench_key_load [simp]: "bench_key_of (load_bench b) = bench_key_of b"
  by (simp add: load_bench_def migrateInjectedJigFields_def bench_key_of_def)

lemma loadState_Some [simp]: "loadState (Some d) = d\<lparr>state_benches := map load_bench (state_benches d)\<rparr>"
  by (simp add: loadState_def)

definition state_get :: "persisted_state option \<Rightarrow> string \<times> int \<Rightarrow> persisted_bench option" where
  "state_get file k = find_key bench_key_of k (state_benches (loadState file))"

lemma state_benches_loaded [simp]:
  "map load_bench (state_benches (loadState file)) = state_benches (loadState file)"
  by (cases "file") (simp_all add: loadState_def)

lemma map_load_filter:
  "map load_bench (filter (\<lambda>x. bench_key_of x \<noteq> k) (state_benches (loadState file)))
     = filter (\<lambda>x. bench_key_of x \<noteq> k) (state_benches (loadState file))"
proof -
  have "map load_bench (filter (\<lambda>x. bench_key_of x \<noteq> k) (map load_bench bs))
      = filter (\<lambda>x. bench_key_of x \<noteq> k) (map load_bench bs)" for bs
    by (induction bs) auto
  from this [of "state_benches (loadState file)"] show ?thesis by simp
qed

lemma addBench_eq: "addBench b s = Some ((loadState s)\<lparr>state_benches :=
    filter (\<lambda>x. bench_key_of x \<noteq> bench_key_of b) (state_benches (loadState s)) @ [b]\<rparr>)"
  by (simp add: addBench_def Let_def bench_key_of_def)

lemma removeBench_eq: "removeBench (fst k) (snd k) s = Some ((loadState s)\<lparr>state_benches :=
    filter (\<lambda>x. bench_key_of x \<noteq> k) (state_benches (loadState s))\<rparr>)"
  by (cases k) (simp add: removeBench_def Let_def bench_key_of_def)

lemma updateBench_eq: "updateBench b s =
    (if \<not> list_ex (\<lambda>x. bench_key_of x = bench_key_of b) (state_benches (loadState s)) then s
     else Some ((loadState s)\<lparr>state_benches :=
       replace_first (\<lambda>x. bench_key_of x = bench_key_of b) b (state_benches (loadState s))\<rparr>))"
  by (simp add: updateBench_def Let_def bench_key_of_def)

lemma map_load_replace:
  "find_key bench_key_of k (map load_bench (replace_first (\<lambda>x. bench_key_of x = bench_key_of b) b bs))
    = map_option load_bench (find_key bench_key_of k (replace_first (\<lambda>x. bench_key_of x = bench_key_of b) b bs))"
  by (rule find_key_map) simp

interpretation projects: record_store entry_id id "\<lambda>ps k. find_key entry_id k ps" addProject removeProject
  by unfold_locales
     (auto simp: addProject_def removeProject_def find_key_append find_key_filter split: option.split)

lemma state_get_add: "state_get (addBench b s) k = (if k = bench_key_of b then Some (load_bench b) else state_get s k)"
  by (simp add: state_get_def addBench_eq map_load_filter find_key_append find_key_filter split: option.split)

lemma state_get_remove: "state_get (removeBench (fst k) (snd k) s) k' = (if k' = k then None else state_get s k')"
  by (simp add: state_get_def removeBench_eq map_load_filter find_key_filter)

lemma load_bench_loaded: "v \<in> set (state_benches (loadState s)) \<Longrightarrow> load_bench v = v"
  using state_benches_loaded [of s] by (metis load_bench_idem imageE set_map)

lemma state_get_update:
  "state_get (updateBench b s) k =
     (if k = bench_key_of b \<and> state_get s k \<noteq> None then Some (load_bench b) else state_get s k)"
proof (cases "list_ex (\<lambda>x. bench_key_of x = bench_key_of b) (state_benches (loadState s))")
  case False
  then have "updateBench b s = s" by (simp add: updateBench_eq)
  moreover have "state_get s (bench_key_of b) = None"
    using False by (auto simp: state_get_def find_key_None list_ex_iff)
  ultimately show ?thesis by auto
next
  case True
  have loaded: "map_option load_bench (find_key bench_key_of k (state_benches (loadState s)))
      = find_key bench_key_of k (state_benches (loadState s))"
    by (cases "find_key bench_key_of k (state_benches (loadState s))")
       (auto dest!: find_key_Some simp: load_bench_loaded)
  have "state_get (updateBench b s) k = map_option load_bench
      (find_key bench_key_of k (replace_first (\<lambda>x. bench_key_of x = bench_key_of b) b (state_benches (loadState s))))"
    using True by (simp add: state_get_def updateBench_eq map_load_replace)
  also have "\<dots> = (if k = bench_key_of b \<and> state_get s k \<noteq> None then Some (load_bench b) else state_get s k)"
    unfolding find_key_replace state_get_def using loaded by (auto split: if_splits)
  finally show ?thesis .
qed

interpretation state_store: updatable_store bench_key_of load_bench state_get addBench
    "\<lambda>k. removeBench (fst k) (snd k)" updateBench
  by unfold_locales (simp_all only: state_get_add state_get_remove state_get_update)

subsection \<open>Workspace paths are distinct and safe\<close>

lemma nat_str_no_dash: "CHR ''-'' \<notin> set (nat_str n)"
  using nat_str_digits by fastforce

lemma nat_str_word: "c \<in> set (nat_str n) \<Longrightarrow> is_word_char c"
  using nat_str_digits by (fastforce simp: is_word_char_def Let_def)

lemma takeWhile_dash: "takeWhile (\<lambda>c. c \<noteq> CHR ''-'') (nat_str n @ r) = nat_str n @ takeWhile (\<lambda>c. c \<noteq> CHR ''-'') r"
  using nat_str_no_dash by (intro takeWhile_append2) auto

lemma workspace_dir_number:
  assumes "0 \<le> n" and "0 \<le> m" and "workspace_dir n a = workspace_dir m b"
  shows "n = m"
proof -
  have t: "takeWhile (\<lambda>c. c \<noteq> CHR ''-'') (drop 6 (workspace_dir k x)) = nat_str (nat k)" if "0 \<le> k" for k x
    using that by (simp add: workspace_dir_def int_str_def takeWhile_dash) (simp add: takeWhile_dash [of _ "[]", simplified])
  have "nat_str (nat n) = nat_str (nat m)" using t [OF assms(1), of a] t [OF assms(2), of b] assms(3) by simp
  then have "nat n = nat m" by (rule nat_str_inj)
  with assms(1,2) show ?thesis by simp
qed

definition branch_name_ok :: "string \<Rightarrow> bool" where
  "branch_name_ok s = list_all (\<lambda>c. is_word_char c \<or> c = slash \<or> c = CHR ''.'' \<or> c = CHR ''-'') s"

definition path_char :: "char \<Rightarrow> bool" where
  "path_char c = (is_word_char c \<or> c \<in> {CHR '' '', CHR ''.'', CHR ''-'', slash})"

lemma safe_workspace_path_eq: "safe_workspace_path s \<longleftrightarrow> (\<exists>t. s = slash # t \<and> t \<noteq> [] \<and> list_all path_char t)"
  unfolding safe_workspace_path_def path_char_def [abs_def]
  by (cases s) (auto simp: starts_with_def Suc_le_eq)

lemma sanitize_chars: "branch_name_ok br \<Longrightarrow> list_all path_char (sanitizeBranchForPath br)"
proof -
  assume "branch_name_ok br"
  then have all: "\<forall>c \<in> set (map (\<lambda>c. if c = slash then CHR ''-'' else c) br). path_char c"
    by (auto simp: branch_name_ok_def path_char_def list_all_iff)
  have "set (rev (dropWhile is_trim_char (rev (dropWhile is_trim_char w)))) \<subseteq> set w" for w
    by (metis set_dropWhileD set_rev subsetI)
  with all have "list_all path_char (rev (dropWhile is_trim_char (rev (dropWhile is_trim_char
      (map (\<lambda>c. if c = slash then CHR ''-'' else c) br)))))"
    unfolding list_all_iff by blast
  then show ?thesis
    by (auto simp: sanitizeBranchForPath_def Let_def path_char_def is_word_char_def)
qed

lemma project_id_chars: "project_id_ok s \<Longrightarrow> list_all path_char s"
  by (auto simp: project_id_ok_def path_char_def list_all_iff)

lemma workspace_dir_chars:
  assumes "0 \<le> n" and "\<forall>b. br = Some b \<longrightarrow> branch_name_ok b"
  shows "list_all path_char (workspace_dir n br)"
proof -
  have "list_all path_char (int_str n)"
    using assms(1) nat_str_word by (auto simp: int_str_def list_all_iff path_char_def)
  moreover have "list_all path_char ''bench-''" by (simp add: path_char_def is_word_char_def)
  moreover have "list_all path_char (sanitizeBranchForPath (the br))" if "truthy br"
    using that assms(2) by (cases br) (simp_all add: sanitize_chars)
  ultimately show ?thesis
    by (simp add: workspace_dir_def path_char_def)
qed

lemma getWorkspacePath_safe:
  assumes "safe_workspace_path root" and "0 \<le> n" and "\<forall>b. br = Some b \<longrightarrow> branch_name_ok b"
    and "getWorkspacePath root p n br = Some w"
  shows "safe_workspace_path w"
proof -
  obtain t where t: "root = slash # t" "t \<noteq> []" "list_all path_char t"
    using assms(1) unfolding safe_workspace_path_eq by blast
  have w: "w = root @ ''/'' @ p @ ''/'' @ workspace_dir n br" and p: "project_id_ok p"
    using assms(4) by (auto simp: getWorkspacePath_def split: if_splits)
  have "list_all path_char (t @ ''/'' @ p @ ''/'' @ workspace_dir n br)"
    using t(3) project_id_chars [OF p] workspace_dir_chars [OF assms(2,3)]
    by (simp add: path_char_def)
  with t w show ?thesis unfolding safe_workspace_path_eq by simp
qed

lemma getWorkspacePath_distinct:
  assumes "getWorkspacePath root p n a = Some w" and "getWorkspacePath root p m b = Some w"
  shows "n = m"
  using assms by (intro workspace_dir_number [of n m a b]) (auto simp: getWorkspacePath_def split: if_splits)

subsection \<open>Properties\<close>

text \<open>One mutation of the state file.\<close>

datatype state_op = Add_op persisted_bench | Update_op persisted_bench | Remove_op string int

fun run_state_op :: "state_op \<Rightarrow> persisted_state option \<Rightarrow> persisted_state option" where
  "run_state_op (Add_op b) s = addBench b s"
| "run_state_op (Update_op b) s = updateBench b s"
| "run_state_op (Remove_op p i) s = removeBench p i s"

definition adds_key :: "string \<times> int \<Rightarrow> state_op \<Rightarrow> bool" where
  "adds_key k op = (case op of Add_op b \<Rightarrow> bench_key_of b = k | _ \<Rightarrow> False)"

lemma run_state_absent:
  "state_get s k = None \<Longrightarrow> list_all (\<lambda>op. \<not> adds_key k op) os \<Longrightarrow> state_get (fold run_state_op os s) k = None"
proof (induction os arbitrary: s)
  case (Cons op os)
  have "state_get (run_state_op op s) k = None"
    using Cons.prems state_store.get_remove [of "(p, i)" s k for p i]
    by (cases op) (auto simp: state_store.get_add state_store.get_update adds_key_def)
  with Cons show ?case by simp
qed simp

definition sample_persisted :: "string \<Rightarrow> int \<Rightarrow> persisted_bench" where
  "sample_persisted p i = \<lparr>pb_id = i, pb_project = p, pb_branch = ''main'', pb_workspacePath = ''/w'',
     pb_ports = [], pb_createdAt = ''t'', pb_assignedContainers = None, pb_assignedIssue = None,
     pb_notifications = None, pb_baseBranch = None, pb_baseCommit = None, pb_injectedJigId = None,
     pb_injectedJigSource = None, pb_variant = None, pb_focusedSpecPath = None, componentSetupState = None,
     componentUrls = None, pb_benchSetupComplete = None, injectedBlueprintId = None,
     injectedBlueprintSource = None\<rparr>"

text \<open>
  C36. A bench removed from the state file is never brought back by a background writer: whatever
  updates, removals and additions of other benches follow the removal, the record stays absent
  until a bench with that project and number is added again.
\<close>

theorem removed_bench_stays_removed:
  assumes "list_all (\<lambda>op. \<not> adds_key (p, i) op) os"
  shows "state_get (fold run_state_op os (removeBench p i s)) (p, i) = None"
  using assms state_store.get_remove [of "(p, i)" s "(p, i)"] by (intro run_state_absent) simp_all

theorem removed_bench_stays_removed_witness:
  "state_get (fold run_state_op [Update_op (sample_persisted ''a'' 1), Add_op (sample_persisted ''a'' 2)]
     (removeBench ''a'' 1 (addBench (sample_persisted ''a'' 1) None))) (''a'', 1) = None"
  by (rule removed_bench_stays_removed) (simp add: adds_key_def bench_key_of_def sample_persisted_def)

text \<open>
  Under a safe root, a project's benches get workspace paths that the load-time allowlist
  accepts, whatever branch the route admits, and two benches with different numbers never get the
  same path.
\<close>

theorem workspace_paths_safe_and_distinct:
  assumes "safe_workspace_path root" and "\<forall>b. br = Some b \<longrightarrow> branch_name_ok b"
    and "getWorkspacePath root p n br = Some w"
  shows "safe_workspace_path w \<and> (\<forall>m br'. getWorkspacePath root p m br' = Some w \<longrightarrow> m = n)"
proof -
  have "0 \<le> n" using assms(3) by (auto simp: getWorkspacePath_def split: if_splits)
  then show ?thesis
    using getWorkspacePath_safe [OF assms(1) _ assms(2,3)] getWorkspacePath_distinct assms(3) by blast
qed

theorem workspace_paths_safe_and_distinct_witness:
  "safe_workspace_path ''/home/u/ws/app/bench-1-fix-a''"
proof -
  have "getWorkspacePath ''/home/u/ws'' ''app'' 1 (Some ''fix/a.'') = Some ''/home/u/ws/app/bench-1-fix-a''"
    by (simp add: getWorkspacePath_def project_id_ok_def is_word_char_def workspace_dir_def int_str_def
        nat_str.simps digit_char_def sanitizeBranchForPath_def is_trim_char_def char_of_def bit_Suc bit_0)
  from workspace_paths_safe_and_distinct [OF _ _ this] show ?thesis
    by (simp add: safe_workspace_path_def starts_with_def is_word_char_def branch_name_ok_def)
qed

end
