(* ===== verification/BenchManager.thy ===== *)
theory BenchManager
  imports BenchOrder Ports StateStore
begin

section \<open>The bench manager\<close>

text \<open>
  \<open>server/services/bench-manager.ts\<close>: the map of live benches, the synchronous reservation of a
  bench by \<open>createBench\<close>, hydration of persisted benches by \<open>initialize\<close>, the provisioning and
  teardown step lists and the status of a bench from its components. The map of benches and the
  set of projects being unregistered are the state. Parameters stand for what the code reads
  outside it: the registry of projects, the resolution of a focused spec path against the file
  system, the clock, the workspaces root and the URL parser of the platform.
\<close>

type_synonym bench_map = "bench jmap"

definition benchKey :: "string \<Rightarrow> int \<Rightarrow> string" where
  "benchKey projectId benchId = projectId @ '':'' @ int_str benchId"

definition processId :: "string \<Rightarrow> int \<Rightarrow> string \<Rightarrow> string" where
  "processId projectId benchId component = projectId @ ''-bench-'' @ int_str benchId @ ''-'' @ component"

datatype bench_error_code =
    PROJECT_NOT_FOUND | INVALID_FOCUS | NO_BENCHES | GLOBAL_CAP_REACHED | UNSAFE_PATH | INVALID_COMPONENT
  | NOT_FOUND | INVALID_STATE | COMPONENT_NOT_FOUND | DEPENDENCY_CYCLE | CONTAINER_NOT_FOUND | NO_PORT
  | NOT_ASSIGNED | NOT_TESTBENCH

record bench_failure =
  fail_code :: bench_error_code
  fail_message :: string

abbreviation fail :: "bench_error_code \<Rightarrow> string \<Rightarrow> bench_failure + 'a" where
  "fail c m \<equiv> Inl \<lparr>fail_code = c, fail_message = m\<rparr>"

definition PROTOTYPE_POLLUTING_KEYS :: "string list" where
  "PROTOTYPE_POLLUTING_KEYS = [''__proto__'', ''constructor'', ''prototype'']"

subsection \<open>Limits and lookups\<close>

text \<open>\<open>settings.json\<close>: unreadable, or the \<open>benches.maxGlobal\<close> value it holds.\<close>

datatype settings_read = Settings_corrupt | Settings_max "json option"

fun readGlobalBenchCap :: "settings_read \<Rightarrow> int option" where
  "readGlobalBenchCap (Settings_max (Some (JNum n))) = (if n \<ge> 1 then Some n else None)"
| "readGlobalBenchCap _ = None"

definition used_ids :: "bench_map \<Rightarrow> string \<Rightarrow> int list" where
  "used_ids bm projectId = map bench_id (filter (\<lambda>b. bench_project b = projectId) (jvals bm))"

definition findNextBenchNumber :: "bench_map \<Rightarrow> string \<Rightarrow> int \<Rightarrow> int option" where
  "findNextBenchNumber bm projectId maxBenches =
     find (\<lambda>i. i \<notin> set (used_ids bm projectId)) [1..maxBenches]"

definition isBenchLive :: "bench_map \<Rightarrow> string \<Rightarrow> int \<Rightarrow> bool" where
  "isBenchLive bm projectId benchId = jhas bm (benchKey projectId benchId)"

definition getBench :: "bench_map \<Rightarrow> string \<Rightarrow> int \<Rightarrow> bench option" where
  "getBench bm projectId benchId = map_of bm (benchKey projectId benchId)"

definition getBenches :: "bench_map \<Rightarrow> string option \<Rightarrow> bench list" where
  "getBenches bm projectId =
     (if truthy projectId then filter (\<lambda>b. Some (bench_project b) = projectId) (jvals bm) else jvals bm)"

definition getLiveBenchIds :: "bench_map \<Rightarrow> string \<Rightarrow> int list" where
  "getLiveBenchIds bm projectId = used_ids bm projectId"

definition dropProjectBenches :: "string \<Rightarrow> bench_map \<Rightarrow> nat \<times> bench_map" where
  "dropProjectBenches projectId bm =
     (length (filter (\<lambda>(k, b). bench_project b = projectId) bm),
      filter (\<lambda>(k, b). bench_project b \<noteq> projectId) bm)"

definition isBenchOperable :: "bench \<Rightarrow> bool" where
  "isBenchOperable b = (workspacePath b \<noteq> [])"

subsection \<open>Steps\<close>

definition componentHasSetup :: "component_config option \<Rightarrow> bool" where
  "componentHasSetup c =
     (case c of None \<Rightarrow> False
      | Some cc \<Rightarrow>
          (let declared = Option.bind (config_block cc) (\<lambda>m. map_of m ''setup'');
               legacy = map_option JStr (legacy_setup cc);
               s = (case declared of None \<Rightarrow> legacy | Some JNull \<Rightarrow> legacy | Some j \<Rightarrow> Some j)
           in case s of Some (JStr t) \<Rightarrow> trim t \<noteq> [] | _ \<Rightarrow> False))"

definition COMPONENT_STEP_PREFIX :: string where
  "COMPONENT_STEP_PREFIX = ''component:''"

definition RESOLVE_DEFAULT_BRANCH_PHASE :: string where
  "RESOLVE_DEFAULT_BRANCH_PHASE = ''Resolving default branch''"

definition pending_step :: "string \<Rightarrow> string \<Rightarrow> provisioning_step" where
  "pending_step i l = \<lparr>pstep_id = i, pstep_label = l, pstep_status = Step_pending, pstep_error = None,
     pstep_phases = None\<rparr>"

definition makeComponentOnlyProvisioningSteps :: "string list \<Rightarrow> provisioning_step list" where
  "makeComponentOnlyProvisioningSteps ord =
     map (\<lambda>n. pending_step (COMPONENT_STEP_PREFIX @ n) (''Starting '' @ n)) ord"

definition makeStartProvisioningSteps :: "roubo_config \<Rightarrow> string list \<Rightarrow> bool \<Rightarrow> provisioning_step list" where
  "makeStartProvisioningSteps c ord setupDone =
     (if truthy (setup_command (benches_cfg c)) \<and> \<not> setupDone
      then [pending_step ''bench-setup'' ''Running bench setup''] else [])
     @ makeComponentOnlyProvisioningSteps ord"

definition hasStep :: "provisioning_step list \<Rightarrow> string \<Rightarrow> bool" where
  "hasStep ss i = list_ex (\<lambda>s. pstep_id s = i) ss"

definition makeWorktreeProvisioningSteps :: "bool \<Rightarrow> bool \<Rightarrow> provisioning_step list" where
  "makeWorktreeProvisioningSteps isMetaRepo fromDefault =
     (let phases =
        (if fromDefault then [\<lparr>phase_label = RESOLVE_DEFAULT_BRANCH_PHASE, phase_status = Phase_pending\<rparr>] else [])
        @ (if isMetaRepo then [\<lparr>phase_label = ''Initializing submodules'', phase_status = Phase_pending\<rparr>] else [])
      in [(pending_step ''workspace'' ''Creating workspace'')
            \<lparr>pstep_phases := (if phases \<noteq> [] then Some phases else None)\<rparr>])"

fun updateStep :: "provisioning_step list \<Rightarrow> string \<Rightarrow> step_status \<Rightarrow> string option \<Rightarrow> provisioning_step list" where
  "updateStep [] i st err = []"
| "updateStep (s # ss) i st err =
     (if pstep_id s = i
      then (case err of None \<Rightarrow> s\<lparr>pstep_status := st\<rparr>
            | Some e \<Rightarrow> s\<lparr>pstep_status := st, pstep_error := Some e\<rparr>) # ss
      else s # updateStep ss i st err)"

definition makeTeardownSteps :: "component_config jmap \<Rightarrow> bool \<Rightarrow> bool \<Rightarrow> provisioning_step list" where
  "makeTeardownSteps cs hasDocker removeWorkspace =
     [pending_step ''terminals'' ''Closing terminals'']
     @ (if cs \<noteq> [] then [pending_step ''stop-components'' ''Stopping components''] else [])
     @ (if hasDocker then [pending_step ''docker-down'' ''Stopping containers''] else [])
     @ [pending_step ''save-permissions'' ''Saving permissions'']
     @ (if removeWorkspace then [pending_step ''remove-workspace'' ''Removing workspace''] else [])
     @ [pending_step ''cleanup'' ''Cleaning up'']"

subsection \<open>Bench status\<close>

definition updateBenchStatus :: "bench \<Rightarrow> bench" where
  "updateBenchStatus b =
     (if bench_status b = Preparing \<or> bench_status b = Clearing then b
      else
        (let statuses = map comp_status (jvals (bench_components b)) in
         if Errored \<in> set statuses then b\<lparr>bench_status := Bench_error\<rparr>
         else if list_all (\<lambda>s. s = Running) statuses then b\<lparr>bench_status := Active\<rparr>
         else b\<lparr>bench_status := Idle\<rparr>))"

fun mark_running_step :: "string \<Rightarrow> provisioning_step list \<Rightarrow> provisioning_step list" where
  "mark_running_step m [] = []"
| "mark_running_step m (s # ss) =
     (if pstep_status s = Step_running then s\<lparr>pstep_status := Step_error, pstep_error := Some m\<rparr> # ss
      else s # mark_running_step m ss)"

definition markBackgroundError :: "string \<Rightarrow> bench \<Rightarrow> bench" where
  "markBackgroundError message b =
     b\<lparr>bench_status := Bench_error, bench_error := Some message,
       provisioningSteps := mark_running_step message (provisioningSteps b)\<rparr>"

subsection \<open>Reserving a bench\<close>

record create_options =
  opt_variant :: "string option"
  opt_focusedSpecPath :: "string option"

record manager_env =
  projects_of :: "string \<Rightarrow> registered_project option"
  unregisteringProjects :: "string list"
  settings_of :: settings_read
  resolveFocusedSpec :: "string \<Rightarrow> string \<Rightarrow> string + string"
  now_string :: string
  workspaces_root :: string

definition initial_components :: "roubo_config \<Rightarrow> component_status jmap" where
  "initial_components c =
     map (\<lambda>(name, cc). (name, \<lparr>comp_name = name, comp_status = Stopped, pid = None, containerId = None,
        comp_error = None, statusDetail = None, statusDetailStartedAt = None, startedAt = None,
        comp_phases = None, comp_url = None, setupComplete = \<not> componentHasSetup (Some cc)\<rparr>)) (cfg_components c)"

definition focus_of :: "manager_env \<Rightarrow> registered_project \<Rightarrow> create_options \<Rightarrow> bench_failure + string option" where
  "focus_of env project opts =
     (if opt_variant opts = Some ''testbench'' then
        (case opt_focusedSpecPath opts of
           None \<Rightarrow> fail INVALID_FOCUS ''focusedSpecPath is required for a testbench variant''
         | Some p \<Rightarrow>
             (case resolveFocusedSpec env (repoPath project) p of
                Inl why \<Rightarrow> fail INVALID_FOCUS (''Invalid focusedSpecPath: '' @ why)
              | Inr r \<Rightarrow> Inr (Some r)))
      else Inr None)"

definition place ::
    "manager_env \<Rightarrow> bench_map \<Rightarrow> string \<Rightarrow> string option \<Rightarrow> create_options \<Rightarrow> registered_project
      \<Rightarrow> roubo_config \<Rightarrow> string option \<Rightarrow> int \<Rightarrow> bench_failure + bench \<times> bench_map" where
  "place env bm projectId br opts project c focus n =
            (case getWorkspacePath (workspaces_root env) (project_name (cfg_project c)) n br of
               None \<Rightarrow> fail UNSAFE_PATH ''Invalid workspace path''
             | Some path \<Rightarrow>
                 (let b = \<lparr>bench_id = n, bench_project = projectId,
                       branch = coalesce br (''bench-'' @ int_str n), workspacePath = path,
                       bench_status = Preparing, bench_ports = allocatePorts c n,
                       bench_components = initial_components c, createdAt = now_string env,
                       bench_error = None,
                       provisioningSteps = makeWorktreeProvisioningSteps
                         (layout_kind (cfg_layout c) = Meta_repo \<and> submodules (cfg_layout c) \<noteq> None)
                         (branchFromDefault (settings project)),
                       teardownSteps = [], assignedContainers = None, assignedIssue = None,
                       notifications = [], baseBranch = None, baseCommit = None, injectedJigId = None,
                       injectedJigSource = None, variant = opt_variant opts, focusedSpecPath = focus,
                       benchSetupComplete = Some False\<rparr>
                  in Inr (b, jput (benchKey projectId n) b bm)))"

definition reserve ::
    "manager_env \<Rightarrow> bench_map \<Rightarrow> string \<Rightarrow> string option \<Rightarrow> create_options \<Rightarrow> registered_project
      \<Rightarrow> roubo_config \<Rightarrow> string option \<Rightarrow> bench_failure + bench \<times> bench_map" where
  "reserve env bm projectId br opts project c focus =
     (case findNextBenchNumber bm projectId (max_benches (benches_cfg c)) of
        None \<Rightarrow> fail NO_BENCHES (''No available benches for '' @ quoted projectId @ '' (max: ''
                 @ int_str (max_benches (benches_cfg c)) @ '')'')
      | Some n \<Rightarrow>
          (case readGlobalBenchCap (settings_of env) of
             Some m \<Rightarrow> if int (length bm) \<ge> m
               then fail GLOBAL_CAP_REACHED (''Global bench limit reached: '' @ nat_str (length bm) @ '' of ''
                      @ int_str m @ '' benches in use.'')
               else place env bm projectId br opts project c focus n
           | None \<Rightarrow> place env bm projectId br opts project c focus n))"

definition createBench ::
    "manager_env \<Rightarrow> bench_map \<Rightarrow> string \<Rightarrow> string option \<Rightarrow> create_options
      \<Rightarrow> bench_failure + bench \<times> bench_map" where
  "createBench env bm projectId br opts =
     (case projects_of env projectId of
        None \<Rightarrow> fail PROJECT_NOT_FOUND (''Project '' @ quoted projectId @ '' not found or has invalid config'')
      | Some project \<Rightarrow>
          (case (configValid project, config project) of
             (True, Some c) \<Rightarrow>
               if projectId \<in> set (unregisteringProjects env)
               then fail PROJECT_NOT_FOUND (''Project '' @ quoted projectId @ '' is being unregistered'')
               else (case focus_of env project opts of
                       Inl e \<Rightarrow> Inl e
                     | Inr focus \<Rightarrow> reserve env bm projectId br opts project c focus)
           | _ \<Rightarrow> fail PROJECT_NOT_FOUND (''Project '' @ quoted projectId @ '' not found or has invalid config'')))"

subsection \<open>Hydration\<close>

text \<open>
  What the platform's URL parser answers for a string: nothing, or the protocol and the normalised
  address.
\<close>

type_synonym url_parser = "string \<Rightarrow> (string \<times> string) option"

definition shell_unsafe_url_char :: "char \<Rightarrow> bool" where
  "shell_unsafe_url_char c = (is_ws c \<or> c \<in> set '';&|`$(){}<>'' \<or> c = backslash \<or> c = squote \<or> c = dquote)"

definition normalizeReportedUrl :: "url_parser \<Rightarrow> string option \<Rightarrow> string option" where
  "normalizeReportedUrl parse v =
     (case v of
        None \<Rightarrow> None
      | Some s \<Rightarrow>
          if s = [] \<or> list_ex shell_unsafe_url_char s then None
          else (case parse s of
                  None \<Rightarrow> None
                | Some (protocol, href) \<Rightarrow>
                    if protocol \<noteq> ''http:'' \<and> protocol \<noteq> ''https:'' then None
                    else if list_ex shell_unsafe_url_char href then None
                    else Some href))"

definition hydrate_component ::
    "url_parser \<Rightarrow> persisted_bench \<Rightarrow> string \<Rightarrow> component_config \<Rightarrow> component_status" where
  "hydrate_component parse ps name cc =
     \<lparr>comp_name = name, comp_status = Stopped, pid = None, containerId = None, comp_error = None,
      statusDetail = None, statusDetailStartedAt = None, startedAt = None, comp_phases = None,
      comp_url = normalizeReportedUrl parse (Option.bind (componentUrls ps) (\<lambda>m. map_of m name)),
      setupComplete =
        (case componentSetupState ps of
           None \<Rightarrow> True
         | Some m \<Rightarrow> (case map_of m name of Some flag \<Rightarrow> flag | None \<Rightarrow> \<not> componentHasSetup (Some cc)))\<rparr>"

definition hydrate_bench :: "url_parser \<Rightarrow> registered_project option \<Rightarrow> persisted_bench \<Rightarrow> bench" where
  "hydrate_bench parse project ps =
     (let safe = safe_workspace_path (pb_workspacePath ps) in
      \<lparr>bench_id = pb_id ps, bench_project = pb_project ps, branch = pb_branch ps,
       workspacePath = (if safe then pb_workspacePath ps else []),
       bench_status = (if safe then Idle else Bench_error), bench_ports = pb_ports ps,
       bench_components =
         (case Option.bind project config of
            None \<Rightarrow> []
          | Some c \<Rightarrow> map (\<lambda>(name, cc). (name, hydrate_component parse ps name cc)) (cfg_components c)),
       createdAt = pb_createdAt ps,
       bench_error = (if safe then None else
         Some ''Persisted workspace path failed the safe-path allowlist; clear this bench to remove it.''),
       provisioningSteps = [], teardownSteps = [],
       assignedContainers = pb_assignedContainers ps, assignedIssue = pb_assignedIssue ps,
       notifications = filter (\<lambda>n. notif_type n \<noteq> ''inspection-complete'') (coalesce (pb_notifications ps) []),
       baseBranch = pb_baseBranch ps, baseCommit = pb_baseCommit ps, injectedJigId = pb_injectedJigId ps,
       injectedJigSource = pb_injectedJigSource ps, variant = pb_variant ps,
       focusedSpecPath = pb_focusedSpecPath ps,
       benchSetupComplete = Some (coalesce (pb_benchSetupComplete ps) True)\<rparr>)"

definition initialize ::
    "url_parser \<Rightarrow> (string \<Rightarrow> registered_project option) \<Rightarrow> persisted_state option \<Rightarrow> bench_map \<Rightarrow> bench_map" where
  "initialize parse projects file bm =
     fold (\<lambda>ps. jput (benchKey (pb_project ps) (pb_id ps)) (hydrate_bench parse (projects (pb_project ps)) ps))
       (state_benches (loadState file)) bm"

subsection \<open>Keys\<close>

lemma nat_str_no_colon: "CHR '':'' \<notin> set (nat_str n)"
  using nat_str_digits [of "CHR '':''" n] by auto

lemma int_str_no_colon: "CHR '':'' \<notin> set (int_str i)"
  using nat_str_no_colon by (auto simp: int_str_def)

lemma int_str_inj: "int_str a = int_str b \<Longrightarrow> a = b"
proof -
  assume e: "int_str a = int_str b"
  have neg: "CHR ''-'' # nat_str m \<noteq> nat_str n" for m n
    using nat_str_no_dash [of n] by (metis list.set_intros(1))
  show "a = b"
  proof (cases "a < 0"; cases "b < 0")
    assume "a < 0" "b < 0"
    with e have "nat (- a) = nat (- b)" by (auto simp: int_str_def dest: nat_str_inj)
    with \<open>a < 0\<close> \<open>b < 0\<close> show ?thesis by simp
  next
    assume "\<not> a < 0" "\<not> b < 0"
    with e have "nat a = nat b" by (auto simp: int_str_def dest: nat_str_inj)
    with \<open>\<not> a < 0\<close> \<open>\<not> b < 0\<close> show ?thesis by simp
  qed (use e neg neg [symmetric] in \<open>auto simp: int_str_def\<close>)
qed

lemma append_sep_inj: "x \<notin> set v \<Longrightarrow> x \<notin> set w \<Longrightarrow> a @ x # v = b @ x # w \<Longrightarrow> a = b \<and> v = w"
proof -
  assume v: "x \<notin> set v" and w: "x \<notin> set w" and e: "a @ x # v = b @ x # w"
  have t: "takeWhile (\<lambda>y. y \<noteq> x) (rev u @ x # rev c) = rev u" if "x \<notin> set u" for u c
    using that by (subst takeWhile_append2) auto
  from e have "rev (a @ x # v) = rev (b @ x # w)" by simp
  then have r: "rev v @ x # rev a = rev w @ x # rev b" by simp
  from t [OF v, of a] t [OF w, of b] r have "v = w" by simp
  with r show ?thesis by simp
qed

lemma benchKey_inj [simp]: "benchKey p i = benchKey q j \<longleftrightarrow> p = q \<and> i = j"
proof
  assume "benchKey p i = benchKey q j"
  then have "p @ CHR '':'' # int_str i = q @ CHR '':'' # int_str j" by (simp add: benchKey_def)
  from append_sep_inj [OF int_str_no_colon int_str_no_colon this] show "p = q \<and> i = j"
    using int_str_inj by blast
qed simp

subsection \<open>The map of benches\<close>

definition keyed :: "bench_map \<Rightarrow> bool" where
  "keyed bm \<longleftrightarrow> jwf bm \<and> (\<forall>(k, b) \<in> set bm. k = benchKey (bench_project b) (bench_id b))"

lemma keyed_Nil [simp]: "keyed []"
  by (simp add: keyed_def)

lemma keyed_put: "keyed bm \<Longrightarrow> keyed (jput (benchKey (bench_project b) (bench_id b)) b bm)"
  unfolding keyed_def using set_jput_subset [of "benchKey (bench_project b) (bench_id b)" b bm] by fastforce

lemma keyed_del: "keyed bm \<Longrightarrow> keyed (jdel k bm)"
  by (auto simp: keyed_def jdel_def distinct_map_filter)

lemma keyed_filter: "keyed bm \<Longrightarrow> keyed (filter q bm)"
  by (auto simp: keyed_def distinct_map_filter)

lemma keyed_upd: "keyed bm \<Longrightarrow> (\<And>b. bench_project (f b) = bench_project b \<and> bench_id (f b) = bench_id b)
    \<Longrightarrow> keyed (jupd k f bm)"
  unfolding keyed_def by (auto simp: jupd_def comp_def case_prod_unfold)

lemma keyed_key: "keyed bm \<Longrightarrow> (k, b) \<in> set bm \<Longrightarrow> k = benchKey (bench_project b) (bench_id b)"
  by (auto simp: keyed_def)

lemma keyed_fresh: "keyed bm \<Longrightarrow> n \<notin> set (used_ids bm p) \<Longrightarrow> benchKey p n \<notin> fst ` set bm"
proof
  assume k: "keyed bm" "n \<notin> set (used_ids bm p)" and "benchKey p n \<in> fst ` set bm"
  then obtain b where "(benchKey p n, b) \<in> set bm" by force
  moreover from keyed_key [OF k(1) this] have "bench_project b = p" "bench_id b = n" by simp_all
  ultimately show False using k(2) by (force simp: used_ids_def)
qed

lemma used_ids_distinct: "keyed bm \<Longrightarrow> distinct (used_ids bm p)"
proof (induction bm)
  case (Cons e bm)
  obtain k b where e: "e = (k, b)" by (cases e)
  from Cons.prems e have kb: "keyed bm" "k \<notin> fst ` set bm" "k = benchKey (bench_project b) (bench_id b)"
    by (auto simp: keyed_def)
  have "bench_id b \<notin> set (used_ids bm p)" if "bench_project b = p"
  proof
    assume "bench_id b \<in> set (used_ids bm p)"
    then obtain k' b' where "(k', b') \<in> set bm" "bench_project b' = p" "bench_id b' = bench_id b"
      by (auto simp: used_ids_def)
    with keyed_key [OF kb(1)] kb(2,3) that show False by force
  qed
  with Cons.IH [OF kb(1)] e show ?case by (auto simp: used_ids_def)
qed (simp add: used_ids_def)

lemma find_upto_least: "find P [1..m] = Some n \<Longrightarrow> P n \<and> 1 \<le> n \<and> n \<le> m \<and> (\<forall>i. 1 \<le> i \<and> i < n \<longrightarrow> \<not> P i)"
proof -
  assume "find P [1..m] = Some n"
  then obtain k where k: "k < length [1..m]" "P ([1..m] ! k)" "n = [1..m] ! k" "\<forall>j<k. \<not> P ([1..m] ! j)"
    by (auto simp: find_Some_iff)
  then have n: "n = 1 + int k" "n \<le> m" by auto
  have "\<not> P i" if "1 \<le> i" "i < n" for i
  proof -
    have "nat (i - 1) < k" using that n by linarith
    with k(4) have "\<not> P ([1..m] ! nat (i - 1))" by blast
    moreover have "[1..m] ! nat (i - 1) = i" using that n(2) by simp
    ultimately show ?thesis by simp
  qed
  with k n show ?thesis by auto
qed

lemma findNextBenchNumber_Some: "findNextBenchNumber bm p m = Some n \<Longrightarrow>
    n \<notin> set (used_ids bm p) \<and> 1 \<le> n \<and> n \<le> m \<and> (\<forall>i. 1 \<le> i \<and> i < n \<longrightarrow> i \<in> set (used_ids bm p))"
  using find_upto_least [of "\<lambda>i. i \<notin> set (used_ids bm p)" m n] by (auto simp: findNextBenchNumber_def)

lemma findNextBenchNumber_None: "findNextBenchNumber bm p m = None \<longleftrightarrow> {1..m} \<subseteq> set (used_ids bm p)"
  by (auto simp: findNextBenchNumber_def find_None_iff)

subsection \<open>Creating a bench\<close>

lemma place_Inr: "place env bm p br opts project c focus n = Inr (b, bm') \<Longrightarrow>
    bench_id b = n \<and> bench_project b = p \<and> bm' = jput (benchKey p n) b bm \<and> bench_status b = Preparing
    \<and> bench_ports b = allocatePorts c n \<and> bench_components b = initial_components c
    \<and> benchSetupComplete b = Some False \<and> variant b = opt_variant opts \<and> focusedSpecPath b = focus
    \<and> getWorkspacePath (workspaces_root env) (project_name (cfg_project c)) n br = Some (workspacePath b)"
  by (auto simp: place_def Let_def split: option.splits)

lemma place_Inl: "place env bm p br opts project c focus n = Inl e \<Longrightarrow> fail_code e = UNSAFE_PATH"
  by (auto simp: place_def Let_def split: option.splits)

lemma reserve_Inr:
  assumes "reserve env bm p br opts project c focus = Inr (b, bm')"
  shows "findNextBenchNumber bm p (max_benches (benches_cfg c)) = Some (bench_id b)"
    and "place env bm p br opts project c focus (bench_id b) = Inr (b, bm')"
    and "\<forall>m. readGlobalBenchCap (settings_of env) = Some m \<longrightarrow> int (length bm) < m"
proof -
  obtain n where n: "findNextBenchNumber bm p (max_benches (benches_cfg c)) = Some n"
    "place env bm p br opts project c focus n = Inr (b, bm')"
    "\<forall>m. readGlobalBenchCap (settings_of env) = Some m \<longrightarrow> int (length bm) < m"
    using assms by (auto simp: reserve_def split: option.splits if_splits)
  with place_Inr [OF n(2)] show "findNextBenchNumber bm p (max_benches (benches_cfg c)) = Some (bench_id b)"
    "place env bm p br opts project c focus (bench_id b) = Inr (b, bm')"
    "\<forall>m. readGlobalBenchCap (settings_of env) = Some m \<longrightarrow> int (length bm) < m" by simp_all
qed

lemma createBench_Inr:
  assumes "createBench env bm p br opts = Inr (b, bm')"
  obtains project c focus where "projects_of env p = Some project" "configValid project" "config project = Some c"
    "p \<notin> set (unregisteringProjects env)" "focus_of env project opts = Inr focus"
    "reserve env bm p br opts project c focus = Inr (b, bm')"
  using assms by (auto simp: createBench_def split: option.splits if_splits sum.splits bool.splits)

text \<open>The configuration a bench of the project is created from.\<close>

definition live_config :: "manager_env \<Rightarrow> string \<Rightarrow> roubo_config option" where
  "live_config env p = (case projects_of env p of
     Some project \<Rightarrow> if configValid project \<and> p \<notin> set (unregisteringProjects env) then config project else None
   | None \<Rightarrow> None)"

lemma createBench_reserved:
  assumes "createBench env bm p br opts = Inr (b, bm')"
  obtains c where "live_config env p = Some c" "bench_project b = p"
    "findNextBenchNumber bm p (max_benches (benches_cfg c)) = Some (bench_id b)"
    "bm' = jput (benchKey p (bench_id b)) b bm" "bench_ports b = allocatePorts c (bench_id b)"
    "bench_components b = initial_components c" "bench_status b = Preparing"
    "\<forall>m. readGlobalBenchCap (settings_of env) = Some m \<longrightarrow> int (length bm) < m"
proof -
  obtain project c focus where h: "projects_of env p = Some project" "configValid project" "config project = Some c"
    "p \<notin> set (unregisteringProjects env)" "reserve env bm p br opts project c focus = Inr (b, bm')"
    by (rule createBench_Inr [OF assms]) blast
  show ?thesis
    using that [of c] reserve_Inr [OF h(5)] place_Inr [OF reserve_Inr(2) [OF h(5)]] h(1-4)
    by (simp add: live_config_def)
qed

subsection \<open>Runs of the map\<close>

datatype map_op =
    Create_bench string "string option" create_options
  | Forget_bench string int
  | Drop_project string
  | Set_status string int
  | Set_background_error string int string

fun run_map_op :: "manager_env \<Rightarrow> map_op \<Rightarrow> bench_map \<Rightarrow> bench_map" where
  "run_map_op env (Create_bench p br opts) bm =
     (case createBench env bm p br opts of Inl _ \<Rightarrow> bm | Inr (_, bm') \<Rightarrow> bm')"
| "run_map_op env (Forget_bench p i) bm = jdel (benchKey p i) bm"
| "run_map_op env (Drop_project p) bm = snd (dropProjectBenches p bm)"
| "run_map_op env (Set_status p i) bm = jupd (benchKey p i) updateBenchStatus bm"
| "run_map_op env (Set_background_error p i m) bm = jupd (benchKey p i) (markBackgroundError m) bm"

text \<open>Every live bench was created from its project's configuration, within the limits.\<close>

definition bench_fits :: "manager_env \<Rightarrow> bench \<Rightarrow> bool" where
  "bench_fits env b \<longleftrightarrow> (\<exists>c. live_config env (bench_project b) = Some c \<and> 1 \<le> bench_id b
     \<and> bench_id b \<le> max_benches (benches_cfg c) \<and> bench_ports b = allocatePorts c (bench_id b))"

definition map_inv :: "manager_env \<Rightarrow> bench_map \<Rightarrow> bool" where
  "map_inv env bm \<longleftrightarrow> keyed bm \<and> (\<forall>b \<in> set (jvals bm). bench_fits env b)
     \<and> (\<forall>m. readGlobalBenchCap (settings_of env) = Some m \<longrightarrow> int (length bm) \<le> m)"

lemma readGlobalBenchCap_pos: "readGlobalBenchCap s = Some m \<Longrightarrow> 1 \<le> m"
  by (induction s rule: readGlobalBenchCap.induct) (auto split: if_splits)

lemma map_inv_Nil: "map_inv env []"
  using readGlobalBenchCap_pos by (fastforce simp: map_inv_def)

lemma map_inv_sub:
  assumes "map_inv env bm" and "keyed bm'" and "set (jvals bm') \<subseteq> set (jvals bm)" and "length bm' \<le> length bm"
  shows "map_inv env bm'"
  using assms unfolding map_inv_def by fastforce

lemma map_inv_upd:
  assumes "map_inv env bm"
    and f: "\<And>b. bench_project (f b) = bench_project b \<and> bench_id (f b) = bench_id b \<and> bench_ports (f b) = bench_ports b"
  shows "map_inv env (jupd k f bm)"
proof -
  have "bench_fits env (f b) = bench_fits env b" for b by (simp add: bench_fits_def f)
  then have "\<forall>b \<in> set (jvals (jupd k f bm)). bench_fits env b"
    using assms(1) by (fastforce simp: map_inv_def jupd_def)
  moreover have "length (jupd k f bm) = length bm" by (simp add: jupd_def)
  ultimately show ?thesis
    using assms keyed_upd [of bm f k] by (simp add: map_inv_def)
qed

lemma map_inv_create:
  assumes "map_inv env bm" and "createBench env bm p br opts = Inr (b, bm')"
  shows "map_inv env bm'"
proof -
  obtain c where c: "live_config env p = Some c" "bench_project b = p"
    "findNextBenchNumber bm p (max_benches (benches_cfg c)) = Some (bench_id b)"
    "bm' = jput (benchKey p (bench_id b)) b bm" "bench_ports b = allocatePorts c (bench_id b)"
    "\<forall>m. readGlobalBenchCap (settings_of env) = Some m \<longrightarrow> int (length bm) < m"
    by (rule createBench_reserved [OF assms(2)]) blast
  have "bench_fits env b" using c findNextBenchNumber_Some [OF c(3)] by (auto simp: bench_fits_def)
  moreover have "set (jvals bm') \<subseteq> insert b (set (jvals bm))"
    using set_jput_subset [of "benchKey p (bench_id b)" b bm] c(4) by fastforce
  moreover have "keyed bm'" using keyed_put [of bm b] assms(1) c(2,4) by (simp add: map_inv_def)
  moreover have "length bm' \<le> Suc (length bm)" using c(4) by (simp add: length_jput)
  ultimately show ?thesis using assms(1) c(6) unfolding map_inv_def by fastforce
qed

lemma map_inv_op: "map_inv env bm \<Longrightarrow> map_inv env (run_map_op env op bm)"
proof (cases op)
  case (Create_bench p br opts)
  then show "map_inv env bm \<Longrightarrow> ?thesis"
    using map_inv_create by (auto split: sum.splits)
next
  case (Forget_bench p i)
  then show "map_inv env bm \<Longrightarrow> ?thesis"
    using map_inv_sub [of env bm "jdel (benchKey p i) bm"] keyed_del [of bm]
    by (force simp: jdel_def map_inv_def)
next
  case (Drop_project p)
  then show "map_inv env bm \<Longrightarrow> ?thesis"
    using map_inv_sub [of env bm "filter (\<lambda>(k, b). bench_project b \<noteq> p) bm"] keyed_filter [of bm]
    by (force simp: dropProjectBenches_def map_inv_def)
next
  case (Set_status p i)
  then show "map_inv env bm \<Longrightarrow> ?thesis"
    by (auto intro!: map_inv_upd simp: updateBenchStatus_def Let_def)
next
  case (Set_background_error p i m)
  then show "map_inv env bm \<Longrightarrow> ?thesis"
    by (auto intro!: map_inv_upd simp: markBackgroundError_def)
qed

interpretation bench_map: step_system "run_map_op env" "map_inv env" for env
  by unfold_locales (rule map_inv_op)

subsection \<open>What a creation answers\<close>

lemma createBench_cases:
  assumes "live_config env p = Some c" and "opt_variant opts \<noteq> Some ''testbench''"
  obtains project where "projects_of env p = Some project"
    "createBench env bm p br opts = reserve env bm p br opts project c None"
proof -
  obtain project where "projects_of env p = Some project" "configValid project" "config project = Some c"
    "p \<notin> set (unregisteringProjects env)"
    using assms(1) by (auto simp: live_config_def split: option.splits if_splits)
  then show ?thesis using that assms(2) by (simp add: createBench_def focus_of_def)
qed

lemma reserve_code:
  assumes "reserve env bm p br opts project c focus = Inl e"
  shows "fail_code e = NO_BENCHES \<longleftrightarrow> findNextBenchNumber bm p (max_benches (benches_cfg c)) = None"
    and "fail_code e = GLOBAL_CAP_REACHED \<longleftrightarrow> findNextBenchNumber bm p (max_benches (benches_cfg c)) \<noteq> None
      \<and> (\<exists>m. readGlobalBenchCap (settings_of env) = Some m \<and> m \<le> int (length bm))"
  using assms by (auto simp: reserve_def split: option.splits if_splits dest: place_Inl)

lemma reserve_full: "findNextBenchNumber bm p (max_benches (benches_cfg c)) = None \<Longrightarrow>
    \<exists>e. reserve env bm p br opts project c focus = Inl e"
  by (simp add: reserve_def)

lemma reserve_capped: "readGlobalBenchCap (settings_of env) = Some m \<Longrightarrow> m \<le> int (length bm) \<Longrightarrow>
    \<exists>e. reserve env bm p br opts project c focus = Inl e"
  by (simp add: reserve_def split: option.split)

lemma keyed_size:
  assumes "map_inv env bm" and "live_config env p = Some c" and "config_ok c"
  shows "int (length (used_ids bm p)) \<le> max_benches (benches_cfg c)"
proof -
  have "set (used_ids bm p) \<subseteq> {1..max_benches (benches_cfg c)}"
    using assms by (auto simp: map_inv_def bench_fits_def used_ids_def)
  then have "card (set (used_ids bm p)) \<le> card {1..max_benches (benches_cfg c)}"
    by (intro card_mono) auto
  moreover have "card (set (used_ids bm p)) = length (used_ids bm p)"
    using assms(1) by (intro distinct_card used_ids_distinct) (simp add: map_inv_def)
  ultimately show ?thesis using config_ok_max [OF assms(3)] by auto
qed

subsection \<open>Properties\<close>

text \<open>
  A bench that \<open>createBench\<close> returns takes the lowest number of the project that no live bench
  has, within the project's limit; its ports are the base ports shifted by that number; it is in
  the map under its key, where nothing was before; and no other entry of the map changes.
\<close>

theorem create_reserves_lowest_number:
  assumes "keyed bm" and "createBench env bm p br opts = Inr (b, bm')"
  shows "(\<exists>c. live_config env p = Some c \<and> 1 \<le> bench_id b \<and> bench_id b \<le> max_benches (benches_cfg c)
      \<and> bench_id b \<notin> set (getLiveBenchIds bm p)
      \<and> (\<forall>i. 1 \<le> i \<and> i < bench_id b \<longrightarrow> i \<in> set (getLiveBenchIds bm p))
      \<and> bench_ports b = allocatePorts c (bench_id b))
    \<and> getBench bm p (bench_id b) = None \<and> getBench bm' p (bench_id b) = Some b
    \<and> (\<forall>q j. (q, j) \<noteq> (p, bench_id b) \<longrightarrow> getBench bm' q j = getBench bm q j)
    \<and> length bm' = Suc (length bm)"
proof -
  obtain c where c: "live_config env p = Some c"
    "findNextBenchNumber bm p (max_benches (benches_cfg c)) = Some (bench_id b)"
    "bm' = jput (benchKey p (bench_id b)) b bm" "bench_ports b = allocatePorts c (bench_id b)"
    by (rule createBench_reserved [OF assms(2)]) blast
  have fresh: "benchKey p (bench_id b) \<notin> fst ` set bm"
    using keyed_fresh [OF assms(1)] findNextBenchNumber_Some [OF c(2)] by blast
  then have "getBench bm p (bench_id b) = None" by (simp add: getBench_def map_of_eq_None_iff)
  moreover have "getBench bm' p (bench_id b) = Some b" by (simp add: getBench_def c(3))
  moreover have "\<forall>q j. (q, j) \<noteq> (p, bench_id b) \<longrightarrow> getBench bm' q j = getBench bm q j"
    by (auto simp: getBench_def c(3))
  moreover have "length bm' = Suc (length bm)" using fresh by (simp add: c(3) length_jput)
  ultimately show ?thesis using c(1,4) findNextBenchNumber_Some [OF c(2)] by (auto simp: getLiveBenchIds_def)
qed

definition sample_env :: "roubo_config \<Rightarrow> manager_env" where
  "sample_env c = \<lparr>projects_of = (\<lambda>p. if p = ''a'' \<or> p = ''b'' then Some (sample_project p c) else None),
     unregisteringProjects = [], settings_of = Settings_max (Some (JNum 2)),
     resolveFocusedSpec = (\<lambda>r p. Inr p), now_string = ''t'', workspaces_root = ''/w''\<rparr>"

definition no_options :: create_options where
  "no_options = \<lparr>opt_variant = None, opt_focusedSpecPath = None\<rparr>"

lemmas sample_bench_defs = sample_env_def no_options_def createBench_def focus_of_def reserve_def place_def
  findNextBenchNumber_def used_ids_def getWorkspacePath_def project_id_ok_def is_word_char_def workspace_dir_def

lemma upto_3: "[1..3::int] = [1, 2, 3]"
  by (simp add: upto_rec1)

lemma sample_create: "\<exists>b bm. createBench (sample_env (sample_config ''a'' [(''web'', 4000)] 3)) [] ''a'' None no_options = Inr (b, bm)"
  by (simp add: sample_bench_defs sample_defs upto_3 int_str_def nat_str.simps digit_char_def char_of_def bit_Suc
      bit_0 Let_def)

theorem create_reserves_lowest_number_witness:
  "\<exists>b bm. createBench (sample_env (sample_config ''a'' [(''web'', 4000)] 3)) [] ''a'' None no_options = Inr (b, bm)
     \<and> getBench bm ''a'' (bench_id b) = Some b \<and> length bm = 1"
proof -
  obtain b bm where "createBench (sample_env (sample_config ''a'' [(''web'', 4000)] 3)) [] ''a'' None no_options = Inr (b, bm)"
    using sample_create by blast
  with create_reserves_lowest_number [OF keyed_Nil this] show ?thesis by auto
qed

text \<open>
  For a registered project with a valid configuration that is not being unregistered, and an
  ordinary bench, a creation fails for want of a number exactly when every number up to the
  project's limit is live, and for the global cap exactly when a number was free and the cap,
  where the settings hold one, is reached; any other failure is an unsafe workspace path.
\<close>

theorem create_refused_exactly:
  assumes "live_config env p = Some c" and "opt_variant opts \<noteq> Some ''testbench''"
  shows "((\<exists>e. createBench env bm p br opts = Inl e \<and> fail_code e = NO_BENCHES)
        \<longleftrightarrow> {1..max_benches (benches_cfg c)} \<subseteq> set (getLiveBenchIds bm p))
    \<and> ((\<exists>e. createBench env bm p br opts = Inl e \<and> fail_code e = GLOBAL_CAP_REACHED)
        \<longleftrightarrow> \<not> {1..max_benches (benches_cfg c)} \<subseteq> set (getLiveBenchIds bm p)
            \<and> (\<exists>m. readGlobalBenchCap (settings_of env) = Some m \<and> m \<le> int (length bm)))
    \<and> (\<forall>e. createBench env bm p br opts = Inl e
        \<longrightarrow> fail_code e \<in> {NO_BENCHES, GLOBAL_CAP_REACHED, UNSAFE_PATH})"
proof -
  have f: "find P xs = None \<longleftrightarrow> (\<forall>x \<in> set xs. \<not> P x)" for P :: "int \<Rightarrow> bool" and xs
    by (auto simp: find_None_iff)
  obtain project where r: "createBench env bm p br opts = reserve env bm p br opts project c None"
    by (rule createBench_cases [OF assms]) blast
  let ?none = "findNextBenchNumber bm p (max_benches (benches_cfg c)) = None"
  have none: "?none \<longleftrightarrow> {1..max_benches (benches_cfg c)} \<subseteq> set (getLiveBenchIds bm p)"
    by (simp add: findNextBenchNumber_None getLiveBenchIds_def)
  have "\<forall>e. reserve env bm p br opts project c None = Inl e
      \<longrightarrow> fail_code e \<in> {NO_BENCHES, GLOBAL_CAP_REACHED, UNSAFE_PATH}"
    by (auto simp: reserve_def split: option.splits if_splits dest: place_Inl)
  moreover have "(\<exists>e. reserve env bm p br opts project c None = Inl e \<and> fail_code e = NO_BENCHES) \<longleftrightarrow> ?none"
    using reserve_code(1) [of env bm p br opts project c None] reserve_full [of bm p c env br opts project None]
    by auto
  moreover have "(\<exists>e. reserve env bm p br opts project c None = Inl e \<and> fail_code e = GLOBAL_CAP_REACHED)
      \<longleftrightarrow> \<not> ?none \<and> (\<exists>m. readGlobalBenchCap (settings_of env) = Some m \<and> m \<le> int (length bm))"
    using reserve_code(2) [of env bm p br opts project c None] reserve_capped [of env _ bm p br opts project c None]
    by auto
  ultimately show ?thesis unfolding r none by blast
qed

theorem create_refused_exactly_witness:
  "\<exists>e. createBench (sample_env (sample_config ''a'' [(''web'', 4000)] 0)) [] ''a'' None no_options = Inl e
     \<and> fail_code e = NO_BENCHES"
  by (subst create_refused_exactly [of _ _ "sample_config ''a'' [(''web'', 4000)] 0", THEN conjunct1])
     (simp_all add: live_config_def sample_env_def sample_defs no_options_def)

text \<open>
  C17. Over every run of creations, removals, project drops, status updates and background errors
  that starts with no benches: a project whose configuration is valid never has more live benches
  than its limit, all with different numbers, and all projects together never have more than the
  global cap.
\<close>

theorem bench_limits_hold:
  assumes "live_config env p = Some c" and "config_ok c"
  shows "distinct (getLiveBenchIds (fold (run_map_op env) os []) p)
    \<and> int (length (getLiveBenchIds (fold (run_map_op env) os []) p)) \<le> max_benches (benches_cfg c)
    \<and> (\<forall>m. readGlobalBenchCap (settings_of env) = Some m
          \<longrightarrow> int (length (getBenches (fold (run_map_op env) os []) None)) \<le> m)"
proof -
  let ?bm = "fold (run_map_op env) os []"
  have inv: "map_inv env ?bm" by (rule bench_map.inv_run [OF map_inv_Nil])
  have "distinct (getLiveBenchIds ?bm p)"
    using inv used_ids_distinct by (simp add: getLiveBenchIds_def map_inv_def)
  moreover have "int (length (getLiveBenchIds ?bm p)) \<le> max_benches (benches_cfg c)"
    using keyed_size [OF inv assms] by (simp add: getLiveBenchIds_def)
  moreover have "\<forall>m. readGlobalBenchCap (settings_of env) = Some m \<longrightarrow> int (length (getBenches ?bm None)) \<le> m"
    using inv by (simp add: map_inv_def getBenches_def)
  ultimately show ?thesis by blast
qed

definition three_creates :: "map_op list" where
  "three_creates = [Create_bench ''a'' None no_options, Create_bench ''b'' None no_options, Create_bench ''a'' None no_options]"

theorem bench_limits_hold_witness:
  "int (length (getBenches (fold (run_map_op (sample_env (sample_config ''a'' [(''web'', 4000)] 3))) three_creates []) None)) \<le> 2"
proof -
  let ?c = "sample_config ''a'' [(''web'', 4000)] 3"
  have "live_config (sample_env ?c) ''a'' = Some ?c" by (simp add: live_config_def sample_env_def sample_defs)
  moreover have "config_ok ?c" by (simp add: project_name_ok_def)
  moreover have "readGlobalBenchCap (settings_of (sample_env ?c)) = Some 2" by (simp add: sample_env_def)
  ultimately show ?thesis using bench_limits_hold [of "sample_env ?c" "''a''" ?c three_creates] by blast
qed


definition sample_two :: manager_env where
  "sample_two = (sample_env (sample_config ''a'' [(''web'', 4000)] 3))\<lparr>projects_of :=
     (\<lambda>p. if p = ''a'' then Some (sample_project ''a'' (sample_config ''a'' [(''web'', 4000)] 3))
          else if p = ''b'' then Some (sample_project ''b'' (sample_config ''b'' [(''web'', 4003)] 3)) else None)\<rparr>"

lemma sample_two_run: "\<exists>b1 b2. fold (run_map_op sample_two)
    [Create_bench ''a'' None no_options, Create_bench ''b'' None no_options] []
      = [(benchKey ''a'' 1, b1), (benchKey ''b'' 1, b2)] \<and> bench_project b1 = ''a'' \<and> bench_project b2 = ''b''"
  by (simp add: sample_two_def sample_bench_defs sample_defs upto_3 int_str_def nat_str.simps digit_char_def
      char_of_def bit_Suc bit_0 Let_def)


subsection \<open>Hydration gives back what was persisted\<close>

text \<open>What a restart leaves of a component: its setup flag and its reported address.\<close>

definition restored_component :: "component_status \<Rightarrow> component_status" where
  "restored_component s = s\<lparr>comp_status := Stopped, pid := None, containerId := None, comp_error := None,
     statusDetail := None, statusDetailStartedAt := None, startedAt := None, comp_phases := None\<rparr>"

definition restored_bench :: "bench \<Rightarrow> bench" where
  "restored_bench b = b\<lparr>bench_status := Idle, bench_error := None, provisioningSteps := [], teardownSteps := [],
     bench_components := map (\<lambda>(n, s). (n, restored_component s)) (bench_components b)\<rparr>"

definition component_persistable :: "url_parser \<Rightarrow> string \<times> component_status \<Rightarrow> bool" where
  "component_persistable parse e =
     (case e of (n, s) \<Rightarrow> comp_name s = n
        \<and> (case comp_url s of None \<Rightarrow> True | Some u \<Rightarrow> normalizeReportedUrl parse (Some u) = Some u))"

text \<open>A bench that loses nothing else: what the manager keeps of every bench it runs.\<close>

definition bench_persistable :: "url_parser \<Rightarrow> roubo_config \<Rightarrow> bench \<Rightarrow> bool" where
  "bench_persistable parse c b =
     (safe_workspace_path (workspacePath b) \<and> jwf (bench_components b)
      \<and> jkeys (bench_components b) = jkeys (cfg_components c)
      \<and> list_all (component_persistable parse) (bench_components b)
      \<and> migrateAssignedIssue (assignedIssue b) = assignedIssue b
      \<and> list_all (\<lambda>n. notif_type n \<noteq> ''inspection-complete'') (notifications b)
      \<and> benchSetupComplete b \<noteq> None)"

lemma toComponentUrls_get:
  assumes "jwf cs"
  shows "Option.bind (toComponentUrls cs) (\<lambda>m. map_of m n)
    = (case map_of cs n of Some s \<Rightarrow> if truthy (comp_url s) then comp_url s else None | None \<Rightarrow> None)"
proof -
  have "map_of (map (\<lambda>(name, c). (name, the (comp_url c))) (filter (\<lambda>(name, c). truthy (comp_url c)) cs)) n
      = (case map_of cs n of Some s \<Rightarrow> if truthy (comp_url s) then comp_url s else None | None \<Rightarrow> None)"
    unfolding map_of_map_snd map_of_filter_keys [OF assms]
    by (auto simp: truthy_def split: option.splits)
  then show ?thesis by (auto simp: toComponentUrls_def Let_def)
qed

lemma normalizeReportedUrl_empty [simp]:
  "normalizeReportedUrl parse None = None" "normalizeReportedUrl parse (Some []) = None"
  by (simp_all add: normalizeReportedUrl_def)

lemma hydrate_component_restores:
  assumes "jwf (bench_components b)" and "map_of (bench_components b) n = Some s"
    and "component_persistable parse (n, s)"
  shows "hydrate_component parse (load_bench (toPersistedBench b)) n cc = restored_component s"
proof -
  let ?ps = "load_bench (toPersistedBench b)"
  have state: "componentSetupState ?ps = Some (map (\<lambda>(name, c). (name, setupComplete c)) (bench_components b))"
    and urls: "componentUrls ?ps = toComponentUrls (bench_components b)"
    by (simp_all add: load_bench_def migrateInjectedJigFields_def toPersistedBench_def)
  have "map_of (map (\<lambda>(name, c). (name, setupComplete c)) (bench_components b)) n = Some (setupComplete s)"
    using assms(2) by (simp only: map_of_map_snd) simp
  moreover have "normalizeReportedUrl parse (Option.bind (componentUrls ?ps) (\<lambda>m. map_of m n)) = comp_url s"
    unfolding urls toComponentUrls_get [OF assms(1)] assms(2) using assms(3)
    by (cases "comp_url s") (auto simp: component_persistable_def truthy_def)
  moreover have "comp_name s = n" using assms(3) by (simp add: component_persistable_def)
  ultimately show ?thesis by (simp add: hydrate_component_def restored_component_def state)
qed

lemma hydrate_components_restore:
  assumes "jwf bc" and "jkeys bc = jkeys cs"
    and "\<And>n s cc. map_of bc n = Some s \<Longrightarrow> f n cc = g s"
  shows "map (\<lambda>(n, cc). (n, f n cc)) cs = map (\<lambda>(n, s). (n, g s)) bc"
proof (rule nth_equalityI)
  show len: "length (map (\<lambda>(n, cc). (n, f n cc)) cs) = length (map (\<lambda>(n, s). (n, g s)) bc)"
    using arg_cong [OF assms(2), of length] by simp
  fix i assume "i < length (map (\<lambda>(n, cc). (n, f n cc)) cs)"
  then have i: "i < length cs" "i < length bc" using len by simp_all
  have "fst (bc ! i) = fst (cs ! i)" using i assms(2) by (metis nth_map)
  moreover have "map_of bc (fst (bc ! i)) = Some (snd (bc ! i))" using assms(1) i(2) by simp
  ultimately show "map (\<lambda>(n, cc). (n, f n cc)) cs ! i = map (\<lambda>(n, s). (n, g s)) bc ! i"
    using i assms(3) by (simp add: case_prod_unfold)
qed

text \<open>
  A restart loses only what is not a fact about the workspace: writing a bench to the state
  file and hydrating it again gives the same bench, idle, with its components stopped, its steps
  and its error gone, and its setup flags, reported addresses, ports and assignments unchanged.
\<close>

theorem hydrate_roundtrip:
  assumes "config project = Some c" and "bench_persistable parse c b"
  shows "hydrate_bench parse (Some project) (load_bench (toPersistedBench b)) = restored_bench b"
proof -
  let ?ps = "load_bench (toPersistedBench b)"
  have bp: "safe_workspace_path (workspacePath b)" "jwf (bench_components b)"
    "jkeys (bench_components b) = jkeys (cfg_components c)"
    "migrateAssignedIssue (assignedIssue b) = assignedIssue b" "benchSetupComplete b \<noteq> None"
    "filter (\<lambda>n. notif_type n \<noteq> ''inspection-complete'') (notifications b) = notifications b"
    using assms(2) by (auto simp: bench_persistable_def list_all_iff)
  have comps: "component_persistable parse (n, s)" if "map_of (bench_components b) n = Some s" for n s
    using map_of_SomeD [OF that] assms(2) by (auto simp: bench_persistable_def list_all_iff)
  have c: "map (\<lambda>(n, cc). (n, hydrate_component parse ?ps n cc)) (cfg_components c)
      = map (\<lambda>(n, s). (n, restored_component s)) (bench_components b)"
    using hydrate_component_restores [OF bp(2) _ comps]
    by (intro hydrate_components_restore [OF bp(2,3)]) blast
  show ?thesis
    using bp c assms(1)
    by (auto simp: hydrate_bench_def restored_bench_def load_bench_def migrateInjectedJigFields_def
        toPersistedBench_def first_defined_def split: option.split)
qed

definition sample_status :: "string \<Rightarrow> component_status" where
  "sample_status n = \<lparr>comp_name = n, comp_status = Running, pid = Some 7, containerId = None, comp_error = None,
     statusDetail = None, statusDetailStartedAt = None, startedAt = Some ''t'', comp_phases = Some [],
     comp_url = Some ''http://h'', setupComplete = False\<rparr>"

definition sample_bench :: bench where
  "sample_bench = \<lparr>bench_id = 1, bench_project = ''a'', branch = ''bench-1'', workspacePath = ''/w/a'',
     bench_status = Active, bench_ports = [(''web'', 4000)], bench_components = [(''web'', sample_status ''web'')],
     createdAt = ''t'', bench_error = None, provisioningSteps = [], teardownSteps = [], assignedContainers = None,
     assignedIssue = None, notifications = [], baseBranch = None, baseCommit = None, injectedJigId = None,
     injectedJigSource = None, variant = None, focusedSpecPath = None, benchSetupComplete = Some True\<rparr>"

definition web_config :: roubo_config where
  "web_config = (sample_config ''a'' [(''web'', 4000)] 3)\<lparr>cfg_components := [(''web'', \<lparr>plugin = None,
     config_block = None, dependsOn = None, legacy_setup = Some ''npm ci'', legacy_connection = None\<rparr>)]\<rparr>"

definition sample_parser :: url_parser where
  "sample_parser s = Some (''http:'', s)"

theorem hydrate_roundtrip_witness:
  "hydrate_bench sample_parser (Some (sample_project ''a'' web_config)) (load_bench (toPersistedBench sample_bench))
     = restored_bench sample_bench"
  by (rule hydrate_roundtrip [of _ web_config])
     (simp_all add: sample_project_def bench_persistable_def sample_bench_def web_config_def safe_workspace_path_def
       is_word_char_def starts_with_def component_persistable_def sample_status_def normalizeReportedUrl_def
       sample_parser_def shell_unsafe_url_char_def is_ws_def migrateAssignedIssue_def)

lemma bench_key_eq: "bench_key_of x = (p, i) \<longleftrightarrow> p = pb_project x \<and> i = pb_id x"
  by (auto simp: bench_key_of_def)

lemma initialize_get:
  "distinct (map bench_key_of ps) \<Longrightarrow>
   map_of (fold (\<lambda>ps. jput (benchKey (pb_project ps) (pb_id ps)) (h ps)) ps bm) (benchKey p i)
     = (case find_key bench_key_of (p, i) ps of Some x \<Rightarrow> Some (h x) | None \<Rightarrow> map_of bm (benchKey p i))"
proof (induction ps arbitrary: bm)
  case (Cons x ps)
  have "find_key bench_key_of (p, i) ps = None" if "bench_key_of x = (p, i)"
    using Cons.prems that by (auto simp: find_key_None)
  with Cons show ?case by (auto simp: bench_key_eq split: option.split)
qed simp

definition file_keys :: "persisted_state option \<Rightarrow> (string \<times> int) list" where
  "file_keys file = map bench_key_of (state_benches (loadState file))"

lemma keys_replace_first: "map f (replace_first (\<lambda>x. f x = f v) v xs) = map f xs"
  by (induction xs) auto

lemma file_keys_Some [simp]: "file_keys (Some d) = map bench_key_of (state_benches d)"
  by (simp add: file_keys_def comp_def)

lemma file_keys_op: "distinct (file_keys s) \<Longrightarrow> distinct (file_keys (run_state_op op s))"
proof (cases op)
  case (Add_op b)
  then show "distinct (file_keys s) \<Longrightarrow> ?thesis"
    by (auto simp: addBench_eq file_keys_def [of s] distinct_map_filter)
next
  case (Update_op b)
  then show "distinct (file_keys s) \<Longrightarrow> ?thesis"
    by (auto simp: updateBench_eq file_keys_def [of s] keys_replace_first)
next
  case (Remove_op p i)
  then show "distinct (file_keys s) \<Longrightarrow> ?thesis"
    by (auto simp: removeBench_def Let_def file_keys_def [of s] distinct_map_filter)
qed

interpretation state_file: step_system run_state_op "\<lambda>s. distinct (file_keys s)"
  by unfold_locales (rule file_keys_op)

text \<open>
  After a restart the manager knows exactly the benches of the state file: for a file made by
  any sequence of additions, updates and removals, the bench under a project and a number is the
  hydration of the file's record for it, and absent when the file has none.
\<close>

theorem restart_restores_the_file:
  "getBench (initialize parse projects (fold run_state_op os None) []) p i
     = map_option (\<lambda>ps. hydrate_bench parse (projects p) ps) (state_get (fold run_state_op os None) (p, i))"
proof -
  have "distinct (file_keys (fold run_state_op os None))"
    by (rule state_file.inv_run) (simp add: file_keys_def loadState_def)
  then have d: "distinct (map bench_key_of (state_benches (loadState (fold run_state_op os None))))"
    by (simp add: file_keys_def)
  show ?thesis
    unfolding getBench_def initialize_def initialize_get [OF d] state_get_def
    by (auto simp: bench_key_of_def split: option.split dest!: find_key_Some)
qed

end
