(* ===== verification/Descriptors.thy ===== *)
theory Descriptors
  imports ProjectConfig "HOL-Library.Monad_Syntax"
begin

section \<open>Provision descriptors\<close>

text \<open>
  \<open>shared/provision-descriptor-schema.ts\<close>: the union of descriptors a component plugin emits, and
  the schema the host validates one against before it does anything. The validator is a function
  from JSON to an optional descriptor: an absent optional field is \<open>None\<close>, a field of the wrong
  shape or an unknown key refuses the whole value. Only the wording of a refusal is left out.
\<close>

subsection \<open>The union\<close>

record docker_migration =
  mig_command :: string
  mig_args :: "string list option"
  mig_shell :: "shell_setting option"

datatype url_spec = Url_template string | Url_from_output string

record docker_descriptor =
  composeFile :: string
  service :: string
  initService :: "string option"
  portEnvVar :: "string option"
  migration :: "docker_migration option"
  connection :: "string option"
  docker_url :: "url_spec option"
  assignedContainerId :: "string option"
  docker_env :: "string jmap option"
  healthcheck :: "bool option"

record process_descriptor =
  process_command :: string
  process_env :: "string jmap option"
  process_envFile :: "string option"
  process_cwd :: "string option"
  process_setup :: "string option"
  process_dependsOn :: "string list option"
  process_url :: "string option"
  process_shell :: "shell_setting option"

record oneshot_descriptor =
  oneshot_command :: string
  oneshot_env :: "string jmap option"
  oneshot_envFile :: "string option"
  oneshot_cwd :: "string option"
  oneshot_dependsOn :: "string list option"
  timeoutMs :: "int option"
  oneshot_url :: "url_spec option"
  oneshot_shell :: "shell_setting option"

datatype provision_descriptor =
    Docker docker_descriptor
  | Process process_descriptor
  | Oneshot oneshot_descriptor

definition SUPPORTED_PROVISION_SCHEMA_VERSION :: int where
  "SUPPORTED_PROVISION_SCHEMA_VERSION = 1"

subsection \<open>Validators\<close>

fun any_string :: "json \<Rightarrow> string option" where
  "any_string (JStr s) = Some s"
| "any_string _ = None"

fun min1_string :: "json \<Rightarrow> string option" where
  "min1_string (JStr s) = (if s \<noteq> [] then Some s else None)"
| "min1_string _ = None"

fun any_bool :: "json \<Rightarrow> bool option" where
  "any_bool (JBool b) = Some b"
| "any_bool _ = None"

fun positive_int :: "json \<Rightarrow> int option" where
  "positive_int (JNum n) = (if 0 < n then Some n else None)"
| "positive_int _ = None"

fun ShellSchema :: "json \<Rightarrow> shell_setting option" where
  "ShellSchema (JBool b) = Some (Shell_flag b)"
| "ShellSchema (JStr s) = (if s \<noteq> [] then Some (Shell_cmd s) else None)"
| "ShellSchema _ = None"

fun all_some :: "'a option list \<Rightarrow> 'a list option" where
  "all_some [] = Some []"
| "all_some (x # xs) = do { v \<leftarrow> x; vs \<leftarrow> all_some xs; Some (v # vs) }"

fun string_array :: "json \<Rightarrow> string list option" where
  "string_array (JArr xs) = all_some (map any_string xs)"
| "string_array _ = None"

fun string_record :: "json \<Rightarrow> string jmap option" where
  "string_record (JObj m) = all_some (map (\<lambda>(k, v). map_option (Pair k) (any_string v)) m)"
| "string_record _ = None"

text \<open>A field that must be there, and one that may be.\<close>

definition required :: "string \<Rightarrow> (json \<Rightarrow> 'a option) \<Rightarrow> json jmap \<Rightarrow> 'a option" where
  "required k p m = Option.bind (map_of m k) p"

definition optional :: "string \<Rightarrow> (json \<Rightarrow> 'a option) \<Rightarrow> json jmap \<Rightarrow> 'a option option" where
  "optional k p m = (case map_of m k of None \<Rightarrow> Some None | Some v \<Rightarrow> map_option Some (p v))"

definition strict :: "string list \<Rightarrow> json jmap \<Rightarrow> unit option" where
  "strict ks m = (if list_all (\<lambda>k. k \<in> set ks) (jkeys m) then Some () else None)"

fun DockerMigrationSchema :: "json \<Rightarrow> docker_migration option" where
  "DockerMigrationSchema (JObj m) = do {
     strict [''command'', ''args'', ''shell''] m;
     c \<leftarrow> required ''command'' min1_string m;
     a \<leftarrow> optional ''args'' string_array m;
     s \<leftarrow> optional ''shell'' ShellSchema m;
     Some \<lparr>mig_command = c, mig_args = a, mig_shell = s\<rparr> }"
| "DockerMigrationSchema _ = None"

fun template_object :: "json \<Rightarrow> string option" where
  "template_object (JObj m) = do { strict [''template''] m; required ''template'' min1_string m }"
| "template_object _ = None"

fun DescriptorUrlSchema :: "json \<Rightarrow> url_spec option" where
  "DescriptorUrlSchema (JObj m) = do {
     strict [''template'', ''fromOutput''] m;
     t \<leftarrow> optional ''template'' min1_string m;
     f \<leftarrow> optional ''fromOutput'' min1_string m;
     (case (t, f) of
        (Some u, None) \<Rightarrow> Some (Url_template u)
      | (None, Some u) \<Rightarrow> Some (Url_from_output u)
      | _ \<Rightarrow> None) }"
| "DescriptorUrlSchema _ = None"

definition DockerProvisionDescriptorSchema :: "json jmap \<Rightarrow> docker_descriptor option" where
  "DockerProvisionDescriptorSchema m = do {
     strict [''schemaVersion'', ''kind'', ''composeFile'', ''service'', ''initService'', ''portEnvVar'', ''migration'',
       ''connection'', ''url'', ''assignedContainerId'', ''env'', ''healthcheck''] m;
     cf \<leftarrow> required ''composeFile'' min1_string m;
     sv \<leftarrow> required ''service'' min1_string m;
     ini \<leftarrow> optional ''initService'' min1_string m;
     pe \<leftarrow> optional ''portEnvVar'' min1_string m;
     mg \<leftarrow> optional ''migration'' DockerMigrationSchema m;
     cn \<leftarrow> optional ''connection'' template_object m;
     u \<leftarrow> optional ''url'' DescriptorUrlSchema m;
     ac \<leftarrow> optional ''assignedContainerId'' min1_string m;
     e \<leftarrow> optional ''env'' string_record m;
     h \<leftarrow> optional ''healthcheck'' any_bool m;
     Some \<lparr>composeFile = cf, service = sv, initService = ini, portEnvVar = pe, migration = mg, connection = cn,
       docker_url = u, assignedContainerId = ac, docker_env = e, healthcheck = h\<rparr> }"

definition ProcessProvisionDescriptorSchema :: "json jmap \<Rightarrow> process_descriptor option" where
  "ProcessProvisionDescriptorSchema m = do {
     strict [''schemaVersion'', ''kind'', ''command'', ''env'', ''envFile'', ''cwd'', ''setup'', ''dependsOn'', ''url'',
       ''shell''] m;
     c \<leftarrow> required ''command'' min1_string m;
     e \<leftarrow> optional ''env'' string_record m;
     ef \<leftarrow> optional ''envFile'' min1_string m;
     w \<leftarrow> optional ''cwd'' min1_string m;
     st \<leftarrow> optional ''setup'' min1_string m;
     d \<leftarrow> optional ''dependsOn'' string_array m;
     u \<leftarrow> optional ''url'' template_object m;
     sh \<leftarrow> optional ''shell'' ShellSchema m;
     Some \<lparr>process_command = c, process_env = e, process_envFile = ef, process_cwd = w, process_setup = st,
       process_dependsOn = d, process_url = u, process_shell = sh\<rparr> }"

definition OneshotProvisionDescriptorSchema :: "json jmap \<Rightarrow> oneshot_descriptor option" where
  "OneshotProvisionDescriptorSchema m = do {
     strict [''schemaVersion'', ''kind'', ''command'', ''env'', ''envFile'', ''cwd'', ''dependsOn'', ''timeoutMs'',
       ''url'', ''shell''] m;
     c \<leftarrow> required ''command'' min1_string m;
     e \<leftarrow> optional ''env'' string_record m;
     ef \<leftarrow> optional ''envFile'' min1_string m;
     w \<leftarrow> optional ''cwd'' min1_string m;
     d \<leftarrow> optional ''dependsOn'' string_array m;
     t \<leftarrow> optional ''timeoutMs'' positive_int m;
     u \<leftarrow> optional ''url'' DescriptorUrlSchema m;
     sh \<leftarrow> optional ''shell'' ShellSchema m;
     Some \<lparr>oneshot_command = c, oneshot_env = e, oneshot_envFile = ef, oneshot_cwd = w, oneshot_dependsOn = d,
       timeoutMs = t, oneshot_url = u, oneshot_shell = sh\<rparr> }"

text \<open>The union is discriminated on \<open>kind\<close>; every member carries the version literal.\<close>

fun ProvisionDescriptorSchema :: "json \<Rightarrow> provision_descriptor option" where
  "ProvisionDescriptorSchema (JObj m) =
     (if map_of m ''schemaVersion'' \<noteq> Some (JNum SUPPORTED_PROVISION_SCHEMA_VERSION) then None
      else if map_of m ''kind'' = Some (JStr ''docker'') then map_option Docker (DockerProvisionDescriptorSchema m)
      else if map_of m ''kind'' = Some (JStr ''process'') then map_option Process (ProcessProvisionDescriptorSchema m)
      else if map_of m ''kind'' = Some (JStr ''oneshot'') then map_option Oneshot (OneshotProvisionDescriptorSchema m)
      else None)"
| "ProvisionDescriptorSchema _ = None"

end
