(* ===== verification/Exec.thy ===== *)
theory Exec
  imports ProjectConfig StateStore
begin

section \<open>How a configured command line is spawned\<close>

text \<open>
  \<open>server/services/exec.ts\<close>: the tokenizer \<open>parseCommand\<close>, the resolution of a command and its
  \<open>shell\<close> setting to an executable with arguments, and the hint for a command that carries shell
  syntax. Spawning itself (\<open>runCommand\<close>) is not modelled.
\<close>

subsection \<open>The tokenizer\<close>

record parse_state =
  parsed :: "string list"
  current :: string
  inQuote :: "char option"

definition parse_char :: "char \<Rightarrow> parse_state \<Rightarrow> parse_state" where
  "parse_char c s =
     (case inQuote s of
        Some q \<Rightarrow> if c = q then s\<lparr>inQuote := None\<rparr> else s\<lparr>current := current s @ [c]\<rparr>
      | None \<Rightarrow>
          if c = dquote \<or> c = squote then s\<lparr>inQuote := Some c\<rparr>
          else if is_ws c
          then (if current s \<noteq> [] then s\<lparr>parsed := parsed s @ [current s], current := []\<rparr> else s)
          else s\<lparr>current := current s @ [c]\<rparr>)"

definition parse_start :: parse_state where
  "parse_start = \<lparr>parsed = [], current = [], inQuote = None\<rparr>"

definition parseCommand :: "string \<Rightarrow> string list" where
  "parseCommand command =
     (let s = fold parse_char command parse_start
      in if current s \<noteq> [] then parsed s @ [current s] else parsed s)"

subsection \<open>Resolving a spawn\<close>

definition safe_shell :: "string \<Rightarrow> bool" where
  "safe_shell s =
     ((starts_with [slash] s \<and> 2 \<le> length s
         \<and> list_all (\<lambda>c. is_word_char c \<or> c \<in> {CHR ''.'', slash, CHR ''-''}) (tl s))
      \<or> (s \<noteq> [] \<and> list_all (\<lambda>c. is_word_char c \<or> c \<in> {CHR ''.'', CHR ''-''}) s))"

record spawn_spec =
  spawn_file :: string
  spawn_args :: "string list"

definition resolveSpawn :: "string \<Rightarrow> shell_setting option \<Rightarrow> string + spawn_spec" where
  "resolveSpawn command shell =
     (case shell of
        Some (Shell_flag True) \<Rightarrow> Inr \<lparr>spawn_file = ''/bin/sh'', spawn_args = [''-c'', command]\<rparr>
      | Some (Shell_cmd sh) \<Rightarrow>
          (case parseCommand sh of
             [] \<Rightarrow> Inl (''shell is empty: expected a shell invocation such as '' @ quoted ''zsh -i'')
           | exe # rest \<Rightarrow>
               if \<not> safe_shell exe
               then Inl (''shell '' @ quoted exe @ '' is not a usable shell: expected an absolute path (/bin/zsh) or a bare command name (zsh).'')
               else Inr \<lparr>spawn_file = exe, spawn_args = rest @ [''-c'', command]\<rparr>)
      | _ \<Rightarrow>
          (case parseCommand command of
             [] \<Rightarrow> Inr \<lparr>spawn_file = [], spawn_args = []\<rparr>
           | exe # rest \<Rightarrow> Inr \<lparr>spawn_file = exe, spawn_args = rest\<rparr>))"

subsection \<open>The hint for shell syntax\<close>

definition shell_metachar :: "char \<Rightarrow> bool" where
  "shell_metachar c = (c \<in> set ''&|;<>$`*?(){}[]~'' \<or> c = newline)"

text \<open>The leftmost match: \<open>cd\<close> and a blank at the start, or else the first metacharacter.\<close>

definition shell_match :: "string \<Rightarrow> string option" where
  "shell_match command =
     (if starts_with ''cd'' command \<and> 3 \<le> length command \<and> is_ws (command ! 2) then Some (take 3 command)
      else map_option (\<lambda>c. [c]) (find shell_metachar command))"

definition shellHintForCommand :: "string \<Rightarrow> string option" where
  "shellHintForCommand command =
     map_option (\<lambda>m. ''The command contains '' @ quoted (trim m)
         @ '', which is shell syntax. Commands run as argv by default, so it was passed through as a literal argument rather than interpreted. Add ''
         @ quoted ''shell: true'' @ '' to run it through /bin/sh, or '' @ quoted ''shell: zsh -i''
         @ '' to run it through an interactive shell (needed for rc-defined tools such as nvm).'')
       (shell_match command)"

subsection \<open>What the tokenizer returns\<close>

definition plain_char :: "char \<Rightarrow> bool" where
  "plain_char c = (\<not> is_ws c \<and> c \<noteq> dquote \<and> c \<noteq> squote)"

text \<open>A word as it is written: bare, or between double quotes.\<close>

datatype written = Bare string | Double_quoted string

fun word_of :: "written \<Rightarrow> string" where
  "word_of (Bare w) = w"
| "word_of (Double_quoted w) = w"

fun write_word :: "written \<Rightarrow> string" where
  "write_word (Bare w) = w"
| "write_word (Double_quoted w) = [dquote] @ w @ [dquote]"

fun written_ok :: "written \<Rightarrow> bool" where
  "written_ok (Bare w) = (w \<noteq> [] \<and> list_all plain_char w)"
| "written_ok (Double_quoted w) = (w \<noteq> [] \<and> dquote \<notin> set w)"

lemma parse_bare: "list_all plain_char w \<Longrightarrow> inQuote s = None \<Longrightarrow>
    fold parse_char w s = s\<lparr>current := current s @ w\<rparr>"
  by (induction w arbitrary: s) (auto simp: parse_char_def plain_char_def)

lemma parse_in_quotes: "q \<notin> set w \<Longrightarrow> inQuote s = Some q \<Longrightarrow>
    fold parse_char w s = s\<lparr>current := current s @ w\<rparr>"
  by (induction w arbitrary: s) (auto simp: parse_char_def)

lemma parse_word:
  assumes "written_ok w" and "inQuote s = None"
  shows "fold parse_char (write_word w) s = s\<lparr>current := current s @ word_of w\<rparr>"
proof (cases w)
  case (Bare x)
  with assms show ?thesis by (simp add: parse_bare)
next
  case (Double_quoted x)
  let ?t = "s\<lparr>inQuote := Some dquote\<rparr>"
  have "fold parse_char x ?t = ?t\<lparr>current := current ?t @ x\<rparr>"
    using assms(1) Double_quoted by (intro parse_in_quotes [of dquote]) simp_all
  with Double_quoted assms(2) show ?thesis by (simp add: parse_char_def)
qed

lemma parse_words:
  assumes "list_all written_ok (w # ws)" and "inQuote s = None" and "current s = []"
  shows "fold parse_char (join_with '' '' (map write_word (w # ws))) s
    = s\<lparr>parsed := parsed s @ butlast (map word_of (w # ws)), current := word_of (last (w # ws))\<rparr>"
  using assms
proof (induction ws arbitrary: w s)
  case Nil
  then show ?case by (simp add: parse_word)
next
  case (Cons v ws)
  have ne: "word_of w \<noteq> []" using Cons.prems(1) by (cases w) auto
  let ?s = "s\<lparr>current := word_of w\<rparr>" and ?t = "s\<lparr>parsed := parsed s @ [word_of w]\<rparr>"
  have w: "fold parse_char (write_word w) s = ?s" using parse_word [of w s] Cons.prems by simp
  have b: "fold parse_char '' '' ?s = ?t" using ne Cons.prems(2,3) by (simp add: parse_char_def is_ws_def)
  have "fold parse_char (join_with '' '' (map write_word (w # v # ws))) s
      = fold parse_char (join_with '' '' (map write_word (v # ws))) ?t"
    using w b by simp
  also have "\<dots> = ?t\<lparr>parsed := parsed ?t @ butlast (map word_of (v # ws)), current := word_of (last (v # ws))\<rparr>"
    by (rule Cons.IH) (use Cons.prems in simp_all)
  finally show ?case by simp
qed

lemma written_nonempty: "written_ok w \<Longrightarrow> word_of w \<noteq> []"
  by (cases w) auto

lemma last_word: "word_of (last (w # ws)) = last (map word_of (w # ws))"
  by (simp only: last_map list.distinct not_False_eq_True)

lemma parse_line:
  assumes "list_all written_ok (w # ws)"
  shows "fold parse_char (join_with '' '' (map write_word (w # ws))) parse_start
      = \<lparr>parsed = butlast (map word_of (w # ws)), current = last (map word_of (w # ws)), inQuote = None\<rparr>"
    and "last (map word_of (w # ws)) \<noteq> []"
proof -
  show "fold parse_char (join_with '' '' (map write_word (w # ws))) parse_start
      = \<lparr>parsed = butlast (map word_of (w # ws)), current = last (map word_of (w # ws)), inQuote = None\<rparr>"
  proof -
    have "inQuote parse_start = None" "current parse_start = []" by (simp_all add: parse_start_def)
    from parse_words [OF assms this] show ?thesis
      unfolding last_word by (simp only: parse_start_def parse_state.simps append_Nil)
  qed
  have "last (w # ws) \<in> set (w # ws)" by simp
  then have "written_ok (last (w # ws))" using assms by (simp only: list_all_iff)
  then show "last (map word_of (w # ws)) \<noteq> []" unfolding last_word [symmetric] by (rule written_nonempty)
qed

lemma parseCommand_written:
  assumes "list_all written_ok (w # ws)"
  shows "parseCommand (join_with '' '' (map write_word (w # ws))) = map word_of (w # ws)"
proof -
  have "map word_of (w # ws) \<noteq> []" by simp
  then show ?thesis
    using parse_line [OF assms] append_butlast_last_id [of "map word_of (w # ws)"]
    by (simp only: parseCommand_def Let_def parse_state.simps if_True simp_thms)
qed

lemma parseCommand_empty_argument:
  assumes "list_all written_ok (w # ws)"
  shows "parseCommand (join_with '' '' (map write_word (w # ws)) @ '' '' @ [dquote, dquote]) = map word_of (w # ws)"
proof -
  let ?l = "map word_of (w # ws)"
  have "fold parse_char ('' '' @ [dquote, dquote]) \<lparr>parsed = butlast ?l, current = last ?l, inQuote = None\<rparr>
      = \<lparr>parsed = butlast ?l @ [last ?l], current = [], inQuote = None\<rparr>"
    using parse_line(2) [OF assms] by (simp add: parse_char_def is_ws_def)
  then have "fold parse_char (join_with '' '' (map write_word (w # ws)) @ '' '' @ [dquote, dquote]) parse_start
      = \<lparr>parsed = ?l, current = [], inQuote = None\<rparr>"
    unfolding fold_append comp_def parse_line(1) [OF assms] by (simp del: list.map)
  then show ?thesis by (simp add: parseCommand_def)
qed

subsection \<open>Properties\<close>

text \<open>
  A command line written as words, each bare or between double quotes and none of them empty,
  is spawned as exactly those words: the tokenizer undoes the quoting and splits nothing else. An
  empty argument written as a pair of quotes is dropped: the same words come back.
\<close>

theorem parseCommand_roundtrip:
  assumes "list_all written_ok (w # ws)" and "shell = None \<or> shell = Some (Shell_flag False)"
  shows "resolveSpawn (join_with '' '' (map write_word (w # ws))) shell
      = Inr \<lparr>spawn_file = word_of w, spawn_args = map word_of ws\<rparr>
    \<and> parseCommand (join_with '' '' (map write_word (w # ws)) @ '' '' @ [dquote, dquote]) = map word_of (w # ws)"
  using assms(2) parseCommand_written [OF assms(1)] parseCommand_empty_argument [OF assms(1)]
  by (auto simp del: join_with.simps simp: resolveSpawn_def)

theorem parseCommand_roundtrip_witness:
  "resolveSpawn (''echo '' @ [dquote] @ ''a b'' @ [dquote]) None
     = Inr \<lparr>spawn_file = ''echo'', spawn_args = [''a b'']\<rparr>"
  using parseCommand_roundtrip [of "Bare ''echo''" "[Double_quoted ''a b'']" None]
  by (simp add: plain_char_def is_ws_def)

end
