(* ===== verification/Templates.thy ===== *)
theory Templates
  imports Ports StateStore
begin

section \<open>Template strings and the template context\<close>

text \<open>
  \<open>server/services/config-parser.ts\<close>: the substitution of \<open>{{...}}\<close> expressions, the context a
  bench resolves them in, the overlays of assigned containers and reported addresses, and the
  checks on keys of an older configuration format. Parsing YAML, reading the file and the zod
  validation are not modelled. The scan follows the expression \<open>\{\{([^}]+)\}\}\<close>: an opening pair
  of braces, at least one character that is not a closing brace, and a closing pair.
\<close>

subsection \<open>Substitution\<close>

abbreviation lbrace :: char where "lbrace \<equiv> CHR 0x7B"
abbreviation rbrace :: char where "rbrace \<equiv> CHR 0x7D"

definition not_rbrace :: "char \<Rightarrow> bool" where
  "not_rbrace c = (c \<noteq> rbrace)"

function subst_braces :: "(string \<Rightarrow> string) \<Rightarrow> string \<Rightarrow> string" where
  "subst_braces f s =
     (case s of
        [] \<Rightarrow> []
      | c # cs \<Rightarrow>
          (let inner = takeWhile not_rbrace (drop 2 s); rest = dropWhile not_rbrace (drop 2 s)
           in if starts_with [lbrace, lbrace] s \<and> inner \<noteq> [] \<and> starts_with [rbrace, rbrace] rest
              then f inner @ subst_braces f (drop 2 rest)
              else c # subst_braces f cs))"
  by pat_completeness auto

termination
proof (relation "measure (\<lambda>(f, s). length s)", goal_cases)
  case (2 f s c cs inner rest)
  have "length rest \<le> length (drop 2 s)" unfolding 2(3) by (rule length_dropWhile_le)
  with 2(1) show ?case by simp
qed auto

declare subst_braces.simps [simp del]

subsection \<open>The context\<close>

record template_context =
  ctx_ports :: "int jmap"
  ctx_portHttps :: "bool jmap"
  ctx_workspace :: string
  ctx_connections :: "string option jmap"
  ctx_urls :: "string jmap option"
  ctx_user :: "string jmap option"
  ctx_sessionId :: "string option"
  ctx_port :: "string option"
  ctx_notifier :: "string option"
  ctx_notifierCommand :: "string option"

text \<open>How a member inherited from \<open>Object.prototype\<close> prints.\<close>

definition member_text :: "string \<Rightarrow> string" where
  "member_text k =
     (if k = ''__proto__'' then ''[object Object]''
      else ''function '' @ (if k = ''constructor'' then ''Object'' else k) @ ''() { [native code] }'')"

definition port_text :: "template_context \<Rightarrow> string \<Rightarrow> string option" where
  "port_text ctx k = (case js_get (ctx_ports ctx) k of
     Own p \<Rightarrow> Some (int_str p) | Inherited \<Rightarrow> Some (member_text k) | Absent \<Rightarrow> None)"

definition https_of :: "template_context \<Rightarrow> string \<Rightarrow> bool" where
  "https_of ctx k = (case js_get (ctx_portHttps ctx) k of Own v \<Rightarrow> v | Inherited \<Rightarrow> True | Absent \<Rightarrow> False)"

text \<open>The reported address of a component; an empty one does not count.\<close>

definition reported_url :: "template_context \<Rightarrow> string \<Rightarrow> string option" where
  "reported_url ctx k =
     (case ctx_urls ctx of
        None \<Rightarrow> None
      | Some m \<Rightarrow> (case js_get m k of
            Own u \<Rightarrow> if u \<noteq> [] then Some u else None | Inherited \<Rightarrow> Some (member_text k) | Absent \<Rightarrow> None))"

definition unresolved_text :: "string \<Rightarrow> string" where
  "unresolved_text key = [lbrace, lbrace] @ key @ [rbrace, rbrace]"

definition resolve_url :: "template_context \<Rightarrow> string \<Rightarrow> string option" where
  "resolve_url ctx k =
     (case reported_url ctx k of
        Some u \<Rightarrow> Some u
      | None \<Rightarrow> map_option (\<lambda>p. (if https_of ctx k then ''https'' else ''http'') @ ''://localhost:'' @ p)
                  (port_text ctx k))"

text \<open>The launch variables, present only while an agent is launched.\<close>

definition launch_variable :: "template_context \<Rightarrow> string \<Rightarrow> string option" where
  "launch_variable ctx key =
     (if key = ''sessionId'' then ctx_sessionId ctx
      else if key = ''port'' then ctx_port ctx
      else if key = ''notifier'' then ctx_notifier ctx
      else if key = ''notifierCommand'' then ctx_notifierCommand ctx
      else None)"

definition resolve_key :: "template_context \<Rightarrow> string \<Rightarrow> string" where
  "resolve_key ctx expr =
     (let key = trim expr in
      if starts_with ''ports.'' key then coalesce (port_text ctx (drop 6 key)) (unresolved_text key)
      else if starts_with ''urls.'' key then coalesce (resolve_url ctx (drop 5 key)) (unresolved_text key)
      else if key = ''workspace'' then ctx_workspace ctx
      else if launch_variable ctx key \<noteq> None then the (launch_variable ctx key)
      else if starts_with ''user.'' key
      then (case ctx_user ctx of
              None \<Rightarrow> []
            | Some m \<Rightarrow> (case js_get m (drop 5 key) of
                  Own v \<Rightarrow> v | Inherited \<Rightarrow> member_text (drop 5 key) | Absent \<Rightarrow> []))
      else (case split_on CHR ''.'' key of
              [a, name, b] \<Rightarrow>
                if a = ''components'' \<and> b = ''connection''
                then (case js_get (ctx_connections ctx) name of Own (Some s) \<Rightarrow> s | _ \<Rightarrow> [])
                else unresolved_text key
            | _ \<Rightarrow> unresolved_text key))"

definition resolveTemplate :: "string \<Rightarrow> template_context \<Rightarrow> string" where
  "resolveTemplate template ctx = subst_braces (resolve_key ctx) template"

definition stripSurroundingQuotes :: "string \<Rightarrow> string" where
  "stripSurroundingQuotes v =
     (if 2 \<le> length v \<and> ((hd v = dquote \<and> last v = dquote) \<or> (hd v = squote \<and> last v = squote))
      then butlast (tl v) else v)"

definition resolveServiceEnv :: "string jmap \<Rightarrow> template_context \<Rightarrow> string jmap" where
  "resolveServiceEnv env ctx = map (\<lambda>(k, v). (k, stripSurroundingQuotes (resolveTemplate v ctx))) env"

definition readConnectionTemplate :: "component_config \<Rightarrow> string option" where
  "readConnectionTemplate c =
     (case Option.bind (config_block c) (\<lambda>m. map_of m ''connection'') of
        Some (JObj ob) \<Rightarrow>
          (case map_of ob ''template'' of Some (JStr t) \<Rightarrow> Some t | _ \<Rightarrow> legacy_connection c)
      | _ \<Rightarrow> legacy_connection c)"

definition plain_context :: "int jmap \<Rightarrow> bool jmap \<Rightarrow> string \<Rightarrow> string option jmap \<Rightarrow> template_context" where
  "plain_context ports secure ws conns = \<lparr>ctx_ports = ports, ctx_portHttps = secure, ctx_workspace = ws,
     ctx_connections = conns, ctx_urls = None, ctx_user = None, ctx_sessionId = None, ctx_port = None,
     ctx_notifier = None, ctx_notifierCommand = None\<rparr>"

definition buildTemplateContext :: "roubo_config \<Rightarrow> int \<Rightarrow> string \<Rightarrow> template_context" where
  "buildTemplateContext c benchNumber ws =
     (let ports = allocatePorts c benchNumber;
          secure = map (\<lambda>(n, p). (n, coalesce (https p) False)) (cfg_ports c)
      in plain_context ports secure ws
           (map (\<lambda>(n, cc). (n, if truthy (readConnectionTemplate cc)
              then Some (resolveTemplate (the (readConnectionTemplate cc)) (plain_context ports secure ws []))
              else None)) (cfg_components c)))"

definition applyContainerOverrides :: "template_context \<Rightarrow> int jmap option \<Rightarrow> template_context" where
  "applyContainerOverrides ctx assigned =
     (case assigned of
        None \<Rightarrow> ctx
      | Some m \<Rightarrow> ctx\<lparr>ctx_ports := fold (\<lambda>(svc, port). jput svc port) m (ctx_ports ctx)\<rparr>)"

definition applyComponentUrlOverrides :: "template_context \<Rightarrow> component_status jmap option \<Rightarrow> template_context" where
  "applyComponentUrlOverrides ctx cs =
     (case cs of
        None \<Rightarrow> ctx
      | Some m \<Rightarrow> fold (\<lambda>(name, s) c. if truthy (comp_url s)
            then c\<lparr>ctx_urls := Some (jput name (the (comp_url s)) (coalesce (ctx_urls c) []))\<rparr> else c) m ctx)"

fun resolveConfigTemplates :: "template_context \<Rightarrow> json \<Rightarrow> json" where
  "resolveConfigTemplates ctx (JStr s) = JStr (resolveTemplate s ctx)"
| "resolveConfigTemplates ctx (JArr xs) = JArr (map (resolveConfigTemplates ctx) xs)"
| "resolveConfigTemplates ctx (JObj m) = JObj (map (\<lambda>(k, v). (k, resolveConfigTemplates ctx v)) m)"
| "resolveConfigTemplates ctx v = v"

subsection \<open>Keys of older formats\<close>

definition stripRemovedProjectType :: "json \<Rightarrow> json" where
  "stripRemovedProjectType raw =
     (case raw of
        JObj m \<Rightarrow> (case map_of m ''project'' of
            Some (JObj p) \<Rightarrow> JObj (jput ''project'' (JObj (jdel ''type'' p)) m)
          | _ \<Rightarrow> raw)
      | _ \<Rightarrow> raw)"

definition stripRemovedInspection :: "json \<Rightarrow> json" where
  "stripRemovedInspection raw = (case raw of JObj m \<Rightarrow> JObj (jdel ''inspection'' m) | _ \<Rightarrow> raw)"

datatype legacy_key = Legacy_blueprints | Legacy_blueprint_settings

definition detectLegacyJigKeys :: "json \<Rightarrow> legacy_key option" where
  "detectLegacyJigKeys raw =
     (case raw of
        JObj m \<Rightarrow>
          if jhas m ''blueprints'' then Some Legacy_blueprints
          else (case map_of m ''project'' of
                  Some (JObj p) \<Rightarrow> if jhas p ''blueprintSettings'' then Some Legacy_blueprint_settings else None
                | _ \<Rightarrow> None)
      | _ \<Rightarrow> None)"

text \<open>\<open>validateConfigObject\<close>: what the schema is given, or the legacy key it is refused for.\<close>

definition validateConfigObject :: "json \<Rightarrow> legacy_key + json" where
  "validateConfigObject raw =
     (let stripped = stripRemovedInspection (stripRemovedProjectType raw)
      in case detectLegacyJigKeys stripped of Some k \<Rightarrow> Inl k | None \<Rightarrow> Inr stripped)"

subsection \<open>What substitution does\<close>

lemma subst_plain: "lbrace \<notin> set s \<Longrightarrow> subst_braces f s = s"
proof (induction s)
  case Nil
  show ?case by (subst subst_braces.simps) simp
next
  case (Cons c s)
  then have "\<not> starts_with [lbrace, lbrace] (c # s)" by (auto simp: starts_with_def)
  with Cons show ?case by (subst subst_braces.simps) (simp add: Let_def)
qed

lemma subst_plain_append: "lbrace \<notin> set a \<Longrightarrow> subst_braces f (a @ s) = a @ subst_braces f s"
proof (induction a)
  case (Cons c a)
  then have "\<not> starts_with [lbrace, lbrace] ((c # a) @ s)" by (auto simp: starts_with_def)
  with Cons show ?case by (subst subst_braces.simps) (simp add: Let_def)
qed simp

lemma subst_expr:
  assumes "k \<noteq> []" and "rbrace \<notin> set k"
  shows "subst_braces f ([lbrace, lbrace] @ k @ [rbrace, rbrace] @ s) = f k @ subst_braces f s"
proof -
  have k: "\<forall>c \<in> set k. not_rbrace c" using assms(2) by (auto simp: not_rbrace_def)
  then have "takeWhile not_rbrace (k @ rbrace # rbrace # s) = k"
    "dropWhile not_rbrace (k @ rbrace # rbrace # s) = rbrace # rbrace # s"
    by (simp_all add: takeWhile_append2 dropWhile_append2 not_rbrace_def)
  with assms(1) show ?thesis by (subst subst_braces.simps) (simp add: Let_def starts_with_def)
qed

text \<open>A template as it is written: text without an opening brace, and expressions.\<close>

datatype segment = Text string | Expr string

fun segment_ok :: "segment \<Rightarrow> bool" where
  "segment_ok (Text a) = (lbrace \<notin> set a)"
| "segment_ok (Expr k) = (k \<noteq> [] \<and> rbrace \<notin> set k)"

fun write_segment :: "segment \<Rightarrow> string" where
  "write_segment (Text a) = a"
| "write_segment (Expr k) = [lbrace, lbrace] @ k @ [rbrace, rbrace]"

fun eval_segment :: "(string \<Rightarrow> string) \<Rightarrow> segment \<Rightarrow> string" where
  "eval_segment f (Text a) = a"
| "eval_segment f (Expr k) = f k"

lemma subst_segments: "list_all segment_ok ss \<Longrightarrow>
    subst_braces f (concat (map write_segment ss)) = concat (map (eval_segment f) ss)"
proof (induction ss)
  case Nil
  show ?case by (simp add: subst_plain)
next
  case (Cons s ss)
  then show ?case
    using subst_expr [of _ f "concat (map write_segment ss)"] by (cases s) (simp_all add: subst_plain_append)
qed

definition tight :: "string \<Rightarrow> bool" where
  "tight s = (s = [] \<or> (\<not> is_ws (hd s) \<and> \<not> is_ws (last s)))"

lemma trim_tight: "tight s \<Longrightarrow> trim s = s"
proof (cases s rule: rev_cases)
  case (snoc xs x)
  assume t: "tight s"
  moreover obtain c cs where c: "s = c # cs" using snoc by (metis append_is_Nil_conv neq_Nil_conv)
  ultimately have "dropWhile is_ws s = s" by (simp add: tight_def)
  moreover have "dropWhile is_ws (rev s) = rev s" using t snoc by (auto simp: tight_def)
  ultimately show ?thesis by (simp add: trim_def)
qed (simp add: trim_def)

lemma resolve_port_key:
  assumes "tight (''ports.'' @ n)" and "map_of (ctx_ports ctx) n = Some p"
  shows "resolve_key ctx (''ports.'' @ n) = int_str p"
  using trim_tight [OF assms(1)] assms(2)
  by (simp add: resolve_key_def Let_def starts_with_def port_text_def js_get_def)

lemma map_of_allocatePorts: "map_of (allocatePorts c n) k = map_option (\<lambda>p. base p + (n - 1)) (map_of (cfg_ports c) k)"
  unfolding allocatePorts_def by (rule map_of_map_snd)

lemma ctx_ports_build [simp]: "ctx_ports (buildTemplateContext c n ws) = allocatePorts c n"
  by (simp add: buildTemplateContext_def plain_context_def Let_def)

subsection \<open>Properties\<close>

text \<open>
  Resolving a template replaces every expression by its value and keeps the text between, in
  order and without rescanning what a value expands to; and in a bench's context the expression for
  a configured port is the number this bench was allocated.
\<close>

theorem resolveTemplate_segments:
  assumes "list_all segment_ok ss"
  shows "resolveTemplate (concat (map write_segment ss)) ctx = concat (map (eval_segment (resolve_key ctx)) ss)
    \<and> (\<forall>name p n c ws. tight (''ports.'' @ name) \<longrightarrow> map_of (cfg_ports c) name = Some p
         \<longrightarrow> resolve_key (buildTemplateContext c n ws) (''ports.'' @ name) = int_str (base p + (n - 1)))"
  using subst_segments [OF assms] resolve_port_key
  by (simp add: resolveTemplate_def map_of_allocatePorts)

theorem resolveTemplate_segments_witness:
  "resolveTemplate (''-p '' @ write_segment (Expr ''ports.web''))
     (buildTemplateContext (sample_config ''a'' [(''web'', 4000)] 3) 2 ''/w'') = ''-p 4001''"
proof -
  let ?ctx = "buildTemplateContext (sample_config ''a'' [(''web'', 4000)] 3) 2 ''/w''"
  have ok: "list_all segment_ok [Text ''-p '', Expr ''ports.web'']" by simp
  note r = resolveTemplate_segments [OF ok]
  have "resolve_key ?ctx (''ports.'' @ ''web'') = int_str (4000 + (2 - 1))"
    using r [THEN conjunct2, rule_format, of "''web''" "sample_config ''a'' [(''web'', 4000)] 3"
      "\<lparr>base = 4000, https = None\<rparr>" 2 "''/w''"]
    by (simp add: sample_defs tight_def is_ws_def)
  moreover have "int_str (4000 + (2 - 1)) = ''4001''"
    by (simp add: int_str_def nat_str.simps digit_char_def char_of_def bit_Suc bit_0)
  ultimately show ?thesis using r [THEN conjunct1, of ?ctx] by simp
qed

end
