(* ===== verification/HostEnv.thy ===== *)
theory HostEnv
  imports Exec Templates "HOL-Library.Sublist"
begin

section \<open>The environment of the server and the commands it finds\<close>

text \<open>
  \<open>server/services/env.ts\<close>: the login shell, the import of its environment at boot, the \<open>.env\<close> file,
  the environment handed to children, and the resolution of an agent command line tool. The
  process environment is an ordered map and is passed in and returned. The home directory, which
  paths exist, which are executable files and what running a shell answers are parameters. Paths
  are POSIX paths, with \<open>path.join\<close> and \<open>path.basename\<close> of the standard library written out.
\<close>

subsection \<open>Paths\<close>

definition is_absolute :: "string \<Rightarrow> bool" where
  "is_absolute p = starts_with [slash] p"

text \<open>The segments of a path after \<open>.\<close> and \<open>..\<close> are resolved; the stack is reversed.\<close>

definition push_segment :: "bool \<Rightarrow> string \<Rightarrow> string list \<Rightarrow> string list" where
  "push_segment absolute seg stack =
     (if seg = [] \<or> seg = ''.'' then stack
      else if seg = ''..'' then
        (case stack of
           [] \<Rightarrow> if absolute then [] else [''..'']
         | s # rest \<Rightarrow> if s = ''..'' then ''..'' # stack else rest)
      else seg # stack)"

definition normalize_path :: "string \<Rightarrow> string" where
  "normalize_path p =
     (let absolute = is_absolute p;
          body = join_with [slash] (rev (fold (push_segment absolute) (split_on slash p) []));
          tail_slash = (p \<noteq> [] \<and> last p = slash)
      in if body = [] then (if absolute then [slash] else if tail_slash then ''./'' else ''.'')
         else (if absolute then [slash] else []) @ body @ (if tail_slash then [slash] else []))"

definition posix_join :: "string list \<Rightarrow> string" where
  "posix_join ps =
     (let joined = join_with [slash] (filter (\<lambda>p. p \<noteq> []) ps)
      in if joined = [] then ''.'' else normalize_path joined)"

definition posix_basename :: "string \<Rightarrow> string" where
  "posix_basename p = (case filter (\<lambda>s. s \<noteq> []) (split_on slash p) of [] \<Rightarrow> [] | w # ws \<Rightarrow> last (w # ws))"

subsection \<open>The login shell\<close>

definition safe_shell_path :: "string \<Rightarrow> bool" where
  "safe_shell_path s = (starts_with [slash] s \<and> 2 \<le> length s
     \<and> list_all (\<lambda>c. is_word_char c \<or> c \<in> {CHR ''.'', slash, CHR ''-''}) (tl s))"

definition getLoginShell :: "string jmap \<Rightarrow> string" where
  "getLoginShell env = (case map_of env ''SHELL'' of
     Some sh \<Rightarrow> if safe_shell_path sh then sh else ''/bin/sh'' | None \<Rightarrow> ''/bin/sh'')"

definition loginShellScriptArgs :: "string jmap \<Rightarrow> string \<Rightarrow> string list" where
  "loginShellScriptArgs env script =
     [if posix_basename (getLoginShell env) = ''zsh'' then ''-ilc'' else ''-lc'', script]"

subsection \<open>The environment file\<close>

definition env_entry :: "string \<Rightarrow> (string \<times> string) option" where
  "env_entry raw =
     (let line = trim raw in
      if line = [] \<or> starts_with ''#'' line then None
      else case index_of CHR ''='' line of
             None \<Rightarrow> None
           | Some i \<Rightarrow> (let key = trim (take i line) in
               if key = [] then None else Some (key, trim (drop (Suc i) line))))"

definition parseEnvFile :: "string option \<Rightarrow> (string \<times> string) list" where
  "parseEnvFile contents =
     (case contents of None \<Rightarrow> [] | Some t \<Rightarrow> List.map_filter env_entry (split_on newline t))"

definition getEnvFileKeys :: "string option \<Rightarrow> string list" where
  "getEnvFileKeys contents = map fst (parseEnvFile contents)"

definition set_missing :: "string \<Rightarrow> string \<Rightarrow> string jmap \<Rightarrow> string jmap" where
  "set_missing k v env = (if js_get env k = Absent then jput k v env else env)"

definition loadEnvFile :: "string option \<Rightarrow> string jmap \<Rightarrow> string jmap" where
  "loadEnvFile contents env =
     fold (\<lambda>(k, raw). set_missing k (stripSurroundingQuotes raw)) (parseEnvFile contents) env"

definition cleanEnv :: "string jmap \<Rightarrow> string jmap" where
  "cleanEnv env = filter (\<lambda>(k, v). \<not> starts_with ''ROUBO_'' k) env"

subsection \<open>The import of the login shell's environment\<close>

datatype shell_run = Shell_output string | Shell_failed bool string

datatype import_status = Import_not_run | Import_ok | Import_failed bool string int string

definition LOGIN_SHELL_IMPORT_TIMEOUT_MS :: int where
  "LOGIN_SHELL_IMPORT_TIMEOUT_MS = 15000"

definition LOGIN_SHELL_IMPORT_ATTEMPTS :: nat where
  "LOGIN_SHELL_IMPORT_ATTEMPTS = 2"

definition WELL_KNOWN_CLI_DIRS_DARWIN :: "string list" where
  "WELL_KNOWN_CLI_DIRS_DARWIN = [''/Applications/Visual Studio Code.app/Contents/Resources/app/bin'']"

definition env_key_ok :: "string \<Rightarrow> bool" where
  "env_key_ok k = (k \<noteq> [] \<and> list_all is_word_char k \<and> \<not> (let n = (of_char (hd k) :: nat) in 48 \<le> n \<and> n \<le> 57))"

text \<open>Only a timeout is retried; the result of the last attempt made is the outcome.\<close>

fun run_attempts :: "(nat \<Rightarrow> shell_run) \<Rightarrow> nat \<Rightarrow> nat \<Rightarrow> shell_run" where
  "run_attempts run attempt 0 = Shell_failed False ''undefined''"
| "run_attempts run attempt (Suc left) =
     (case run attempt of
        Shell_output out \<Rightarrow> Shell_output out
      | Shell_failed timed_out detail \<Rightarrow>
          if timed_out \<and> left \<noteq> 0 then run_attempts run (Suc attempt) left else Shell_failed timed_out detail)"

definition shell_entry :: "string \<Rightarrow> (string \<times> string) option" where
  "shell_entry entry =
     (case index_of CHR ''='' entry of
        None \<Rightarrow> None
      | Some i \<Rightarrow> if i = 0 \<or> \<not> env_key_ok (take i entry) then None
          else Some (take i entry, drop (Suc i) entry))"

text \<open>The loop over the entries: the environment and the last \<open>PATH\<close> seen.\<close>

definition import_entry ::
    "string \<times> string \<Rightarrow> string jmap \<times> string option \<Rightarrow> string jmap \<times> string option" where
  "import_entry kv s =
     (if fst kv = ''PATH'' then (fst s, Some (snd kv)) else (set_missing (fst kv) (snd kv) (fst s), snd s))"

definition path_parts :: "string jmap \<Rightarrow> string list" where
  "path_parts env = (case map_of env ''PATH'' of None \<Rightarrow> [] | Some p \<Rightarrow> split_on CHR '':'' p)"

definition merge_path :: "string option \<Rightarrow> string jmap \<Rightarrow> string jmap" where
  "merge_path shellPath env =
     (case shellPath of
        None \<Rightarrow> env
      | Some p \<Rightarrow>
          if p = [] then env
          else (let existing = path_parts env in
                jput ''PATH'' (join_with '':'' (filter (\<lambda>d. d \<noteq> [] \<and> d \<notin> set existing) (split_on CHR '':'' p)
                  @ existing)) env))"

definition prepend_local_bin :: "string \<Rightarrow> (string \<Rightarrow> bool) \<Rightarrow> string jmap \<Rightarrow> string jmap" where
  "prepend_local_bin homedir exists_at env =
     (let bin = posix_join [homedir, ''.local'', ''bin''] in
      if bin \<notin> set (path_parts env) \<and> exists_at bin
      then jput ''PATH'' (join_with '':'' (filter (\<lambda>d. d \<noteq> []) [bin, coalesce (map_of env ''PATH'') []])) env
      else env)"

definition append_cli_dirs :: "bool \<Rightarrow> (string \<Rightarrow> bool) \<Rightarrow> string jmap \<Rightarrow> string jmap" where
  "append_cli_dirs darwin exists_at env =
     (if \<not> darwin then env
      else (let extras = filter (\<lambda>d. d \<notin> set (path_parts env) \<and> exists_at d) WELL_KNOWN_CLI_DIRS_DARWIN in
            if extras = [] then env
            else jput ''PATH'' (join_with '':'' (filter (\<lambda>d. d \<noteq> []) (coalesce (map_of env ''PATH'') [] # extras))) env))"

definition importLoginShellEnv ::
    "(nat \<Rightarrow> shell_run) \<Rightarrow> string \<Rightarrow> bool \<Rightarrow> (string \<Rightarrow> bool) \<Rightarrow> string jmap \<Rightarrow> string jmap \<times> import_status" where
  "importLoginShellEnv run homedir darwin exists_at env =
     (let (env1, status) =
        (case run_attempts run 1 LOGIN_SHELL_IMPORT_ATTEMPTS of
           Shell_failed timed_out detail \<Rightarrow>
             (env, Import_failed timed_out (getLoginShell env) LOGIN_SHELL_IMPORT_TIMEOUT_MS detail)
         | Shell_output out \<Rightarrow>
             (let (env', shellPath) =
                fold import_entry (List.map_filter shell_entry (split_on (CHR 0x00) out)) (env, None)
              in (merge_path shellPath env', Import_ok)))
      in (append_cli_dirs darwin exists_at (prepend_local_bin homedir exists_at env1), status))"

subsection \<open>Finding an agent's command line tool\<close>

definition resolveDeclaredLocation :: "string \<Rightarrow> string \<Rightarrow> string option" where
  "resolveDeclaredLocation homedir location =
     (if str_includes ''{{'' location then None
      else if ''..'' \<in> set (split_on slash location) then None
      else (let expanded = (if starts_with ''~/'' location then posix_join [homedir, drop 2 location] else location)
            in if is_absolute expanded then Some expanded else None))"

definition wellKnownPathsFor :: "string \<Rightarrow> string \<Rightarrow> string list option \<Rightarrow> string list" where
  "wellKnownPathsFor homedir command declared =
     (case declared of
        Some (l # ls) \<Rightarrow> List.map_filter (resolveDeclaredLocation homedir) (l # ls)
      | _ \<Rightarrow>
          if posix_basename command = ''claude''
          then [posix_join [homedir, ''.local'', ''bin'', ''claude''], posix_join [homedir, ''.claude'', ''local'', ''claude''],
                ''/opt/homebrew/bin/claude'', ''/usr/local/bin/claude'']
          else [])"

text \<open>A command that is found nowhere is the error, with every location that was tried.\<close>

definition resolveAgentCommand ::
    "string \<Rightarrow> (string \<Rightarrow> bool) \<Rightarrow> string \<Rightarrow> string option \<Rightarrow> string list option \<Rightarrow> string list + string" where
  "resolveAgentCommand homedir isExecutableFile command searchPath declared =
     (if slash \<in> set command then Inr command
      else
        (let candidates = map (\<lambda>dir. posix_join [dir, command])
               (filter (\<lambda>d. d \<noteq> []) (split_on CHR '':'' (coalesce searchPath [])));
             known = wellKnownPathsFor homedir command declared
         in if list_ex isExecutableFile candidates then Inr command
            else case find isExecutableFile known of
                   Some p \<Rightarrow> Inr p
                 | None \<Rightarrow> Inl (candidates @ known)))"

subsection \<open>The context window\<close>

definition DEFAULT_CONTEXT_WINDOW :: int where
  "DEFAULT_CONTEXT_WINDOW = 200000"

definition getContextWindow :: "string jmap \<Rightarrow> int" where
  "getContextWindow env =
     (case Option.bind (map_of env ''ROUBO_CONTEXT_WINDOW'') parse_int of
        Some n \<Rightarrow> if 0 < n then n else DEFAULT_CONTEXT_WINDOW
      | None \<Rightarrow> DEFAULT_CONTEXT_WINDOW)"

subsection \<open>What the import does to the environment\<close>

lemma split_on_append: "split_on d (a @ d # b) = split_on d a @ split_on d b"
  by (induction a) (auto split: list.splits)

lemma split_join_real: "\<forall>w \<in> set ws. d \<notin> set w \<Longrightarrow>
    filter (\<lambda>w. w \<noteq> []) (split_on d (join_with [d] ws)) = filter (\<lambda>w. w \<noteq> []) ws"
  by (cases "ws = []") (simp_all add: split_join)

lemma set_missing_keeps: "map_of env k = Some v \<Longrightarrow> map_of (set_missing k' v' env) k = Some v"
  by (auto simp: set_missing_def js_get_Absent_iff)

lemma set_missing_new: "map_of (set_missing k' v' env) k = Some v \<Longrightarrow> map_of env k = None \<Longrightarrow> k = k'"
  by (auto simp: set_missing_def split: if_splits)

lemma shell_entry_ok: "shell_entry e = Some (k, v) \<Longrightarrow> env_key_ok k"
  by (auto simp: shell_entry_def split: option.splits if_splits)

definition keeps_env :: "string jmap \<Rightarrow> string jmap \<Rightarrow> bool" where
  "keeps_env env env' \<longleftrightarrow> (\<forall>k v. k \<noteq> ''PATH'' \<longrightarrow> map_of env k = Some v \<longrightarrow> map_of env' k = Some v)
     \<and> (\<forall>k. k \<noteq> ''PATH'' \<longrightarrow> map_of env k = None \<longrightarrow> map_of env' k \<noteq> None \<longrightarrow> env_key_ok k)"

lemma import_entry_keeps:
  "fst kv \<noteq> ''PATH'' \<Longrightarrow> import_entry kv s = (set_missing (fst kv) (snd kv) (fst s), snd s)"
  "fst kv = ''PATH'' \<Longrightarrow> fst (import_entry kv s) = fst s"
  by (simp_all add: import_entry_def)

lemma import_entries_keep:
  assumes "\<forall>kv \<in> set es. env_key_ok (fst kv)"
  shows "keeps_env (fst s) (fst (fold import_entry es s))
    \<and> map_of (fst (fold import_entry es s)) ''PATH'' = map_of (fst s) ''PATH''"
  using assms
proof (induction es arbitrary: s)
  case Nil
  show ?case by (simp add: keeps_env_def)
next
  case (Cons kv es)
  let ?s = "import_entry kv s"
  have one: "keeps_env (fst s) (fst ?s) \<and> map_of (fst ?s) ''PATH'' = map_of (fst s) ''PATH''"
  proof (cases "fst kv = ''PATH''")
    case True
    then show ?thesis by (simp add: import_entry_keeps keeps_env_def)
  next
    case False
    then show ?thesis using Cons.prems
      by (auto simp: import_entry_keeps keeps_env_def set_missing_keeps dest: set_missing_new)
         (auto simp: set_missing_def)
  qed
  have "keeps_env (fst ?s) (fst (fold import_entry es ?s))
      \<and> map_of (fst (fold import_entry es ?s)) ''PATH'' = map_of (fst ?s) ''PATH''"
    using Cons.IH [of ?s] Cons.prems by simp
  with one show ?case unfolding keeps_env_def by (simp del: not_None_eq) metis
qed

definition real_parts :: "string jmap \<Rightarrow> string list" where
  "real_parts env = filter (\<lambda>d. d \<noteq> []) (path_parts env)"

lemma path_parts_colon: "\<forall>w \<in> set (path_parts env). CHR '':'' \<notin> set w"
  using split_on_parts by (auto simp: path_parts_def split: option.splits)

lemma merge_path_grows: "subseq (real_parts env) (real_parts (merge_path sp env))"
proof (cases sp)
  case None
  then show ?thesis by (simp add: merge_path_def)
next
  case (Some p)
  let ?new = "filter (\<lambda>d. d \<noteq> [] \<and> d \<notin> set (path_parts env)) (split_on CHR '':'' p)"
  have "\<forall>w \<in> set (?new @ path_parts env). CHR '':'' \<notin> set w"
    using path_parts_colon split_on_parts by auto
  from split_join_real [OF this] have "p \<noteq> [] \<Longrightarrow> real_parts (merge_path sp env)
      = filter (\<lambda>d. d \<noteq> []) ?new @ real_parts env"
    by (simp add: Some merge_path_def real_parts_def Let_def path_parts_def [of "jput _ _ _"])
  then show ?thesis by (cases "p = []") (auto simp: Some merge_path_def)
qed

lemma parts_joined: "filter (\<lambda>d. d \<noteq> []) (split_on c (join_with [c] (filter (\<lambda>d. d \<noteq> []) xs)))
    = concat (map (\<lambda>x. filter (\<lambda>d. d \<noteq> []) (split_on c x)) xs)"
proof (induction xs)
  case (Cons x xs)
  then show ?case
    by (cases "filter (\<lambda>d. d \<noteq> []) xs") (simp_all add: split_on_append)
qed simp

lemma real_parts_eq: "real_parts env = filter (\<lambda>d. d \<noteq> []) (split_on CHR '':'' (coalesce (map_of env ''PATH'') []))"
  by (simp add: real_parts_def path_parts_def split: option.splits)

lemma real_parts_joined: "real_parts (jput ''PATH'' (join_with '':'' (filter (\<lambda>d. d \<noteq> []) xs)) env)
    = concat (map (\<lambda>x. filter (\<lambda>d. d \<noteq> []) (split_on CHR '':'' x)) xs)"
  by (simp only: real_parts_eq map_of_jput fun_upd_same coalesce_simps parts_joined)

lemma prepend_grows: "subseq (real_parts env) (real_parts (prepend_local_bin home ex env))"
  using real_parts_joined [of "[posix_join [home, ''.local'', ''bin''], coalesce (map_of env ''PATH'') []]" env]
  by (simp add: prepend_local_bin_def Let_def real_parts_eq [of env] list_emb_append2 subseq_rev_drop_many del: filter.simps)

lemma append_grows: "subseq (real_parts env) (real_parts (append_cli_dirs darwin ex env))"
  using real_parts_joined [of "coalesce (map_of env ''PATH'') []
      # filter (\<lambda>d. d \<notin> set (path_parts env) \<and> ex d) WELL_KNOWN_CLI_DIRS_DARWIN" env]
  by (simp add: append_cli_dirs_def Let_def real_parts_eq [of env] list_emb_append2 subseq_rev_drop_many del: filter.simps)

lemma path_only:
  "k \<noteq> ''PATH'' \<Longrightarrow> map_of (merge_path sp env) k = map_of env k"
  "k \<noteq> ''PATH'' \<Longrightarrow> map_of (prepend_local_bin home ex env) k = map_of env k"
  "k \<noteq> ''PATH'' \<Longrightarrow> map_of (append_cli_dirs darwin ex env) k = map_of env k"
  by (auto simp: merge_path_def prepend_local_bin_def append_cli_dirs_def Let_def split: option.splits)

lemma real_parts_cong: "map_of env ''PATH'' = map_of env' ''PATH'' \<Longrightarrow> real_parts env = real_parts env'"
  by (simp add: real_parts_def path_parts_def)

subsection \<open>Which commands can be spawned\<close>

definition clean_segment :: "string \<Rightarrow> bool" where
  "clean_segment s \<longleftrightarrow> s \<noteq> [] \<and> s \<noteq> ''..'' \<and> slash \<notin> set s"

lemma push_segment_clean: "list_all clean_segment stack \<Longrightarrow> slash \<notin> set seg \<Longrightarrow>
    list_all clean_segment (push_segment True seg stack)"
  by (cases stack) (simp_all add: push_segment_def clean_segment_def)

lemma push_segments_clean: "list_all clean_segment stack \<Longrightarrow> list_all (\<lambda>s. slash \<notin> set s) segs \<Longrightarrow>
    list_all clean_segment (fold (push_segment True) segs stack)"
  by (induction segs arbitrary: stack) (simp_all add: push_segment_clean)

lemma normalize_absolute:
  assumes "is_absolute p"
  shows "is_absolute (normalize_path p) \<and> ''..'' \<notin> set (split_on slash (normalize_path p))"
proof -
  define ws where "ws = rev (fold (push_segment True) (split_on slash p) [])"
  have "list_all clean_segment (fold (push_segment True) (split_on slash p) [])"
    by (rule push_segments_clean) (auto simp: list_all_iff dest: split_on_parts)
  then have ws: "\<forall>s \<in> set ws. clean_segment s" by (simp add: ws_def list_all_iff)
  have "split_on slash (join_with [slash] ws) = ws" if "ws \<noteq> []"
    using ws that by (intro split_join) (simp_all add: clean_segment_def)
  with ws have no: "''..'' \<notin> set (split_on slash (join_with [slash] ws))"
    by (cases "ws = []") (auto simp: clean_segment_def)
  have "split_on slash (b @ [slash]) = split_on slash b @ [[]]" for b
    using split_on_append [of slash b "[]"] by simp
  with no assms show ?thesis
    unfolding normalize_path_def Let_def
    by (auto simp: ws_def [symmetric] is_absolute_def starts_with_def)
qed

lemma join_absolute: "is_absolute p \<Longrightarrow> p # ps = qs \<Longrightarrow>
    is_absolute (posix_join qs) \<and> ''..'' \<notin> set (split_on slash (posix_join qs))"
proof -
  assume p: "is_absolute p" "p # ps = qs"
  then have ne: "p \<noteq> []" by (auto simp: is_absolute_def starts_with_def)
  then have "is_absolute (join_with [slash] (filter (\<lambda>p. p \<noteq> []) qs))" "join_with [slash] (filter (\<lambda>p. p \<noteq> []) qs) \<noteq> []"
    using p by (cases "filter (\<lambda>p. p \<noteq> []) ps"; cases p; auto simp: is_absolute_def starts_with_def)+
  with normalize_absolute show ?thesis by (simp add: posix_join_def Let_def)
qed

definition safe_candidate :: "string \<Rightarrow> bool" where
  "safe_candidate p \<longleftrightarrow> is_absolute p \<and> ''..'' \<notin> set (split_on slash p)"

lemma declared_safe:
  assumes "is_absolute home" "resolveDeclaredLocation home l = Some p"
  shows "safe_candidate p"
  using assms join_absolute [OF assms(1), of "[drop 2 l]"]
  by (auto simp: resolveDeclaredLocation_def safe_candidate_def Let_def split: if_splits)

lemma well_known_safe:
  assumes "is_absolute home" "p \<in> set (wellKnownPathsFor home command declared)"
  shows "safe_candidate p"
proof (cases "\<exists>l ls. declared = Some (l # ls)")
  case True
  then show ?thesis using assms declared_safe [OF assms(1)]
    by (auto simp: wellKnownPathsFor_def List.map_filter_def split: if_splits)
next
  case False
  have "safe_candidate ''/opt/homebrew/bin/claude''" "safe_candidate ''/usr/local/bin/claude''"
    by (simp_all add: safe_candidate_def is_absolute_def starts_with_def)
  moreover have "safe_candidate (posix_join [home, a, b, c])" for a b c
    using join_absolute [OF assms(1), of "[a, b, c]"] by (simp add: safe_candidate_def)
  ultimately show ?thesis using False assms(2)
    by (auto simp: wellKnownPathsFor_def split: option.splits list.splits if_splits)
qed

subsection \<open>Properties\<close>

text \<open>
  The import of the login shell's environment only fills gaps: a variable that was set keeps its
  value, \<open>PATH\<close> apart, whose directories all stay, in their order; a variable it adds has a
  conventional name. When it fails, the shell failed for a reason other than a timeout, or timed out
  at least once.
\<close>

theorem import_fills_gaps:
  assumes "importLoginShellEnv run home darwin ex env = (env', status)"
  shows "(\<forall>k v. k \<noteq> ''PATH'' \<longrightarrow> map_of env k = Some v \<longrightarrow> map_of env' k = Some v)
    \<and> subseq (real_parts env) (real_parts env')
    \<and> (\<forall>k. k \<noteq> ''PATH'' \<longrightarrow> map_of env k = None \<longrightarrow> map_of env' k \<noteq> None \<longrightarrow> env_key_ok k)
    \<and> (\<forall>t sh ms d. status = Import_failed t sh ms d \<longrightarrow>
         run 1 = Shell_failed False d \<or> (\<exists>e. run 1 = Shell_failed True e) \<and> run 2 = Shell_failed t d)"
proof -
  define es where "es = (case run_attempts run 1 LOGIN_SHELL_IMPORT_ATTEMPTS of
      Shell_output out \<Rightarrow> List.map_filter shell_entry (split_on (CHR 0x00) out) | Shell_failed _ _ \<Rightarrow> [])"
  define mid where "mid = (case run_attempts run 1 LOGIN_SHELL_IMPORT_ATTEMPTS of
      Shell_output out \<Rightarrow> merge_path (snd (fold import_entry es (env, None))) (fst (fold import_entry es (env, None)))
    | Shell_failed _ _ \<Rightarrow> env)"
  have env': "env' = append_cli_dirs darwin ex (prepend_local_bin home ex mid)"
    using assms by (auto simp: importLoginShellEnv_def mid_def es_def split: shell_run.splits prod.splits)
  have "\<forall>kv \<in> set es. env_key_ok (fst kv)"
    by (auto simp: es_def List.map_filter_def dest: shell_entry_ok split: shell_run.splits)
  from import_entries_keep [OF this, of "(env, None)"]
  have k: "keeps_env env (fst (fold import_entry es (env, None)))"
    and p: "map_of (fst (fold import_entry es (env, None))) ''PATH'' = map_of env ''PATH''" by simp_all
  have "keeps_env env mid"
    using k by (auto simp: mid_def keeps_env_def path_only split: shell_run.split)
  then have "keeps_env env env'" by (simp add: env' keeps_env_def path_only)
  moreover have "subseq (real_parts env) (real_parts mid)"
    using merge_path_grows [of "fst (fold import_entry es (env, None))" "snd (fold import_entry es (env, None))"]
    by (auto simp: mid_def real_parts_cong [OF p] split: shell_run.split)
  then have "subseq (real_parts env) (real_parts env')" unfolding env'
    using prepend_grows append_grows by (meson subseq_order.order_trans)
  moreover have "run 1 = Shell_failed False d \<or> (\<exists>e. run 1 = Shell_failed True e) \<and> run 2 = Shell_failed t d"
    if "status = Import_failed t sh ms d" for t sh ms d
    using assms that by (auto simp: importLoginShellEnv_def LOGIN_SHELL_IMPORT_ATTEMPTS_def numeral_2_eq_2
        split: shell_run.splits prod.splits if_splits)
  ultimately show ?thesis unfolding keeps_env_def by blast
qed

definition sample_shell_env :: "string jmap" where
  "sample_shell_env = [(''HOME'', ''/h''), (''PATH'', ''/bin'')]"

theorem import_fills_gaps_witness:
  "\<exists>env'. importLoginShellEnv (\<lambda>n. if n = 1 then Shell_failed True ''slow'' else Shell_output (''HOME=/x'' @ [CHR 0x00] @ ''A=1''))
       ''/h'' False (\<lambda>p. False) sample_shell_env = (env', Import_ok)
     \<and> map_of env' ''HOME'' = Some ''/h''"
proof -
  let ?run = "\<lambda>n::nat. if n = 1 then Shell_failed True ''slow'' else Shell_output (''HOME=/x'' @ [CHR 0x00] @ ''A=1'')"
  obtain env' where r: "importLoginShellEnv ?run ''/h'' False (\<lambda>p. False) sample_shell_env = (env', Import_ok)"
    using prod.collapse [of "importLoginShellEnv ?run ''/h'' False (\<lambda>p. False) sample_shell_env"]
    by (simp add: importLoginShellEnv_def LOGIN_SHELL_IMPORT_ATTEMPTS_def numeral_2_eq_2 Let_def case_prod_unfold)
  have "map_of sample_shell_env ''HOME'' = Some ''/h''" by (simp add: sample_shell_env_def)
  with import_fills_gaps [OF r] have "map_of env' ''HOME'' = Some ''/h''" by simp
  with r show ?thesis by blast
qed

text \<open>
  A command that names a path is spawned as it is; otherwise what is spawned is the command
  itself, when a directory of the search path holds it as an executable file, or an executable file
  among the well-known locations, which is an absolute path without a \<open>..\<close> segment. The error
  lists every location, and none of them holds an executable file.
\<close>

theorem agent_command_is_a_candidate:
  assumes "is_absolute home"
    and "resolveAgentCommand home executable command path declared = r"
  shows "case r of
      Inr p \<Rightarrow> (slash \<in> set command \<and> p = command)
        \<or> (p = command \<and> (\<exists>dir \<in> set (split_on CHR '':'' (coalesce path [])). dir \<noteq> [] \<and> executable (posix_join [dir, command])))
        \<or> (executable p \<and> p \<in> set (wellKnownPathsFor home command declared) \<and> is_absolute p
             \<and> ''..'' \<notin> set (split_on slash p))
    | Inl tried \<Rightarrow> slash \<notin> set command \<and> list_all (\<lambda>p. \<not> executable p) tried
        \<and> set (wellKnownPathsFor home command declared) \<subseteq> set tried"
proof (cases "slash \<in> set command")
  case True
  with assms(2) show ?thesis by (auto simp: resolveAgentCommand_def)
next
  case False
  let ?candidates = "map (\<lambda>dir. posix_join [dir, command]) (filter (\<lambda>d. d \<noteq> []) (split_on CHR '':'' (coalesce path [])))"
  and ?known = "wellKnownPathsFor home command declared"
  have r: "r = (if list_ex executable ?candidates then Inr command
      else case find executable ?known of Some p \<Rightarrow> Inr p | None \<Rightarrow> Inl (?candidates @ ?known))"
    using assms(2) False by (simp add: resolveAgentCommand_def Let_def)
  show ?thesis
  proof (cases "list_ex executable ?candidates")
    case True
    with r show ?thesis by (auto simp: list_ex_iff)
  next
    case no: False
    show ?thesis
    proof (cases "find executable ?known")
      case None
      with no r have "r = Inl (?candidates @ ?known)" by simp
      with no None False show ?thesis by (auto simp: find_None_iff list_ex_iff list_all_iff)
    next
      case (Some p)
      with no r have "r = Inr p" by simp
      with find_SomeD [OF Some] well_known_safe [OF assms(1), of p command declared]
      show ?thesis by (simp add: safe_candidate_def)
    qed
  qed
qed

theorem agent_command_is_a_candidate_witness:
  "is_absolute ''/opt/homebrew/bin/claude''
   \<and> resolveAgentCommand ''/h'' (\<lambda>p. p = ''/opt/homebrew/bin/claude'') ''claude'' None None
       = Inr ''/opt/homebrew/bin/claude''"
proof -
  have r: "resolveAgentCommand ''/h'' (\<lambda>p. p = ''/opt/homebrew/bin/claude'') ''claude'' None None
      = Inr ''/opt/homebrew/bin/claude''"
    by (simp add: resolveAgentCommand_def wellKnownPathsFor_def posix_basename_def posix_join_def normalize_path_def
        is_absolute_def starts_with_def push_segment_def Let_def)
  have "is_absolute ''/h''" by (simp add: is_absolute_def starts_with_def)
  from agent_command_is_a_candidate [OF this r] have "is_absolute ''/opt/homebrew/bin/claude''" by auto
  with r show ?thesis by simp
qed

end
