(* ===== verification/DockerCli.thy ===== *)
theory DockerCli
  imports HostEnv
begin

section \<open>Docker\<close>

text \<open>
  \<open>server/services/docker.ts\<close>: the compose commands it builds, how it reads a container's state, and
  the wait for a healthy container. The containers docker lists are a parameter, \<open>None\<close> when the
  call fails; so is the result of running a command. A container that lists no labels has none, and
  a missing name list is the empty one.
\<close>

subsection \<open>Paths of the standard library\<close>

text \<open>\<open>path.dirname\<close> and \<open>path.resolve\<close> of a directory that is absolute.\<close>

definition posix_dirname :: "string \<Rightarrow> string" where
  "posix_dirname p =
     (let ps = rev (split_on slash p); body = dropWhile (\<lambda>s. s = []) ps
      in case body of
           [] \<Rightarrow> if is_absolute p then [slash] else ''.''
         | _ # rest \<Rightarrow>
             (case dropWhile (\<lambda>s. s = []) rest of
                [] \<Rightarrow> if is_absolute p then [slash] else ''.''
              | kept \<Rightarrow> join_with [slash] (rev kept)))"

definition posix_resolve :: "string \<Rightarrow> string \<Rightarrow> string" where
  "posix_resolve cwd p =
     (let full = (if is_absolute p then p else cwd @ slash # p);
          body = join_with [slash] (rev (fold (push_segment True) (split_on slash full) []))
      in slash # body)"

subsection \<open>Compose commands\<close>

record docker_command =
  docker_args :: "string list"
  docker_cwd :: string
  docker_vars :: "string jmap"

definition compose_dir :: "string \<Rightarrow> string \<Rightarrow> string" where
  "compose_dir cwd f = posix_dirname (posix_resolve cwd f)"

definition composeUp :: "string \<Rightarrow> string \<Rightarrow> string \<Rightarrow> string jmap \<Rightarrow> string \<Rightarrow> docker_command" where
  "composeUp f svc project overrides cwd =
     \<lparr>docker_args = [''compose'', ''-f'', posix_basename f, ''-p'', project, ''up'', ''-d'', svc],
      docker_cwd = compose_dir cwd f, docker_vars = overrides\<rparr>"

definition composeStop :: "string \<Rightarrow> string \<Rightarrow> string \<Rightarrow> string option \<Rightarrow> docker_command" where
  "composeStop project f cwd svc =
     \<lparr>docker_args = [''compose'', ''-f'', posix_basename f, ''-p'', project, ''stop'']
        @ (if truthy svc then [the svc] else []),
      docker_cwd = compose_dir cwd f, docker_vars = []\<rparr>"

definition composeDown :: "string \<Rightarrow> string \<Rightarrow> string \<Rightarrow> docker_command" where
  "composeDown project f cwd =
     \<lparr>docker_args = [''compose'', ''-f'', posix_basename f, ''-p'', project, ''down'', ''-v''],
      docker_cwd = compose_dir cwd f, docker_vars = []\<rparr>"

definition composeDownByProject :: "string \<Rightarrow> string \<Rightarrow> docker_command" where
  "composeDownByProject server_cwd project =
     \<lparr>docker_args = [''compose'', ''-p'', project, ''down'', ''-v''], docker_cwd = server_cwd, docker_vars = []\<rparr>"

definition composeRunInit :: "string \<Rightarrow> string \<Rightarrow> string \<Rightarrow> string jmap \<Rightarrow> string \<Rightarrow> docker_command" where
  "composeRunInit f svc project overrides cwd =
     \<lparr>docker_args = [''compose'', ''-f'', posix_basename f, ''-p'', project, ''run'', ''--rm'', svc],
      docker_cwd = compose_dir cwd f, docker_vars = overrides\<rparr>"

record command_result =
  cmd_code :: int
  cmd_stdout :: string
  cmd_stderr :: string

text \<open>What \<open>composeUp\<close> and \<open>composeRunInit\<close> report: success, or the error.\<close>

definition up_outcome :: "command_result \<Rightarrow> string option" where
  "up_outcome r = (if cmd_code r \<noteq> 0 then Some (if cmd_stderr r \<noteq> [] then cmd_stderr r else cmd_stdout r) else None)"

definition init_outcome :: "command_result \<Rightarrow> string option" where
  "init_outcome r = (if cmd_code r \<noteq> 0
     then Some (''Init service failed: '' @ (if cmd_stderr r \<noteq> [] then cmd_stderr r else cmd_stdout r)) else None)"

text \<open>
  \<open>composeStop\<close> and \<open>composeDown\<close> wait for docker and then return, whatever its exit code: nothing of
  the result reaches the caller.
\<close>

definition down_outcome :: "command_result \<Rightarrow> string option" where
  "down_outcome r = None"

subsection \<open>Containers\<close>

datatype container_status = C_running | C_starting | C_stopped | C_not_found | C_unhealthy

record container_port =
  PrivatePort :: int
  PublicPort :: "int option"

record container =
  container_Id :: string
  container_Names :: "string list"
  container_Image :: string
  container_State :: string
  container_Status :: string
  container_Labels :: "string jmap"
  container_Ports :: "container_port list"

definition classifyRunningContainer :: "string \<Rightarrow> container_status" where
  "classifyRunningContainer st =
     (if str_includes ''(unhealthy)'' st then C_unhealthy
      else if str_includes ''(health'' st \<and> \<not> str_includes ''(healthy)'' st then C_starting
      else C_running)"

definition is_service :: "string \<Rightarrow> string \<Rightarrow> container \<Rightarrow> bool" where
  "is_service project svc c =
     (map_of (container_Labels c) ''com.docker.compose.project'' = Some project
      \<and> map_of (container_Labels c) ''com.docker.compose.service'' = Some svc)"

definition container_state_of :: "container \<Rightarrow> container_status" where
  "container_state_of c =
     (if container_State c = ''running'' then classifyRunningContainer (container_Status c) else C_stopped)"

definition getContainerStatus :: "container list option \<Rightarrow> string \<Rightarrow> string \<Rightarrow> container_status" where
  "getContainerStatus listed project svc =
     (case listed of
        None \<Rightarrow> C_not_found
      | Some cs \<Rightarrow> (case find (is_service project svc) cs of
            None \<Rightarrow> C_not_found | Some c \<Rightarrow> container_state_of c))"

definition query_key :: "string \<times> string \<Rightarrow> string" where
  "query_key q = fst q @ [slash] @ snd q"

definition query_result :: "container list \<Rightarrow> string \<times> string \<Rightarrow> container_status \<times> string option" where
  "query_result cs q =
     (case find (is_service (fst q) (snd q)) cs of
        None \<Rightarrow> (C_not_found, None) | Some c \<Rightarrow> (container_state_of c, Some (container_Id c)))"

definition getContainerStatuses ::
    "container list option \<Rightarrow> (string \<times> string) list \<Rightarrow> (container_status \<times> string option) jmap" where
  "getContainerStatuses listed queries =
     (case listed of
        Some cs \<Rightarrow> fold (\<lambda>q. jput (query_key q) (query_result cs q)) queries []
      | None \<Rightarrow> fold (\<lambda>q. jput (query_key q) (C_not_found, None)) queries [])"

text \<open>
  The wait polls until the clock runs out: \<open>clock n\<close> is the time before poll \<open>n\<close> (poll 0 at the start)
  and \<open>status_at n\<close> what it finds. The fuel bounds the number of polls.
\<close>

fun poll_health :: "(nat \<Rightarrow> int) \<Rightarrow> (nat \<Rightarrow> container_status) \<Rightarrow> int \<Rightarrow> nat \<Rightarrow> nat \<Rightarrow> bool option" where
  "poll_health clock status_at timeout n 0 = None"
| "poll_health clock status_at timeout n (Suc fuel) =
     (if \<not> clock n - clock 0 < timeout then Some False
      else case status_at n of
             C_running \<Rightarrow> Some True
           | C_starting \<Rightarrow> poll_health clock status_at timeout (Suc n) fuel
           | _ \<Rightarrow> Some False)"

definition DEFAULT_HEALTH_TIMEOUT_MS :: int where
  "DEFAULT_HEALTH_TIMEOUT_MS = 300000"

definition POLL_INTERVAL_MS :: int where
  "POLL_INTERVAL_MS = 2000"

definition waitForHealthy :: "(nat \<Rightarrow> int) \<Rightarrow> (nat \<Rightarrow> container_status) \<Rightarrow> int \<Rightarrow> bool option" where
  "waitForHealthy clock status_at timeout =
     poll_health clock status_at timeout 0 (Suc (nat (timeout div POLL_INTERVAL_MS + 1)))"

definition inspect_status :: "bool \<Rightarrow> string option \<Rightarrow> container_status" where
  "inspect_status running health =
     (if \<not> running then C_stopped
      else if health = Some ''unhealthy'' then C_unhealthy
      else if truthy health \<and> health \<noteq> Some ''healthy'' then C_starting else C_running)"

definition getContainerStatusById :: "(bool \<times> string option) option \<Rightarrow> container_status" where
  "getContainerStatusById inspected =
     (case inspected of None \<Rightarrow> C_not_found | Some (running, health) \<Rightarrow> inspect_status running health)"

record container_info =
  info_id :: string
  info_name :: string
  info_image :: "string option"
  info_port :: "int option"
  info_status :: string

definition container_name :: "container \<Rightarrow> string" where
  "container_name c = (case container_Names c of
     [] \<Rightarrow> take 12 (container_Id c) | n # _ \<Rightarrow> if starts_with [slash] n then tl n else n)"

definition DB_IMAGE_PATTERNS :: "(string list \<times> int) list" where
  "DB_IMAGE_PATTERNS = [([''mssql'', ''sqlserver'', ''sql-server''], 1433), ([''postgres''], 5432),
     ([''mysql'', ''mariadb''], 3306), ([''redis''], 6379), ([''mongo''], 27017)]"

definition image_pattern :: "string \<Rightarrow> (string list \<times> int) option" where
  "image_pattern img = find (\<lambda>p. list_ex (\<lambda>w. str_includes w (lower img)) (fst p)) DB_IMAGE_PATTERNS"

definition listDatabaseContainers :: "container list option \<Rightarrow> container_info list" where
  "listDatabaseContainers listed =
     List.map_filter (\<lambda>c. map_option (\<lambda>p.
       \<lparr>info_id = take 12 (container_Id c), info_name = container_name c, info_image = Some (container_Image c),
        info_port = Option.bind (find (\<lambda>q. PrivatePort q = snd p) (container_Ports c)) PublicPort,
        info_status = container_State c\<rparr>) (image_pattern (container_Image c))) (coalesce listed [])"

definition getContainerInfoById :: "container list option \<Rightarrow> string \<Rightarrow> container_info option" where
  "getContainerInfoById listed cid =
     map_option (\<lambda>c. \<lparr>info_id = take 12 (container_Id c), info_name = container_name c, info_image = None,
        info_port = Option.bind (find (\<lambda>q. PublicPort q \<noteq> None \<and> PublicPort q \<noteq> Some 0) (container_Ports c)) PublicPort,
        info_status = container_State c\<rparr>)
       (Option.bind listed (find (\<lambda>c. container_Id c = cid \<or> take 12 (container_Id c) = cid)))"

definition getContainerId :: "container list option \<Rightarrow> string \<Rightarrow> string \<Rightarrow> string option" where
  "getContainerId listed project svc =
     map_option container_Id (Option.bind listed (find (is_service project svc)))"

definition getComposeProjectName :: "string \<Rightarrow> int \<Rightarrow> string" where
  "getComposeProjectName projectId benchNumber = ''roubo-'' @ projectId @ ''-bench-'' @ int_str benchNumber"

subsection \<open>The wait always ends\<close>

lemma clock_grows:
  assumes "\<forall>n. clock n + POLL_INTERVAL_MS \<le> clock (Suc n)"
  shows "clock (0::nat) + int n * POLL_INTERVAL_MS \<le> clock n"
proof (induction n)
  case (Suc n)
  with assms [rule_format, of n] show ?case by (simp add: algebra_simps)
qed simp

lemma poll_ends:
  assumes "\<forall>n. clock n + POLL_INTERVAL_MS \<le> clock (Suc n)"
  shows "timeout < int (n + fuel) * POLL_INTERVAL_MS \<Longrightarrow> 0 < fuel \<Longrightarrow>
    \<exists>r. poll_health clock status_at timeout n (Suc fuel) = Some r"
proof (induction fuel arbitrary: n)
  case (Suc fuel)
  show ?case
  proof (cases fuel)
    case 0
    with Suc.prems clock_grows [OF assms, of "Suc n"] show ?thesis
      by (auto split: container_status.split)
  next
    case (Suc k)
    with Suc.prems have "timeout < int (Suc n + fuel) * POLL_INTERVAL_MS" "0 < fuel" by simp_all
    from Suc.IH [OF this] show ?thesis by (auto split: container_status.split)
  qed
qed simp

lemma poll_True:
  "poll_health clock status_at timeout n fuel = Some True \<Longrightarrow>
    \<exists>m. n \<le> m \<and> status_at m = C_running \<and> clock m - clock 0 < timeout \<and> (\<forall>i. n \<le> i \<longrightarrow> i < m \<longrightarrow> status_at i = C_starting)"
proof (induction fuel arbitrary: n)
  case (Suc fuel)
  then have t: "clock n - clock 0 < timeout" by (simp split: if_splits)
  show ?case
  proof (cases "status_at n")
    case C_running
    with t show ?thesis by auto
  next
    case C_starting
    with Suc.prems t have "poll_health clock status_at timeout (Suc n) fuel = Some True" by simp
    from Suc.IH [OF this] obtain m where m: "Suc n \<le> m" "status_at m = C_running" "clock m - clock 0 < timeout"
      "\<forall>i. Suc n \<le> i \<longrightarrow> i < m \<longrightarrow> status_at i = C_starting" by blast
    moreover have "status_at i = C_starting" if "n \<le> i" "i < m" for i
      using m(4) C_starting that by (cases "i = n") auto
    ultimately show ?thesis by (intro exI [of _ m]) auto
  qed (use Suc.prems t in simp_all)
qed simp

text \<open>
  C39. The wait for a healthy container always ends, after at most one poll more than the time-out has
  intervals, whatever the container does; and it reports health only when a poll within the time-out
  found the container running after polls that all found it starting.
\<close>

theorem health_wait_ends:
  assumes "\<forall>n. clock n + POLL_INTERVAL_MS \<le> clock (Suc n)" and "0 < timeout"
  shows "\<exists>r. waitForHealthy clock status_at timeout = Some r
    \<and> (r \<longrightarrow> (\<exists>m. status_at m = C_running \<and> clock m - clock 0 < timeout \<and> (\<forall>i < m. status_at i = C_starting)))"
proof -
  let ?k = "nat (timeout div POLL_INTERVAL_MS + 1)"
  have pos: "(0::int) < POLL_INTERVAL_MS" by (simp add: POLL_INTERVAL_MS_def)
  then have "timeout mod POLL_INTERVAL_MS < POLL_INTERVAL_MS" by simp
  then have "timeout < (timeout div POLL_INTERVAL_MS + 1) * POLL_INTERVAL_MS"
    using div_mult_mod_eq [of timeout POLL_INTERVAL_MS] by (simp only: distrib_right)
  moreover have "0 \<le> timeout div POLL_INTERVAL_MS" using assms(2) pos by (simp add: pos_imp_zdiv_nonneg_iff)
  ultimately have "timeout < int (0 + ?k) * POLL_INTERVAL_MS" "0 < ?k" by simp_all
  from poll_ends [OF assms(1) this] obtain r where r: "waitForHealthy clock status_at timeout = Some r"
    unfolding waitForHealthy_def by blast
  moreover have "\<exists>m. status_at m = C_running \<and> clock m - clock 0 < timeout \<and> (\<forall>i < m. status_at i = C_starting)"
    if r using poll_True [OF r [unfolded waitForHealthy_def, simplified that]] that by auto
  ultimately show ?thesis by blast
qed

theorem health_wait_ends_witness:
  "\<exists>r. waitForHealthy (\<lambda>n. 2500 * int n) (\<lambda>n. C_starting) 300000 = Some r"
  using health_wait_ends [of "\<lambda>n. 2500 * int n" 300000 "\<lambda>n. C_starting"]
  by (auto simp: POLL_INTERVAL_MS_def)



end
