(* ===== verification/Ledger.thy ===== *)
theory Ledger
  imports StateStore
begin

section \<open>The resource ownership ledger\<close>

text \<open>
  \<open>server/services/resource-ownership-ledger.ts\<close>: the processes and compose projects the host owns,
  per plugin and bench number, kept as a list of entries in the state file. Every operation loads
  the state, changes the list and saves. The specification is the set of owned facts: a triple of
  plugin, bench number and resource; each operation of the ledger is shown to add or remove exactly
  the facts it names. The sweep over one bench (\<open>clearLedgerForBench\<close>) and the release of a compose
  project are the bench manager's (\<open>server/services/bench-manager.ts\<close>).
\<close>

definition sameKey :: "ledger_entry \<Rightarrow> string \<Rightarrow> int \<Rightarrow> bool" where
  "sameKey e pluginId benchId = (owner_plugin e = pluginId \<and> owner_bench e = benchId)"

definition addUnique :: "string list \<Rightarrow> string \<Rightarrow> string list" where
  "addUnique xs v = (if v \<in> set xs then xs else xs @ [v])"

text \<open>The first entry with the key, changed in place; a fresh one is appended when there is none.\<close>

fun with_entry :: "string \<Rightarrow> int \<Rightarrow> (ledger_entry \<Rightarrow> ledger_entry) \<Rightarrow> ledger_entry list \<Rightarrow> ledger_entry list" where
  "with_entry p b f [] = [f \<lparr>owner_plugin = p, owner_bench = b, processIds = [], composeProjects = []\<rparr>]"
| "with_entry p b f (e # es) = (if sameKey e p b then f e # es else e # with_entry p b f es)"

text \<open>The first entry with the key, changed in place, and dropped when nothing is left in it.\<close>

fun prune_entry :: "string \<Rightarrow> int \<Rightarrow> (ledger_entry \<Rightarrow> ledger_entry) \<Rightarrow> ledger_entry list \<Rightarrow> ledger_entry list" where
  "prune_entry p b f [] = []"
| "prune_entry p b f (e # es) =
     (if sameKey e p b
      then (if processIds (f e) = [] \<and> composeProjects (f e) = [] then es else f e # es)
      else e # prune_entry p b f es)"

definition entries_of :: "persisted_state option \<Rightarrow> ledger_entry list" where
  "entries_of file = coalesce (resourceOwnership (loadState file)) []"

definition save_entries :: "ledger_entry list \<Rightarrow> persisted_state option \<Rightarrow> persisted_state option" where
  "save_entries es file = Some ((loadState file)\<lparr>resourceOwnership := Some es\<rparr>)"

definition recordProcess :: "string \<Rightarrow> int \<Rightarrow> string \<Rightarrow> persisted_state option \<Rightarrow> persisted_state option" where
  "recordProcess pluginId benchId procId file =
     save_entries (with_entry pluginId benchId
       (\<lambda>e. e\<lparr>processIds := addUnique (processIds e) procId\<rparr>) (entries_of file)) file"

definition recordComposeProject ::
    "string \<Rightarrow> int \<Rightarrow> string \<Rightarrow> persisted_state option \<Rightarrow> persisted_state option" where
  "recordComposeProject pluginId benchId composeProject file =
     save_entries (with_entry pluginId benchId
       (\<lambda>e. e\<lparr>composeProjects := addUnique (composeProjects e) composeProject\<rparr>) (entries_of file)) file"

definition clearEntry :: "string \<Rightarrow> int \<Rightarrow> persisted_state option \<Rightarrow> persisted_state option" where
  "clearEntry pluginId benchId file =
     save_entries (filter (\<lambda>e. \<not> sameKey e pluginId benchId) (entries_of file)) file"

definition removeProcess :: "string \<Rightarrow> int \<Rightarrow> string \<Rightarrow> persisted_state option \<Rightarrow> persisted_state option" where
  "removeProcess pluginId benchId procId file =
     save_entries (prune_entry pluginId benchId
       (\<lambda>e. e\<lparr>processIds := filter (\<lambda>i. i \<noteq> procId) (processIds e)\<rparr>) (entries_of file)) file"

definition removeComposeProject ::
    "string \<Rightarrow> int \<Rightarrow> string \<Rightarrow> persisted_state option \<Rightarrow> persisted_state option" where
  "removeComposeProject pluginId benchId composeProject file =
     save_entries (prune_entry pluginId benchId
       (\<lambda>e. e\<lparr>composeProjects := filter (\<lambda>p. p \<noteq> composeProject) (composeProjects e)\<rparr>) (entries_of file)) file"

definition getEntry :: "string \<Rightarrow> int \<Rightarrow> persisted_state option \<Rightarrow> ledger_entry option" where
  "getEntry pluginId benchId file = find (\<lambda>e. sameKey e pluginId benchId) (entries_of file)"

definition getAllEntries :: "persisted_state option \<Rightarrow> ledger_entry list" where
  "getAllEntries file = entries_of file"

definition clearLedgerForBench :: "int \<Rightarrow> persisted_state option \<Rightarrow> persisted_state option" where
  "clearLedgerForBench benchId file =
     fold (\<lambda>e st. if owner_bench e = benchId then clearEntry (owner_plugin e) (owner_bench e) st else st)
       (getAllEntries file) file"

definition releaseComposeProjectFromLedger ::
    "int \<Rightarrow> string \<Rightarrow> persisted_state option \<Rightarrow> persisted_state option" where
  "releaseComposeProjectFromLedger benchId composeProject file =
     fold (\<lambda>e st. if owner_bench e = benchId \<and> composeProject \<in> set (composeProjects e)
                   then removeComposeProject (owner_plugin e) benchId composeProject st else st)
       (getAllEntries file) file"

subsection \<open>Owned facts\<close>

definition procs_in :: "ledger_entry list \<Rightarrow> (string \<times> int \<times> string) set" where
  "procs_in es = {(p, b, x). \<exists>e \<in> set es. owner_plugin e = p \<and> owner_bench e = b \<and> x \<in> set (processIds e)}"

definition composes_in :: "ledger_entry list \<Rightarrow> (string \<times> int \<times> string) set" where
  "composes_in es = {(p, b, x). \<exists>e \<in> set es. owner_plugin e = p \<and> owner_bench e = b \<and> x \<in> set (composeProjects e)}"

definition entry_key :: "ledger_entry \<Rightarrow> string \<times> int" where
  "entry_key e = (owner_plugin e, owner_bench e)"

text \<open>At most one entry for a plugin and bench, no empty entry, no resource twice in one.\<close>

definition row_distinct :: "ledger_entry \<Rightarrow> bool" where
  "row_distinct e \<longleftrightarrow> distinct (processIds e) \<and> distinct (composeProjects e)"

definition row_ok :: "ledger_entry \<Rightarrow> bool" where
  "row_ok e \<longleftrightarrow> row_distinct e \<and> \<not> (processIds e = [] \<and> composeProjects e = [])"

definition ledger_wf :: "ledger_entry list \<Rightarrow> bool" where
  "ledger_wf es \<longleftrightarrow> distinct (map entry_key es) \<and> list_all row_ok es"

lemma ledger_wf_simps [simp]: "ledger_wf []"
  "ledger_wf (e # es) \<longleftrightarrow> entry_key e \<notin> entry_key ` set es \<and> row_ok e \<and> ledger_wf es"
  by (auto simp: ledger_wf_def)

abbreviation owned_procs :: "persisted_state option \<Rightarrow> (string \<times> int \<times> string) set" where
  "owned_procs file \<equiv> procs_in (entries_of file)"

abbreviation owned_composes :: "persisted_state option \<Rightarrow> (string \<times> int \<times> string) set" where
  "owned_composes file \<equiv> composes_in (entries_of file)"

lemma entries_of_save [simp]: "entries_of (save_entries es file) = es"
  by (simp add: entries_of_def save_entries_def)

lemma benches_save [simp]: "state_benches (loadState (save_entries es file)) = state_benches (loadState file)"
  by (simp add: save_entries_def)

lemma sameKey_entry_key: "sameKey e p b \<longleftrightarrow> entry_key e = (p, b)"
  by (simp add: sameKey_def entry_key_def)

lemma procs_in_simps [simp]: "procs_in [] = {}"
  "procs_in (e # es) = {owner_plugin e} \<times> {owner_bench e} \<times> set (processIds e) \<union> procs_in es"
  by (auto simp: procs_in_def)

lemma composes_in_simps [simp]: "composes_in [] = {}"
  "composes_in (e # es) = {owner_plugin e} \<times> {owner_bench e} \<times> set (composeProjects e) \<union> composes_in es"
  by (auto simp: composes_in_def)

lemma set_addUnique [simp]: "set (addUnique xs v) = insert v (set xs)"
  by (auto simp: addUnique_def)

lemma addUnique_props [simp]: "addUnique xs v \<noteq> []" "distinct xs \<Longrightarrow> distinct (addUnique xs v)"
  by (auto simp: addUnique_def)

lemma with_entry_procs:
  "procs_in (with_entry p b (\<lambda>e. e\<lparr>processIds := addUnique (processIds e) x\<rparr>) es) = insert (p, b, x) (procs_in es)"
  "composes_in (with_entry p b (\<lambda>e. e\<lparr>processIds := addUnique (processIds e) x\<rparr>) es) = composes_in es"
  by (induction es) (auto simp: sameKey_def)

lemma with_entry_composes:
  "composes_in (with_entry p b (\<lambda>e. e\<lparr>composeProjects := addUnique (composeProjects e) x\<rparr>) es)
     = insert (p, b, x) (composes_in es)"
  "procs_in (with_entry p b (\<lambda>e. e\<lparr>composeProjects := addUnique (composeProjects e) x\<rparr>) es) = procs_in es"
  by (induction es) (auto simp: sameKey_def)

lemma keys_with_entry:
  "(\<And>e. entry_key (f e) = entry_key e) \<Longrightarrow> entry_key ` set (with_entry p b f es) = insert (p, b) (entry_key ` set es)"
  by (induction es) (auto simp: sameKey_entry_key, auto simp: entry_key_def)

lemma with_entry_wf:
  assumes "\<And>e. entry_key (f e) = entry_key e" and "\<And>e. row_distinct e \<Longrightarrow> row_ok (f e)"
  shows "ledger_wf es \<Longrightarrow> ledger_wf (with_entry p b f es)"
proof (induction es)
  case Nil
  then show ?case using assms(2) by (simp add: row_distinct_def)
next
  case (Cons e es)
  show ?case
  proof (cases "sameKey e p b")
    case True
    moreover have "row_ok (f e)" using Cons.prems by (intro assms(2)) (simp add: row_ok_def)
    ultimately show ?thesis using Cons.prems by (simp add: assms(1))
  next
    case False
    with Cons show ?thesis by (simp add: keys_with_entry [OF assms(1)] sameKey_entry_key)
  qed
qed

lemma no_key_procs: "(p, b) \<notin> entry_key ` set es \<Longrightarrow> (p, b, x) \<notin> procs_in es \<and> (p, b, x) \<notin> composes_in es"
  by (auto simp: procs_in_def composes_in_def entry_key_def)

lemma prune_entry_procs:
  "ledger_wf es \<Longrightarrow>
   procs_in (prune_entry p b (\<lambda>e. e\<lparr>processIds := filter (\<lambda>i. i \<noteq> x) (processIds e)\<rparr>) es) = procs_in es - {(p, b, x)}
   \<and> composes_in (prune_entry p b (\<lambda>e. e\<lparr>processIds := filter (\<lambda>i. i \<noteq> x) (processIds e)\<rparr>) es) = composes_in es"
proof (induction es)
  case (Cons e es)
  show ?case
  proof (cases "sameKey e p b")
    case True
    then have "(p, b, x) \<notin> procs_in es"
      using Cons.prems by (intro no_key_procs [THEN conjunct1]) (simp add: sameKey_entry_key)
    with True show ?thesis by (auto simp: sameKey_def filter_empty_conv)
  next
    case False
    with Cons show ?thesis by (auto simp: sameKey_def)
  qed
qed simp

lemma prune_entry_composes:
  "ledger_wf es \<Longrightarrow>
   composes_in (prune_entry p b (\<lambda>e. e\<lparr>composeProjects := filter (\<lambda>i. i \<noteq> x) (composeProjects e)\<rparr>) es) = composes_in es - {(p, b, x)}
   \<and> procs_in (prune_entry p b (\<lambda>e. e\<lparr>composeProjects := filter (\<lambda>i. i \<noteq> x) (composeProjects e)\<rparr>) es) = procs_in es"
proof (induction es)
  case (Cons e es)
  show ?case
  proof (cases "sameKey e p b")
    case True
    then have "(p, b, x) \<notin> composes_in es"
      using Cons.prems by (intro no_key_procs [THEN conjunct2]) (simp add: sameKey_entry_key)
    with True show ?thesis by (auto simp: sameKey_def filter_empty_conv)
  next
    case False
    with Cons show ?thesis by (auto simp: sameKey_def)
  qed
qed simp

lemma prune_entry_wf:
  assumes "\<And>e. entry_key (f e) = entry_key e" and "\<And>e. row_distinct e \<Longrightarrow> row_distinct (f e)"
  shows "ledger_wf es \<Longrightarrow> ledger_wf (prune_entry p b f es) \<and> entry_key ` set (prune_entry p b f es) \<subseteq> entry_key ` set es"
proof (induction es)
  case (Cons e es)
  have "row_distinct (f e)" using Cons.prems by (intro assms(2)) (simp add: row_ok_def)
  with Cons show ?case by (auto simp: row_ok_def assms(1))
qed simp

lemma filter_key_facts:
  "procs_in (filter (\<lambda>e. \<not> sameKey e p b) es) = {(q, c, x) \<in> procs_in es. (q, c) \<noteq> (p, b)}"
  "composes_in (filter (\<lambda>e. \<not> sameKey e p b) es) = {(q, c, x) \<in> composes_in es. (q, c) \<noteq> (p, b)}"
  by (auto simp: procs_in_def composes_in_def sameKey_def)

lemma filter_wf: "ledger_wf es \<Longrightarrow> ledger_wf (filter q es)"
  by (induction es) auto

subsection \<open>Each operation on the owned facts\<close>

lemmas ledger_ops = recordProcess_def recordComposeProject_def clearEntry_def removeProcess_def
  removeComposeProject_def

datatype ledger_op =
    Record_process string int string
  | Record_compose string int string
  | Remove_process string int string
  | Remove_compose string int string
  | Clear_entry string int

fun run_ledger :: "ledger_op \<Rightarrow> persisted_state option \<Rightarrow> persisted_state option" where
  "run_ledger (Record_process p b x) = recordProcess p b x"
| "run_ledger (Record_compose p b x) = recordComposeProject p b x"
| "run_ledger (Remove_process p b x) = removeProcess p b x"
| "run_ledger (Remove_compose p b x) = removeComposeProject p b x"
| "run_ledger (Clear_entry p b) = clearEntry p b"

lemma run_ledger_wf: "ledger_wf (entries_of s) \<Longrightarrow> ledger_wf (entries_of (run_ledger op s))"
  by (cases op)
     (auto simp: ledger_ops filter_wf row_distinct_def row_ok_def entry_key_def
       intro!: with_entry_wf prune_entry_wf [THEN conjunct1])

interpretation ledger: step_system run_ledger "\<lambda>s. ledger_wf (entries_of s)"
  by unfold_locales (rule run_ledger_wf)

text \<open>The specification: what an operation does to the pair of owned processes and projects.\<close>

type_synonym owned = "(string \<times> int \<times> string) set \<times> (string \<times> int \<times> string) set"

fun spec_ledger :: "ledger_op \<Rightarrow> owned \<Rightarrow> owned" where
  "spec_ledger (Record_process p b x) (ps, cs) = (insert (p, b, x) ps, cs)"
| "spec_ledger (Record_compose p b x) (ps, cs) = (ps, insert (p, b, x) cs)"
| "spec_ledger (Remove_process p b x) (ps, cs) = (ps - {(p, b, x)}, cs)"
| "spec_ledger (Remove_compose p b x) (ps, cs) = (ps, cs - {(p, b, x)})"
| "spec_ledger (Clear_entry p b) (ps, cs) =
     ({(q, c, x) \<in> ps. (q, c) \<noteq> (p, b)}, {(q, c, x) \<in> cs. (q, c) \<noteq> (p, b)})"

definition owned_of :: "persisted_state option \<Rightarrow> owned" where
  "owned_of s = (owned_procs s, owned_composes s)"

lemma run_ledger_spec: "ledger_wf (entries_of s) \<Longrightarrow> owned_of (run_ledger op s) = spec_ledger op (owned_of s)"
  by (cases op)
     (simp_all add: ledger_ops owned_of_def with_entry_procs with_entry_composes prune_entry_procs
       prune_entry_composes filter_key_facts)

lemma run_ledger_benches: "state_benches (loadState (run_ledger op s)) = state_benches (loadState s)"
  by (cases op) (simp_all add: ledger_ops)

lemma run_ledgers_spec:
  "ledger_wf (entries_of s) \<Longrightarrow> owned_of (fold run_ledger os s) = fold spec_ledger os (owned_of s)
     \<and> state_benches (loadState (fold run_ledger os s)) = state_benches (loadState s)"
proof (induction os arbitrary: s)
  case (Cons op os)
  from Cons.IH [OF run_ledger_wf [OF Cons.prems]] show ?case
    by (simp add: run_ledger_spec [OF Cons.prems] run_ledger_benches)
qed simp

lemma clearLedgerForBench_run:
  "clearLedgerForBench b s =
     fold run_ledger (map (\<lambda>e. Clear_entry (owner_plugin e) (owner_bench e))
       (filter (\<lambda>e. owner_bench e = b) (entries_of s))) s"
proof -
  have "fold (\<lambda>e st. if owner_bench e = b then clearEntry (owner_plugin e) (owner_bench e) st else st) es t
      = fold run_ledger (map (\<lambda>e. Clear_entry (owner_plugin e) (owner_bench e)) (filter (\<lambda>e. owner_bench e = b) es)) t"
    for es t by (induction es arbitrary: t) simp_all
  then show ?thesis by (simp add: clearLedgerForBench_def getAllEntries_def)
qed

lemma spec_clears:
  "fold spec_ledger (map (\<lambda>e. Clear_entry (owner_plugin e) (owner_bench e)) es) (ps, cs) =
     ({(p, b, x) \<in> ps. (p, b) \<notin> entry_key ` set es}, {(p, b, x) \<in> cs. (p, b) \<notin> entry_key ` set es})"
  by (induction es arbitrary: ps cs) (auto simp: entry_key_def)

lemma clearLedgerForBench_owned:
  assumes "ledger_wf (entries_of s)"
  shows "owned_of (clearLedgerForBench b s) =
    ({(p, c, x) \<in> owned_procs s. c \<noteq> b}, {(p, c, x) \<in> owned_composes s. c \<noteq> b})"
proof -
  have "owned_of (clearLedgerForBench b s) =
      fold spec_ledger (map (\<lambda>e. Clear_entry (owner_plugin e) (owner_bench e))
        (filter (\<lambda>e. owner_bench e = b) (entries_of s))) (owned_procs s, owned_composes s)"
    using run_ledgers_spec [OF assms] by (simp add: clearLedgerForBench_run owned_of_def)
  then show ?thesis
    unfolding spec_clears by (auto simp: procs_in_def composes_in_def entry_key_def)
qed

subsection \<open>Properties\<close>

text \<open>
  C35. The ledger refines a set of owned facts: after any sequence of operations on a well-formed
  ledger, the recorded processes and compose projects are exactly what adding and removing the
  named facts one by one leaves, the ledger is still well formed (one entry per plugin and bench,
  none empty, nothing twice) and the benches of the state file are untouched.
\<close>

theorem ledger_refines_facts:
  assumes "ledger_wf (entries_of s)"
  shows "owned_of (fold run_ledger os s) = fold spec_ledger os (owned_of s)
    \<and> ledger_wf (entries_of (fold run_ledger os s))
    \<and> state_benches (loadState (fold run_ledger os s)) = state_benches (loadState s)"
  using run_ledgers_spec [OF assms] ledger.inv_run [OF assms] by blast

theorem ledger_refines_facts_witness:
  "owned_of (fold run_ledger [Record_process ''p'' 1 ''a'', Record_process ''p'' 1 ''a'',
     Record_compose ''p'' 1 ''c'', Remove_process ''p'' 1 ''a''] None) = ({}, {(''p'', 1, ''c'')})"
  by (subst ledger_refines_facts [THEN conjunct1])
     (simp_all add: entries_of_def loadState_def owned_of_def)

text \<open>
  Clearing the ledger for a bench number removes every fact recorded under that number, by
  whichever plugin, and nothing else. The number is all it looks at: two projects that each have a
  bench with this number share the rows, so clearing one project's bench releases the other's.
\<close>

theorem clear_bench_exact:
  assumes "ledger_wf (entries_of s)"
  shows "owned_procs (clearLedgerForBench b s) = {(p, c, x) \<in> owned_procs s. c \<noteq> b}
    \<and> owned_composes (clearLedgerForBench b s) = {(p, c, x) \<in> owned_composes s. c \<noteq> b}"
  using clearLedgerForBench_owned [OF assms] by (simp add: owned_of_def)

theorem clear_bench_exact_witness:
  "owned_composes (clearLedgerForBench 1 (recordComposeProject ''docker'' 1 ''roubo-b-bench-1''
      (recordComposeProject ''docker'' 1 ''roubo-a-bench-1'' None))) = {}"
proof -
  let ?s = "recordComposeProject ''docker'' 1 ''roubo-b-bench-1''
      (recordComposeProject ''docker'' 1 ''roubo-a-bench-1'' None)"
  have es: "entries_of ?s = [\<lparr>owner_plugin = ''docker'', owner_bench = 1, processIds = [],
      composeProjects = [''roubo-a-bench-1'', ''roubo-b-bench-1'']\<rparr>]"
    by (simp add: recordComposeProject_def entries_of_def [of None] loadState_def sameKey_def addUnique_def)
  then have "ledger_wf (entries_of ?s)" by (simp add: row_ok_def row_distinct_def)
  from clear_bench_exact [OF this, of 1, THEN conjunct2] show ?thesis
    unfolding es by auto
qed

end
