(* ===== verification/Processes.thy ===== *)
theory Processes
  imports Prelude
begin

section \<open>The process manager\<close>

text \<open>
  \<open>server/services/process-manager.ts\<close>: the map from ids to managed processes and their bounded log
  buffers. The children the operating system runs are the list \<open>running\<close> of process ids; what
  \<open>spawn\<close> answers and whether a kill succeeds are inputs of the operations. An awaited stop is one
  step, from the signal to the child's exit. Output, exit and close events name the child they
  belong to, because a handler keeps the managed object of its own child, and so have no effect
  once another registration has taken the id. The time stamp of an event is an input.
\<close>

datatype log_source = Stdout | Stderr

record log_line =
  line_source :: log_source
  line_text :: string
  line_ts :: string

definition MAX_LOG_LINES :: nat where
  "MAX_LOG_LINES = 5000"

record managed_process =
  managed_id :: string
  child_pid :: "int option"
  child_gone :: bool
  proc_logs :: "log_line list"
  alive :: bool
  exit_code :: "int option"

record process_state =
  processes :: "managed_process jmap"
  running :: "int list"

definition no_processes :: process_state where
  "no_processes = \<lparr>processes = [], running = []\<rparr>"

subsection \<open>Logs\<close>

text \<open>One line pushed, and the oldest dropped when the buffer is over its limit.\<close>

definition push_line :: "log_line \<Rightarrow> log_line list \<Rightarrow> log_line list" where
  "push_line l ls = (let ls' = ls @ [l] in if length ls' > MAX_LOG_LINES then tl ls' else ls')"

definition lines_of :: "log_source \<Rightarrow> string \<Rightarrow> string \<Rightarrow> log_line list" where
  "lines_of src ts t =
     map (\<lambda>x. \<lparr>line_source = src, line_text = x, line_ts = ts\<rparr>) (filter (\<lambda>x. x \<noteq> []) (split_on newline t))"

definition append_lines :: "log_source \<Rightarrow> string \<Rightarrow> string \<Rightarrow> managed_process \<Rightarrow> managed_process" where
  "append_lines src ts t m = m\<lparr>proc_logs := fold push_line (lines_of src ts t) (proc_logs m)\<rparr>"

text \<open>\<open>xs.slice(-tail)\<close>: the last \<open>tail\<close> elements, and all of them when \<open>tail\<close> is zero.\<close>

definition slice_tail :: "nat \<Rightarrow> 'a list \<Rightarrow> 'a list" where
  "slice_tail tail xs = (if tail = 0 then xs else drop (length xs - tail) xs)"

definition getProcessLogLines :: "string \<Rightarrow> nat \<Rightarrow> process_state \<Rightarrow> log_line list" where
  "getProcessLogLines i tail s =
     (case map_of (processes s) i of None \<Rightarrow> [] | Some m \<Rightarrow> slice_tail tail (proc_logs m))"

definition getProcessLogs :: "string \<Rightarrow> nat \<Rightarrow> process_state \<Rightarrow> string list" where
  "getProcessLogs i tail s = map line_text (getProcessLogLines i tail s)"

definition getProcessStatus :: "string \<Rightarrow> process_state \<Rightarrow> bool \<times> int option" where
  "getProcessStatus i s =
     (case map_of (processes s) i of None \<Rightarrow> (False, None) | Some m \<Rightarrow> (alive m, exit_code m))"

definition getProcessPid :: "string \<Rightarrow> process_state \<Rightarrow> int option" where
  "getProcessPid i s = Option.bind (map_of (processes s) i) child_pid"

definition clearProcessLogs :: "string \<Rightarrow> process_state \<Rightarrow> process_state" where
  "clearProcessLogs i s = s\<lparr>processes := jdel i (processes s)\<rparr>"

definition last_lines :: "log_line list \<Rightarrow> log_line list" where
  "last_lines ls = drop (length ls - MAX_LOG_LINES) ls"

definition storeCommandLogs :: "string \<Rightarrow> string \<Rightarrow> string \<Rightarrow> string \<Rightarrow> process_state \<Rightarrow> process_state" where
  "storeCommandLogs i ts out err s =
     (let ls = lines_of Stdout ts out @ lines_of Stderr ts err in
      if ls = [] then s
      else case map_of (processes s) i of
             Some m \<Rightarrow> s\<lparr>processes := jput i (m\<lparr>proc_logs := last_lines (proc_logs m @ ls)\<rparr>) (processes s)\<rparr>
           | None \<Rightarrow> s\<lparr>processes := jput i \<lparr>managed_id = i, child_pid = None, child_gone = False,
               proc_logs = last_lines ls, alive = False, exit_code = None\<rparr> (processes s)\<rparr>)"

subsection \<open>Starting and stopping\<close>

definition fresh_process :: "string \<Rightarrow> int option \<Rightarrow> managed_process" where
  "fresh_process i p = \<lparr>managed_id = i, child_pid = p, child_gone = False, proc_logs = [], alive = True,
     exit_code = None\<rparr>"

text \<open>
  A stop of a live child ends with its exit, or, when the final kill fails, gives up on it; either
  way the entry goes.
\<close>

definition stopProcess :: "bool \<Rightarrow> string \<Rightarrow> process_state \<Rightarrow> process_state" where
  "stopProcess killed i s =
     (case map_of (processes s) i of
        None \<Rightarrow> s
      | Some m \<Rightarrow>
          (let gone = s\<lparr>processes := jdel i (processes s)\<rparr> in
           if \<not> alive m \<or> child_gone m then gone
           else case child_pid m of
                  None \<Rightarrow> gone
                | Some p \<Rightarrow> if killed then gone\<lparr>running := filter (\<lambda>q. q \<noteq> p) (running s)\<rparr> else gone))"

definition register :: "string \<Rightarrow> int option \<Rightarrow> process_state \<Rightarrow> process_state" where
  "register i spawned s =
     s\<lparr>processes := jput i (fresh_process i spawned) (processes s),
       running := (case spawned of None \<Rightarrow> running s | Some p \<Rightarrow> running s @ [p])\<rparr>"

text \<open>The result is the child's process id, or the error of a spawn that gave none.\<close>

definition startProcess ::
    "bool \<Rightarrow> string \<Rightarrow> int option \<Rightarrow> process_state \<Rightarrow> (string + int) \<times> process_state" where
  "startProcess killed i spawned s =
     (let s1 = (if jhas (processes s) i then stopProcess killed i s else s); s2 = register i spawned s1
      in case spawned of
           Some p \<Rightarrow> (Inr p, s2)
         | None \<Rightarrow> (Inl (''Failed to start process '' @ [dquote] @ i @ [dquote] @ '': no PID assigned''), s2))"

text \<open>\<open>runProcess\<close> up to its first await: it registers its child without stopping an earlier one.\<close>

definition runProcess :: "string \<Rightarrow> int option \<Rightarrow> process_state \<Rightarrow> process_state" where
  "runProcess i spawned s = register i spawned s"

definition on_child :: "int \<Rightarrow> (managed_process \<Rightarrow> managed_process) \<Rightarrow> process_state \<Rightarrow> process_state" where
  "on_child p f s = s\<lparr>processes := map (\<lambda>(k, m). (k, if child_pid m = Some p then f m else m)) (processes s)\<rparr>"

definition on_exit :: "int \<Rightarrow> process_state \<Rightarrow> process_state" where
  "on_exit p s = (on_child p (\<lambda>m. m\<lparr>child_gone := True\<rparr>) s)\<lparr>running := filter (\<lambda>q. q \<noteq> p) (running s)\<rparr>"

definition on_close :: "int \<Rightarrow> int option \<Rightarrow> process_state \<Rightarrow> process_state" where
  "on_close p code s = on_child p (\<lambda>m. m\<lparr>alive := False, exit_code := code\<rparr>) (on_exit p s)"

definition on_data :: "int \<Rightarrow> log_source \<Rightarrow> string \<Rightarrow> string \<Rightarrow> process_state \<Rightarrow> process_state" where
  "on_data p src ts t s = on_child p (append_lines src ts t) s"

text \<open>The error of a spawn that gave no child.\<close>

definition on_spawn_error :: "string \<Rightarrow> string \<Rightarrow> string \<Rightarrow> process_state \<Rightarrow> process_state" where
  "on_spawn_error i ts message s =
     (case map_of (processes s) i of
        None \<Rightarrow> s
      | Some m \<Rightarrow> if child_pid m \<noteq> None then s
          else s\<lparr>processes := jput i ((append_lines Stderr ts (''[process error] '' @ message) m)\<lparr>alive := False\<rparr>)
                 (processes s)\<rparr>)"

definition stopAllProcesses :: "process_state \<Rightarrow> process_state" where
  "stopAllProcesses s = fold (stopProcess True) (jkeys (processes s)) s"

subsection \<open>The buffers are bounded\<close>

definition logs_ok :: "process_state \<Rightarrow> bool" where
  "logs_ok s \<longleftrightarrow> (\<forall>(k, m) \<in> set (processes s). length (proc_logs m) \<le> MAX_LOG_LINES)"

lemma push_line_le: "length ls \<le> MAX_LOG_LINES \<Longrightarrow> length (push_line l ls) \<le> MAX_LOG_LINES"
  by (simp add: push_line_def Let_def)

lemma push_lines_le: "length ls \<le> MAX_LOG_LINES \<Longrightarrow> length (fold push_line xs ls) \<le> MAX_LOG_LINES"
  by (induction xs arbitrary: ls) (auto intro: push_line_le)

lemma push_last_lines: "push_line x (last_lines zs) = last_lines (zs @ [x])"
proof (cases "length zs < MAX_LOG_LINES")
  case True
  then show ?thesis by (simp add: push_line_def last_lines_def)
next
  case False
  have pos: "0 < MAX_LOG_LINES" by (simp add: MAX_LOG_LINES_def)
  have len: "length (last_lines zs) = MAX_LOG_LINES" using False by (simp add: last_lines_def)
  with pos have ne: "last_lines zs \<noteq> []" by auto
  have "push_line x (last_lines zs) = tl (last_lines zs) @ [x]" using len ne by (simp add: push_line_def Let_def)
  moreover have "tl (last_lines zs) = drop (Suc (length zs) - MAX_LOG_LINES) zs"
    using False by (simp add: last_lines_def tl_drop drop_Suc [symmetric] Suc_diff_le)
  ultimately show ?thesis using pos by (simp add: last_lines_def)
qed

lemma push_lines_eq: "length ls \<le> MAX_LOG_LINES \<Longrightarrow> fold push_line xs ls = last_lines (ls @ xs)"
proof (induction xs rule: rev_induct)
  case Nil
  then show ?case by (simp add: last_lines_def)
next
  case (snoc x xs)
  then show ?case by (simp add: push_last_lines)
qed

lemma logs_ok_put: "logs_ok s \<Longrightarrow> length (proc_logs m) \<le> MAX_LOG_LINES \<Longrightarrow>
    logs_ok (s\<lparr>processes := jput i m (processes s)\<rparr>)"
  unfolding logs_ok_def using set_jput_subset [of i m "processes s"] by fastforce

lemma logs_ok_del: "logs_ok s \<Longrightarrow> logs_ok (s\<lparr>processes := jdel i (processes s)\<rparr>)"
  by (auto simp: logs_ok_def jdel_def)

lemma logs_ok_running [simp]: "logs_ok (s\<lparr>running := r\<rparr>) = logs_ok s"
  by (simp add: logs_ok_def)

lemma logs_ok_child: "logs_ok s \<Longrightarrow> (\<And>m. length (proc_logs m) \<le> MAX_LOG_LINES \<Longrightarrow> length (proc_logs (f m)) \<le> MAX_LOG_LINES)
    \<Longrightarrow> logs_ok (on_child p f s)"
  by (fastforce simp: logs_ok_def on_child_def)

lemma logs_ok_stop: "logs_ok s \<Longrightarrow> logs_ok (stopProcess killed i s)"
  using logs_ok_del [of s i] by (auto simp: stopProcess_def Let_def split: option.split)

lemma logs_ok_register: "logs_ok s \<Longrightarrow> logs_ok (register i p s)"
  using logs_ok_put [of s "fresh_process i p" i] by (auto simp: register_def fresh_process_def logs_ok_def)

datatype process_op =
    Start_op bool string "int option"
  | Run_op string "int option"
  | Stop_op bool string
  | Exit_op int
  | Close_op int "int option"
  | Data_op int log_source string string
  | Store_op string string string string
  | Clear_op string
  | Spawn_error_op string string string

fun run_process_op :: "process_op \<Rightarrow> process_state \<Rightarrow> process_state" where
  "run_process_op (Start_op killed i p) s = snd (startProcess killed i p s)"
| "run_process_op (Run_op i p) s = runProcess i p s"
| "run_process_op (Stop_op killed i) s = stopProcess killed i s"
| "run_process_op (Exit_op p) s = on_exit p s"
| "run_process_op (Close_op p code) s = on_close p code s"
| "run_process_op (Data_op p src ts t) s = on_data p src ts t s"
| "run_process_op (Store_op i ts out err) s = storeCommandLogs i ts out err s"
| "run_process_op (Clear_op i) s = clearProcessLogs i s"
| "run_process_op (Spawn_error_op i ts message) s = on_spawn_error i ts message s"

lemma logs_ok_exit: "logs_ok s \<Longrightarrow> logs_ok (on_exit p s)"
  using logs_ok_child [of s "\<lambda>m. m\<lparr>child_gone := True\<rparr>" p] by (simp add: on_exit_def)

lemma logs_ok_store: "logs_ok s \<Longrightarrow> logs_ok (storeCommandLogs i ts out err s)"
  by (auto simp: storeCommandLogs_def Let_def last_lines_def intro!: logs_ok_put split: option.split)

lemma logs_ok_lookup: "logs_ok s \<Longrightarrow> map_of (processes s) i = Some m \<Longrightarrow> length (proc_logs m) \<le> MAX_LOG_LINES"
  by (auto simp: logs_ok_def dest!: map_of_SomeD)

lemma logs_ok_spawn_error: "logs_ok s \<Longrightarrow> logs_ok (on_spawn_error i ts message s)"
  by (auto simp: on_spawn_error_def append_lines_def intro!: logs_ok_put push_lines_le
      dest: logs_ok_lookup split: option.split)

lemma logs_ok_op: "logs_ok s \<Longrightarrow> logs_ok (run_process_op op s)"
proof (cases op)
  case (Start_op killed i p)
  then show "logs_ok s \<Longrightarrow> ?thesis"
    by (auto simp: startProcess_def Let_def intro!: logs_ok_register logs_ok_stop split: option.split)
next
  case (Data_op p src ts t)
  then show "logs_ok s \<Longrightarrow> ?thesis"
    by (auto simp: on_data_def append_lines_def intro!: logs_ok_child push_lines_le)
next
  case (Close_op p code)
  then show "logs_ok s \<Longrightarrow> ?thesis"
    by (auto simp: on_close_def intro!: logs_ok_child logs_ok_exit)
qed (auto simp: runProcess_def clearProcessLogs_def intro: logs_ok_register logs_ok_stop logs_ok_exit logs_ok_store
    logs_ok_del logs_ok_spawn_error)

interpretation process_logs: step_system run_process_op logs_ok
  by unfold_locales (rule logs_ok_op)

subsection \<open>Every running child is held\<close>

definition holds_child :: "process_state \<Rightarrow> int \<Rightarrow> bool" where
  "holds_child s p \<longleftrightarrow> (\<exists>k m. map_of (processes s) k = Some m \<and> child_pid m = Some p \<and> alive m \<and> \<not> child_gone m)"

definition tracked :: "process_state \<Rightarrow> bool" where
  "tracked s \<longleftrightarrow> jwf (processes s) \<and> (\<forall>p \<in> set (running s). holds_child s p)"

lemma holds_childI: "map_of (processes s) k = Some m \<Longrightarrow> child_pid m = Some p \<Longrightarrow> alive m \<Longrightarrow> \<not> child_gone m \<Longrightarrow>
    holds_child s p"
  by (auto simp: holds_child_def)

lemma holds_childE:
  assumes "holds_child s p"
  obtains k m where "map_of (processes s) k = Some m" "child_pid m = Some p" "alive m" "\<not> child_gone m"
  using assms by (auto simp: holds_child_def)

lemma map_of_on_child: "map_of (processes (on_child p f s)) k
    = map_option (\<lambda>m. if child_pid m = Some p then f m else m) (map_of (processes s) k)"
  by (simp add: on_child_def map_of_map_snd)

lemma jkeys_on_child [simp]: "jkeys (processes (on_child p f s)) = jkeys (processes s)"
  by (simp add: on_child_def comp_def case_prod_unfold)

lemma running_on_child [simp]: "running (on_child p f s) = running s"
  by (simp add: on_child_def)

lemma holds_on_child_other:
  assumes "q \<noteq> p" and "holds_child s q"
  shows "holds_child (on_child p f s) q"
  using assms(2)
proof (rule holds_childE)
  fix k m assume "map_of (processes s) k = Some m" "child_pid m = Some q" "alive m" "\<not> child_gone m"
  with assms(1) show ?thesis by (intro holds_childI [of _ k m]) (simp_all add: map_of_on_child)
qed

lemma holds_on_child_keep:
  assumes f: "\<And>m. child_pid (f m) = child_pid m" "\<And>m. alive (f m) = alive m" "\<And>m. child_gone (f m) = child_gone m"
    and "holds_child s q"
  shows "holds_child (on_child p f s) q"
  using assms(4)
proof (rule holds_childE)
  fix k m assume "map_of (processes s) k = Some m" "child_pid m = Some q" "alive m" "\<not> child_gone m"
  then show ?thesis
    by (intro holds_childI [of _ k "if child_pid m = Some p then f m else m"]) (simp_all add: map_of_on_child f)
qed

lemma holds_running [simp]: "holds_child (s\<lparr>running := r\<rparr>) q = holds_child s q"
  by (simp add: holds_child_def)

lemma trackedD: "tracked s \<Longrightarrow> q \<in> set (running s) \<Longrightarrow> holds_child s q"
  by (simp add: tracked_def)

lemma trackedI: "jwf (processes s) \<Longrightarrow> (\<And>q. q \<in> set (running s) \<Longrightarrow> holds_child s q) \<Longrightarrow> tracked s"
  by (simp add: tracked_def)

lemma tracked_jwf: "tracked s \<Longrightarrow> jwf (processes s)"
  by (simp add: tracked_def)

lemma holds_after_del:
  assumes "holds_child s q" and "map_of (processes s) i = Some m"
    and "child_pid m \<noteq> Some q \<or> \<not> alive m \<or> child_gone m"
  shows "holds_child (s\<lparr>processes := jdel i (processes s)\<rparr>) q"
  using assms(1)
proof (rule holds_childE)
  fix k m' assume k: "map_of (processes s) k = Some m'" "child_pid m' = Some q" "alive m'" "\<not> child_gone m'"
  then have "k \<noteq> i" using assms(2,3) by auto
  with k show ?thesis by (intro holds_childI [of _ k m']) simp_all
qed

lemma tracked_stop:
  assumes "tracked s"
  shows "tracked (stopProcess True i s)"
proof (cases "map_of (processes s) i")
  case None
  with assms show ?thesis by (simp add: stopProcess_def)
next
  case (Some m)
  let ?g = "s\<lparr>processes := jdel i (processes s)\<rparr>"
  have w: "jwf (processes ?g)" using tracked_jwf [OF assms] by simp
  have h: "holds_child ?g q" if "q \<in> set (running s)" "child_pid m \<noteq> Some q \<or> \<not> alive m \<or> child_gone m" for q
    using holds_after_del [OF trackedD [OF assms that(1)] Some that(2)] .
  show ?thesis
  proof (cases "\<not> alive m \<or> child_gone m \<or> child_pid m = None")
    case True
    then have "stopProcess True i s = ?g" using Some by (auto simp: stopProcess_def Let_def)
    moreover have "tracked ?g" using True h w by (intro trackedI) auto
    ultimately show ?thesis by simp
  next
    case False
    then obtain p where p: "child_pid m = Some p" "alive m" "\<not> child_gone m" by auto
    then have "stopProcess True i s = ?g\<lparr>running := filter (\<lambda>q. q \<noteq> p) (running s)\<rparr>"
      using Some by (simp add: stopProcess_def Let_def)
    moreover have "tracked (?g\<lparr>running := filter (\<lambda>q. q \<noteq> p) (running s)\<rparr>)"
    proof (rule trackedI)
      fix q assume "q \<in> set (running (?g\<lparr>running := filter (\<lambda>q. q \<noteq> p) (running s)\<rparr>))"
      then have q: "q \<in> set (running s)" "child_pid m \<noteq> Some q" using p(1) by auto
      from h [OF q(1)] q(2) show "holds_child (?g\<lparr>running := filter (\<lambda>q. q \<noteq> p) (running s)\<rparr>) q" by simp
    qed (use w in simp)
    ultimately show ?thesis by simp
  qed
qed

lemma tracked_register:
  assumes "tracked s" and "\<not> jhas (processes s) i"
  shows "tracked (register i p s)"
proof (rule trackedI)
  show "jwf (processes (register i p s))" using tracked_jwf [OF assms(1)] by (simp add: register_def)
  fix q assume "q \<in> set (running (register i p s))"
  then consider "p = Some q" | "q \<in> set (running s)" by (auto simp: register_def split: option.splits)
  then show "holds_child (register i p s) q"
  proof cases
    case 1
    then show ?thesis by (intro holds_childI [of _ i "fresh_process i p"]) (simp_all add: register_def fresh_process_def)
  next
    case 2
    from trackedD [OF assms(1) 2] show ?thesis
    proof (rule holds_childE)
      fix k m assume k: "map_of (processes s) k = Some m" "child_pid m = Some q" "alive m" "\<not> child_gone m"
      have "k \<noteq> i" using k(1) assms(2) by (auto simp: jhas_iff)
      with k show ?thesis by (intro holds_childI [of _ k m]) (simp_all add: register_def)
    qed
  qed
qed

lemma jhas_stop: "\<not> jhas (processes (stopProcess killed i s)) i"
  by (auto simp: stopProcess_def Let_def jhas_iff split: option.split)

lemma tracked_start: "tracked s \<Longrightarrow> tracked (snd (startProcess True i p s))"
proof -
  assume t: "tracked s"
  let ?s = "if jhas (processes s) i then stopProcess True i s else s"
  have "tracked ?s" using t tracked_stop by simp
  moreover have "\<not> jhas (processes ?s) i" using jhas_stop by simp
  ultimately have "tracked (register i p ?s)" by (rule tracked_register)
  moreover have "snd (startProcess True i p s) = register i p ?s"
    by (simp add: startProcess_def Let_def split: option.split)
  ultimately show ?thesis by simp
qed

lemma tracked_exit: "tracked s \<Longrightarrow> tracked (on_exit p s)"
proof (rule trackedI)
  assume t: "tracked s"
  then show "jwf (processes (on_exit p s))" using tracked_jwf by (simp add: on_exit_def)
  fix q assume "q \<in> set (running (on_exit p s))"
  then have "q \<in> set (running s)" "q \<noteq> p" by (auto simp: on_exit_def)
  with t show "holds_child (on_exit p s) q"
    using holds_on_child_other [OF _ trackedD] by (simp add: on_exit_def)
qed

lemma tracked_close: "tracked s \<Longrightarrow> tracked (on_close p code s)"
proof (rule trackedI)
  assume t: "tracked s"
  show "jwf (processes (on_close p code s))" using tracked_jwf [OF tracked_exit [OF t]] by (simp add: on_close_def)
  fix q assume "q \<in> set (running (on_close p code s))"
  then have q: "q \<in> set (running (on_exit p s))" "q \<noteq> p" by (auto simp: on_close_def on_exit_def)
  show "holds_child (on_close p code s) q"
    unfolding on_close_def by (rule holds_on_child_other [OF q(2) trackedD [OF tracked_exit [OF t] q(1)]])
qed

lemma tracked_data: "tracked s \<Longrightarrow> tracked (on_data p src ts t s)"
proof (rule trackedI)
  assume t: "tracked s"
  then show "jwf (processes (on_data p src ts t s))" using tracked_jwf by (simp add: on_data_def)
  fix q assume "q \<in> set (running (on_data p src ts t s))"
  then have "holds_child s q" using t trackedD by (simp add: on_data_def)
  then show "holds_child (on_data p src ts t s) q"
    unfolding on_data_def by (rule holds_on_child_keep [rotated 3]) (simp_all add: append_lines_def)
qed

lemma tracked_put:
  assumes "tracked s"
    and "\<And>m q. map_of (processes s) i = Some m \<Longrightarrow> child_pid m = Some q \<Longrightarrow>
      child_pid m' = Some q \<and> alive m' = alive m \<and> child_gone m' = child_gone m"
  shows "tracked (s\<lparr>processes := jput i m' (processes s)\<rparr>)"
proof (rule trackedI)
  show "jwf (processes (s\<lparr>processes := jput i m' (processes s)\<rparr>))" using tracked_jwf [OF assms(1)] by simp
  fix q assume "q \<in> set (running (s\<lparr>processes := jput i m' (processes s)\<rparr>))"
  then have "holds_child s q" using trackedD [OF assms(1)] by simp
  then show "holds_child (s\<lparr>processes := jput i m' (processes s)\<rparr>) q"
  proof (rule holds_childE)
    fix k m assume k: "map_of (processes s) k = Some m" "child_pid m = Some q" "alive m" "\<not> child_gone m"
    show ?thesis
    proof (cases "k = i")
      case True
      with k assms(2) [of m q] show ?thesis by (intro holds_childI [of _ i m']) simp_all
    next
      case False
      with k show ?thesis by (intro holds_childI [of _ k m]) simp_all
    qed
  qed
qed

lemma tracked_store: "tracked s \<Longrightarrow> tracked (storeCommandLogs i ts out err s)"
  by (auto simp: storeCommandLogs_def Let_def intro!: tracked_put split: option.split)

lemma tracked_spawn_error: "tracked s \<Longrightarrow> tracked (on_spawn_error i ts message s)"
  by (auto simp: on_spawn_error_def append_lines_def intro!: tracked_put split: option.split)

text \<open>
  The operations of a host on which kills succeed: starts and stops, events of the children, and
  stored logs. A one-shot run counts where its id is not in use.
\<close>

fun disciplined :: "process_state \<Rightarrow> process_op \<Rightarrow> bool" where
  "disciplined s (Start_op killed i p) = killed"
| "disciplined s (Stop_op killed i) = killed"
| "disciplined s (Run_op i p) = (\<not> jhas (processes s) i)"
| "disciplined s (Clear_op i) = (\<forall>m. map_of (processes s) i = Some m \<longrightarrow> \<not> alive m)"
| "disciplined s op = True"

lemma tracked_clear:
  assumes "tracked s" and "\<And>m. map_of (processes s) i = Some m \<Longrightarrow> \<not> alive m"
  shows "tracked (clearProcessLogs i s)"
proof (cases "map_of (processes s) i")
  case None
  then have "clearProcessLogs i s = s" by (simp add: clearProcessLogs_def jdel_absent)
  with assms(1) show ?thesis by simp
next
  case (Some m)
  show ?thesis unfolding clearProcessLogs_def
    using tracked_jwf [OF assms(1)] holds_after_del [OF trackedD [OF assms(1)] Some] assms(2) [OF Some]
    by (intro trackedI) simp_all
qed

lemma tracked_op: "tracked s \<Longrightarrow> disciplined s op \<Longrightarrow> tracked (run_process_op op s)"
proof (cases op)
  case (Clear_op i)
  then show "tracked s \<Longrightarrow> disciplined s op \<Longrightarrow> ?thesis" by (auto intro!: tracked_clear)
qed (auto simp: runProcess_def tracked_stop tracked_start tracked_register tracked_exit tracked_close tracked_data
    tracked_store tracked_spawn_error)

fun disciplined_run :: "process_state \<Rightarrow> process_op list \<Rightarrow> bool" where
  "disciplined_run s [] = True"
| "disciplined_run s (op # os) = (disciplined s op \<and> disciplined_run (run_process_op op s) os)"

lemma tracked_run: "tracked s \<Longrightarrow> disciplined_run s os \<Longrightarrow> tracked (fold run_process_op os s)"
  by (induction os arbitrary: s) (auto dest: tracked_op)

lemma tracked_none: "tracked no_processes" and logs_ok_none: "logs_ok no_processes"
  by (simp_all add: tracked_def no_processes_def logs_ok_def)

lemma keys_stop: "fst ` set (processes (stopProcess killed i s)) = fst ` set (processes s) - {i}"
proof (cases "map_of (processes s) i")
  case None
  then have "stopProcess killed i s = s" by (simp add: stopProcess_def)
  moreover have "i \<notin> fst ` set (processes s)" using None by (simp add: map_of_eq_None_iff)
  ultimately show ?thesis by simp
next
  case (Some m)
  then show ?thesis by (simp add: stopProcess_def Let_def split: option.split)
qed

lemma stop_all_run:
  "tracked s \<Longrightarrow> tracked (fold (stopProcess True) is s)
     \<and> fst ` set (processes (fold (stopProcess True) is s)) = fst ` set (processes s) - set is"
proof (induction "is" arbitrary: s)
  case (Cons i "is")
  from Cons.IH [OF tracked_stop [OF Cons.prems]] show ?case by (auto simp: keys_stop)
qed simp

lemma tracked_empty: "tracked s \<Longrightarrow> processes s = [] \<Longrightarrow> running s = []"
proof (rule ccontr)
  assume t: "tracked s" and e: "processes s = []" and "running s \<noteq> []"
  then have "holds_child s (hd (running s))" by (intro trackedD) simp_all
  then show False by (rule holds_childE) (simp add: e)
qed

lemma stopAll_stops: "tracked s \<Longrightarrow> running (stopAllProcesses s) = []"
  using stop_all_run [of s "jkeys (processes s)"] tracked_empty [of "stopAllProcesses s"]
  by (simp add: stopAllProcesses_def)

subsection \<open>Properties\<close>



end
