(* ===== verification/Supersession.thy ===== *)
theory Supersession
  imports Prelude
begin

section \<open>Supersession resolution\<close>

text \<open>
  \<open>shared/lifecycle-resolver.ts\<close>: retired and superseded test cases, and the walk that follows
  replacement pointers from a superseded case to a live one, across specs, with a cycle guard and
  a depth limit. The state of the walk (\<open>currentSlug\<close>, \<open>currentCase\<close>, \<open>hops\<close>, \<open>visited\<close>,
  \<open>chain\<close>) is the argument list of \<open>walk\<close>, whose recursion is the source's \<open>for (;;)\<close>; it ends
  because every iteration adds a hop and the limit stops it. The step relation \<open>hop\<close> is the
  specification of one pointer, and the properties relate the walk to its iterates.
\<close>

definition MAX_SUPERSESSION_DEPTH :: nat where
  "MAX_SUPERSESSION_DEPTH = 10"

datatype unresolved_reason =
    Target_missing | Target_archived | Target_not_live
  | Cycle_detected | Depth_exceeded | Target_spec_not_supplied

definition UNRESOLVED_REASONS :: "unresolved_reason list" where
  "UNRESOLVED_REASONS =
     [Target_missing, Target_archived, Target_not_live, Cycle_detected, Depth_exceeded,
      Target_spec_not_supplied]"

datatype case_lifecycle =
    Retired string
  | Superseded string "string option"

record rcase =
  case_id :: string
  lifecycle :: "case_lifecycle option"

record rplan =
  plan_slug :: string
  plan_cases :: "rcase list"

record spec_lifecycle =
  archive_reason :: "string option"
  supersededBy :: "string option"

record resolver_inputs =
  plans :: "rplan jmap"
  spec_lifecycles :: "spec_lifecycle jmap option"

record pointer_ref =
  ref_slug :: string
  ref_case :: string

datatype case_state = Live | Retired_state | Superseded_state

datatype spec_state = Spec_live | Spec_archived | Spec_not_supplied

datatype resolution_status = Res_live | Res_resolved | Res_retired | Res_unresolved

record resolution =
  res_origin :: pointer_ref
  originState :: case_state
  res_status :: resolution_status
  res_chain :: "pointer_ref list"
  resolvedTo :: "pointer_ref option"
  res_reason :: "unresolved_reason option"
  targetCaseState :: "case_state option"
  targetSpecState :: spec_state
  res_supersededBy :: "string option"

subsection \<open>States and pointers\<close>

text \<open>The argument of \<open>caseStateOf\<close>: a case, a lifecycle block on its own, or \<open>undefined\<close>.\<close>

datatype subject = Subject_case rcase | Subject_lifecycle case_lifecycle

fun lifecycle_state :: "case_lifecycle \<Rightarrow> case_state" where
  "lifecycle_state (Retired r) = Retired_state"
| "lifecycle_state (Superseded p r) = Superseded_state"

definition caseStateOf :: "subject option \<Rightarrow> case_state" where
  "caseStateOf subj =
     (case subj of
        None \<Rightarrow> Live
      | Some s \<Rightarrow>
          (case (case s of Subject_lifecycle l \<Rightarrow> Some l | Subject_case c \<Rightarrow> lifecycle c) of
             None \<Rightarrow> Live
           | Some l \<Rightarrow> lifecycle_state l))"

definition isCaseLive :: "subject option \<Rightarrow> bool" where
  "isCaseLive subj = (caseStateOf subj = Live)"

definition isSpecLive :: "spec_lifecycle option \<Rightarrow> bool" where
  "isSpecLive r = (r = None)"

abbreviation state_of :: "rcase \<Rightarrow> case_state" where
  "state_of c \<equiv> caseStateOf (Some (Subject_case c))"

definition parseReplacementPointer :: "string \<Rightarrow> string \<Rightarrow> pointer_ref" where
  "parseReplacementPointer replacement containingSlug =
     (case index_of (CHR '':'') replacement of
        None \<Rightarrow> \<lparr>ref_slug = containingSlug, ref_case = replacement\<rparr>
      | Some separator \<Rightarrow>
          \<lparr>ref_slug = take separator replacement, ref_case = drop (separator + 1) replacement\<rparr>)"

fun collect_slugs :: "string \<Rightarrow> string list \<Rightarrow> rcase list \<Rightarrow> string list" where
  "collect_slugs own seen [] = []"
| "collect_slugs own seen (testCase # rest) =
     (case lifecycle testCase of
        Some (Superseded replacement r) \<Rightarrow>
          (let pointer = parseReplacementPointer replacement own
           in if ref_slug pointer = own then collect_slugs own seen rest
              else if ref_slug pointer \<in> set seen then collect_slugs own seen rest
              else ref_slug pointer # collect_slugs own (ref_slug pointer # seen) rest)
      | _ \<Rightarrow> collect_slugs own seen rest)"

definition collectReferencedSlugs :: "rplan \<Rightarrow> string list" where
  "collectReferencedSlugs plan = collect_slugs (plan_slug plan) [] (plan_cases plan)"

definition visitedKey :: "pointer_ref \<Rightarrow> string" where
  "visitedKey r = ref_slug r @ '':'' @ ref_case r"

definition findCase :: "rplan option \<Rightarrow> string \<Rightarrow> rcase option" where
  "findCase plan caseId =
     (case plan of None \<Rightarrow> None | Some p \<Rightarrow> find (\<lambda>entry. case_id entry = caseId) (plan_cases p))"

definition spec_record :: "resolver_inputs \<Rightarrow> string \<Rightarrow> spec_lifecycle option" where
  "spec_record inp s = (case spec_lifecycles inp of None \<Rightarrow> None | Some m \<Rightarrow> map_of m s)"

definition specStateOf :: "string \<Rightarrow> resolver_inputs \<Rightarrow> spec_state" where
  "specStateOf s inp =
     (if \<not> jhas (plans inp) s then Spec_not_supplied
      else if spec_record inp s \<noteq> None then Spec_archived else Spec_live)"

subsection \<open>The walk\<close>

definition unresolved ::
    "pointer_ref \<Rightarrow> case_state \<Rightarrow> pointer_ref list \<Rightarrow> unresolved_reason \<Rightarrow> case_state option
      \<Rightarrow> spec_state \<Rightarrow> string option \<Rightarrow> resolution" where
  "unresolved org st ch why tcs tss by =
     \<lparr>res_origin = org, originState = st, res_status = Res_unresolved, res_chain = ch, resolvedTo = None,
      res_reason = Some why, targetCaseState = tcs, targetSpecState = tss, res_supersededBy = by\<rparr>"

function walk ::
    "resolver_inputs \<Rightarrow> pointer_ref \<Rightarrow> case_state \<Rightarrow> string \<Rightarrow> rcase \<Rightarrow> nat \<Rightarrow> string list
      \<Rightarrow> pointer_ref list \<Rightarrow> resolution" where
  "walk inp org st currentSlug currentCase hops visited ch =
     (case lifecycle currentCase of
        Some (Superseded replacement r) \<Rightarrow>
          (let pointer = parseReplacementPointer replacement currentSlug in
           if visitedKey pointer \<in> set visited then
             unresolved org st (ch @ [pointer]) Cycle_detected
               (map_option (\<lambda>c. state_of c)
                  (findCase (map_of (plans inp) (ref_slug pointer)) (ref_case pointer)))
               (specStateOf (ref_slug pointer) inp)
               (Option.bind (spec_record inp (ref_slug pointer)) supersededBy)
           else if hops \<ge> MAX_SUPERSESSION_DEPTH then
             unresolved org st ch Depth_exceeded (Some Superseded_state)
               (specStateOf currentSlug inp)
               (Option.bind (spec_record inp currentSlug) supersededBy)
           else
             (let ch' = ch @ [pointer] in
              case map_of (plans inp) (ref_slug pointer) of
                None \<Rightarrow> unresolved org st ch' Target_spec_not_supplied None Spec_not_supplied None
              | Some targetPlan \<Rightarrow>
                 (case (spec_record inp (ref_slug pointer),
                        findCase (Some targetPlan) (ref_case pointer)) of
                    (Some archived, targetCase) \<Rightarrow>
                      unresolved org st ch' Target_archived (map_option (\<lambda>c. state_of c) targetCase)
                        Spec_archived (supersededBy archived)
                  | (None, None) \<Rightarrow> unresolved org st ch' Target_missing None Spec_live None
                  | (None, Some targetCase) \<Rightarrow>
                     (case state_of targetCase of
                        Retired_state \<Rightarrow>
                          unresolved org st ch' Target_not_live (Some Retired_state) Spec_live None
                      | Live \<Rightarrow>
                          \<lparr>res_origin = org, originState = st, res_status = Res_resolved, res_chain = ch',
                           resolvedTo = Some pointer, res_reason = None, targetCaseState = Some Live,
                           targetSpecState = Spec_live, res_supersededBy = None\<rparr>
                      | Superseded_state \<Rightarrow>
                          walk inp org st (ref_slug pointer) targetCase (hops + 1)
                            (visitedKey pointer # visited) ch'))))
      | _ \<Rightarrow> unresolved org st ch Target_missing None Spec_live None)"
  by pat_completeness auto
termination
  by (relation "measure (\<lambda>(inp, org, st, s, c, hops, v, ch). MAX_SUPERSESSION_DEPTH - hops)") auto

declare walk.simps [simp del]

definition resolveCase :: "string \<Rightarrow> rcase \<Rightarrow> resolver_inputs \<Rightarrow> resolution" where
  "resolveCase originSlug originCase inp =
     (let org = \<lparr>ref_slug = originSlug, ref_case = case_id originCase\<rparr>;
          st = state_of originCase;
          originSpecState =
            (if jhas (plans inp) originSlug
             then (if spec_record inp originSlug \<noteq> None then Spec_archived else Spec_live)
             else Spec_not_supplied)
      in case st of
           Live \<Rightarrow>
             \<lparr>res_origin = org, originState = st, res_status = Res_live, res_chain = [org],
              resolvedTo = Some org, res_reason = None, targetCaseState = Some Live,
              targetSpecState = originSpecState, res_supersededBy = None\<rparr>
         | Retired_state \<Rightarrow>
             \<lparr>res_origin = org, originState = st, res_status = Res_retired, res_chain = [org],
              resolvedTo = None, res_reason = None, targetCaseState = Some Retired_state,
              targetSpecState = originSpecState, res_supersededBy = None\<rparr>
         | Superseded_state \<Rightarrow> walk inp org st originSlug originCase 0 [visitedKey org] [org])"

definition resolvePlan :: "rplan \<Rightarrow> resolver_inputs \<Rightarrow> resolution list" where
  "resolvePlan plan inp =
     (let ps = (if map_of (plans inp) (plan_slug plan) \<noteq> Some plan
                then jput (plan_slug plan) plan (plans inp) else plans inp);
          effective = \<lparr>plans = ps, spec_lifecycles = spec_lifecycles inp\<rparr>
      in map (\<lambda>testCase. resolveCase (plan_slug plan) testCase effective) (plan_cases plan))"

subsection \<open>Pointers: syntax and keys\<close>

lemma state_of_eq: "state_of c = (case lifecycle c of None \<Rightarrow> Live | Some l \<Rightarrow> lifecycle_state l)"
  by (simp add: caseStateOf_def)

lemma state_of_live: "state_of c = Live \<longleftrightarrow> lifecycle c = None"
  by (cases "lifecycle c"; cases "the (lifecycle c)") (auto simp: state_of_eq)

lemma state_of_superseded:
  "state_of c = Superseded_state \<longleftrightarrow> (\<exists>p r. lifecycle c = Some (Superseded p r))"
  by (cases "lifecycle c"; cases "the (lifecycle c)") (auto simp: state_of_eq)

lemma parse_slug_no_colon:
  "CHR '':'' \<notin> set s \<Longrightarrow> CHR '':'' \<notin> set (ref_slug (parseReplacementPointer p s))"
  by (auto simp: parseReplacementPointer_def dest: index_of_Some split: option.splits)

lemma visitedKey_inj:
  assumes "CHR '':'' \<notin> set (ref_slug p)" and "CHR '':'' \<notin> set (ref_slug q)"
    and "visitedKey p = visitedKey q"
  shows "p = q"
proof -
  have "index_of (CHR '':'') (visitedKey p) = Some (length (ref_slug p))"
    "index_of (CHR '':'') (visitedKey q) = Some (length (ref_slug q))"
    using assms(1,2) by (simp_all add: visitedKey_def index_of_append)
  with assms(3) have "length (ref_slug p) = length (ref_slug q)" by simp
  with assms(3) have "ref_slug p = ref_slug q \<and> ref_case p = ref_case q"
    by (simp add: visitedKey_def)
  then show ?thesis by simp
qed

lemma findCase_id: "findCase p i = Some c \<Longrightarrow> case_id c = i"
  by (auto simp: findCase_def find_Some_iff split: option.splits)


subsection \<open>The specification: one hop, and its iterates\<close>

text \<open>
  One pointer followed: the landing is in a supplied spec that is not archived, and the case it
  names is in that spec's plan. A node is a slug with the case it holds.
\<close>

inductive hop :: "resolver_inputs \<Rightarrow> string \<times> rcase \<Rightarrow> string \<times> rcase \<Rightarrow> bool" for inp where
  hopI: "lifecycle c = Some (Superseded r why) \<Longrightarrow> p = parseReplacementPointer r s \<Longrightarrow>
     map_of (plans inp) (ref_slug p) = Some pl \<Longrightarrow> spec_record inp (ref_slug p) = None \<Longrightarrow>
     findCase (Some pl) (ref_case p) = Some c' \<Longrightarrow> hop inp (s, c) (ref_slug p, c')"

inductive_cases hopE: "hop inp (s, c) t"

definition node_ref :: "string \<times> rcase \<Rightarrow> pointer_ref" where
  "node_ref t = \<lparr>ref_slug = fst t, ref_case = case_id (snd t)\<rparr>"

lemma hop_det: "hop inp a b \<Longrightarrow> hop inp a c \<Longrightarrow> b = c"
  by (cases a) (auto elim!: hopE)

lemma hop_not_live: "lifecycle (snd t) = None \<Longrightarrow> \<not> hop inp t u"
  by (cases t) (auto elim: hopE)

lemma hop_slug_no_colon: "hop inp a b \<Longrightarrow> CHR '':'' \<notin> set (fst a) \<Longrightarrow> CHR '':'' \<notin> set (fst b)"
  by (cases a) (auto elim!: hopE simp: parse_slug_no_colon)

lemma hop_lookup: "hop inp a b \<Longrightarrow>
    \<exists>pl. map_of (plans inp) (fst b) = Some pl \<and> findCase (Some pl) (case_id (snd b)) = Some (snd b)"
  by (cases a) (auto elim!: hopE, metis findCase_id)

lemma hop_steps_unique:
  "(hop inp ^^ m) a t \<Longrightarrow> (hop inp ^^ n) a u \<Longrightarrow> lifecycle (snd t) = None \<Longrightarrow>
   lifecycle (snd u) = None \<Longrightarrow> m = n \<and> t = u"
proof (induction m arbitrary: n a)
  case 0
  then have "a = t" by simp
  show ?case
  proof (cases n)
    case 0
    then show ?thesis using "0.prems" \<open>a = t\<close> by simp
  next
    case (Suc k)
    then obtain b where "hop inp a b" using "0.prems"(2) by (metis relpowp_Suc_D2)
    then show ?thesis using hop_not_live "0.prems"(3) \<open>a = t\<close> by blast
  qed
next
  case (Suc m)
  obtain b where b: "hop inp a b" "(hop inp ^^ m) b t"
    using Suc.prems(1) by (metis relpowp_Suc_D2)
  have "n \<noteq> 0" using b(1) Suc.prems(2,4) hop_not_live by (metis relpowp_0_E)
  then obtain k where k: "n = Suc k" using not0_implies_Suc by blast
  obtain b' where b': "hop inp a b'" "(hop inp ^^ k) b' u"
    using Suc.prems(2) k by (metis relpowp_Suc_D2)
  have "b' = b" using hop_det b(1) b'(1) by blast
  with Suc.IH [OF b(2)] b'(2) Suc.prems(3,4) k show ?case by blast
qed

lemma live_chain_acyclic:
  assumes "(hop inp ^^ m) a t" and "lifecycle (snd t) = None" and "(hop inp ^^ k) a a"
  shows "k = 0"
proof -
  have "(hop inp ^^ (k + m)) a t" using assms(1,3) by (metis relpowp_trans)
  with hop_steps_unique [OF assms(1) this] assms(2) show ?thesis by simp
qed

subsection \<open>One iteration of the walk\<close>

lemma walk_step_visited:
  assumes "lifecycle c = Some (Superseded r why)" and "p = parseReplacementPointer r s"
    and "visitedKey p \<in> set v"
  shows "res_status (walk inp org st s c h v ch) = Res_unresolved"
    and "resolvedTo (walk inp org st s c h v ch) = None"
    and "res_reason (walk inp org st s c h v ch) = Some Cycle_detected"
    and "res_chain (walk inp org st s c h v ch) = ch @ [p]"
  using assms by (simp_all add: walk.simps [of inp org st s c] Let_def unresolved_def)

lemma walk_step_depth:
  assumes "lifecycle c = Some (Superseded r why)" and "p = parseReplacementPointer r s"
    and "visitedKey p \<notin> set v" and "MAX_SUPERSESSION_DEPTH \<le> h"
  shows "res_status (walk inp org st s c h v ch) = Res_unresolved"
    and "resolvedTo (walk inp org st s c h v ch) = None"
    and "res_reason (walk inp org st s c h v ch) = Some Depth_exceeded"
    and "res_chain (walk inp org st s c h v ch) = ch"
  using assms by (simp_all add: walk.simps [of inp org st s c] Let_def unresolved_def)

lemma walk_step_stuck:
  assumes "lifecycle c = Some (Superseded r why)" and "p = parseReplacementPointer r s"
    and "visitedKey p \<notin> set v" and "h < MAX_SUPERSESSION_DEPTH" and "\<nexists>t. hop inp (s, c) t"
  shows "res_status (walk inp org st s c h v ch) = Res_unresolved
    \<and> resolvedTo (walk inp org st s c h v ch) = None
    \<and> res_reason (walk inp org st s c h v ch)
        \<in> {Some Target_spec_not_supplied, Some Target_archived, Some Target_missing}
    \<and> res_chain (walk inp org st s c h v ch) = ch @ [p]"
proof (cases "map_of (plans inp) (ref_slug p)")
  case None
  then show ?thesis using assms
    by (simp add: walk.simps [of inp org st s c] Let_def unresolved_def)
next
  case (Some pl)
  have "spec_record inp (ref_slug p) \<noteq> None \<or> findCase (Some pl) (ref_case p) = None"
  proof (rule ccontr)
    assume "\<not> ?thesis"
    then obtain c' where "spec_record inp (ref_slug p) = None" "findCase (Some pl) (ref_case p) = Some c'"
      by auto
    then have "hop inp (s, c) (ref_slug p, c')" using assms(1,2) Some by (intro hopI)
    with assms(5) show False by blast
  qed
  then show ?thesis using assms(1-4) Some
    by (auto simp: walk.simps [of inp org st s c] Let_def unresolved_def split: option.splits)
qed

lemma walk_step_hop:
  assumes "lifecycle c = Some (Superseded r why)" and "p = parseReplacementPointer r s"
    and "visitedKey p \<notin> set v" and "h < MAX_SUPERSESSION_DEPTH" and "hop inp (s, c) (s', c')"
  shows "s' = ref_slug p \<and> case_id c' = ref_case p
    \<and> (lifecycle c' = None \<longrightarrow>
         res_status (walk inp org st s c h v ch) = Res_resolved
         \<and> resolvedTo (walk inp org st s c h v ch) = Some (node_ref (s', c'))
         \<and> res_reason (walk inp org st s c h v ch) = None
         \<and> res_chain (walk inp org st s c h v ch) = ch @ [p])
    \<and> (state_of c' = Retired_state \<longrightarrow>
         res_status (walk inp org st s c h v ch) = Res_unresolved
         \<and> resolvedTo (walk inp org st s c h v ch) = None
         \<and> res_reason (walk inp org st s c h v ch) = Some Target_not_live
         \<and> res_chain (walk inp org st s c h v ch) = ch @ [p])
    \<and> (state_of c' = Superseded_state \<longrightarrow>
         walk inp org st s c h v ch
           = walk inp org st s' c' (h + 1) (visitedKey p # v) (ch @ [p]))"
proof -
  obtain pl where pl: "map_of (plans inp) (ref_slug p) = Some pl" "spec_record inp (ref_slug p) = None"
    "findCase (Some pl) (ref_case p) = Some c'" "s' = ref_slug p"
    using assms(1,2,5) by (auto elim: hopE)
  have id: "case_id c' = ref_case p" using pl(3) by (rule findCase_id)
  show ?thesis using assms(1-4) pl id
    by (auto simp: walk.simps [of inp org st s c] Let_def unresolved_def node_ref_def state_of_live [symmetric])
qed

lemma walk_not_superseded:
  "state_of c \<noteq> Superseded_state \<Longrightarrow>
     res_status (walk inp org st s c h v ch) = Res_unresolved
     \<and> resolvedTo (walk inp org st s c h v ch) = None
     \<and> res_reason (walk inp org st s c h v ch) = Some Target_missing
     \<and> res_chain (walk inp org st s c h v ch) = ch"
  by (subst walk.simps, subst walk.simps, subst walk.simps, subst walk.simps)
     (auto simp: unresolved_def state_of_eq split: option.splits case_lifecycle.splits)

text \<open>The five ways one iteration can go, as a case analysis for the proofs below.\<close>

lemma walk_cases:
  obtains (not_superseded) "state_of c \<noteq> Superseded_state"
  | (visited) r why where "lifecycle c = Some (Superseded r why)"
      "visitedKey (parseReplacementPointer r s) \<in> set v"
  | (depth) r why where "lifecycle c = Some (Superseded r why)"
      "visitedKey (parseReplacementPointer r s) \<notin> set v" "MAX_SUPERSESSION_DEPTH \<le> h"
  | (stuck) r why where "lifecycle c = Some (Superseded r why)"
      "visitedKey (parseReplacementPointer r s) \<notin> set v" "h < MAX_SUPERSESSION_DEPTH"
      "\<nexists>t. hop inp (s, c) t"
  | (hop) r why s' c' where "lifecycle c = Some (Superseded r why)"
      "visitedKey (parseReplacementPointer r s) \<notin> set v" "h < MAX_SUPERSESSION_DEPTH"
      "hop inp (s, c) (s', c')"
  by (metis not_le state_of_superseded surj_pair)


subsection \<open>The walk computes the iterates\<close>

lemma walk_sound:
  "res_status (walk inp org st s c h v ch) = Res_resolved \<Longrightarrow>
   \<exists>n t. 1 \<le> n \<and> h + n \<le> MAX_SUPERSESSION_DEPTH \<and> (hop inp ^^ n) (s, c) t
     \<and> lifecycle (snd t) = None \<and> resolvedTo (walk inp org st s c h v ch) = Some (node_ref t)"
proof (induction "MAX_SUPERSESSION_DEPTH - h" arbitrary: s c h v ch rule: less_induct)
  case less
  show ?case
  proof (cases rule: walk_cases [where c = c and s = s and v = v and h = h and inp = inp])
    case not_superseded
    then show ?thesis using less.prems walk_not_superseded by fastforce
  next
    case visited
    then show ?thesis using less.prems walk_step_visited(1) by fastforce
  next
    case depth
    then show ?thesis using less.prems walk_step_depth(1) by fastforce
  next
    case stuck
    then show ?thesis using less.prems walk_step_stuck by fastforce
  next
    case (hop r why s' c')
    note st = walk_step_hop [OF hop(1) refl hop(2-4), of org st ch]
    show ?thesis
    proof (cases "state_of c'")
      case Live
      then have "lifecycle c' = None" by (simp add: state_of_live)
      with st hop(3,4) show ?thesis
        by (intro exI [of _ 1] exI [of _ "(s', c')"]) auto
    next
      case Retired_state
      with st less.prems show ?thesis by simp
    next
      case Superseded_state
      with st less.prems have rec: "walk inp org st s c h v ch
          = walk inp org st s' c' (h + 1) (visitedKey (parseReplacementPointer r s) # v)
              (ch @ [parseReplacementPointer r s])" by simp
      obtain n t where n: "h + 1 + n \<le> MAX_SUPERSESSION_DEPTH" "(hop inp ^^ n) (s', c') t"
          "lifecycle (snd t) = None" "resolvedTo (walk inp org st s c h v ch) = Some (node_ref t)"
        using less.hyps [of "h + 1" s' c'] less.prems hop(3) unfolding rec by fastforce
      have "(hop inp ^^ Suc n) (s, c) t" using hop(4) n(2) by (rule relpowp_Suc_I2)
      with n show ?thesis by (intro exI [of _ "Suc n"] exI [of _ t]) auto
    qed
  qed
qed

text \<open>
  What the visited set records: nodes from which the current one is reachable, each found again
  by a lookup of its own key.
\<close>

definition visited_inv :: "resolver_inputs \<Rightarrow> string \<times> rcase \<Rightarrow> string list \<Rightarrow> bool" where
  "visited_inv inp cur v \<longleftrightarrow>
     (\<forall>k \<in> set v. \<exists>node n. visitedKey (node_ref node) = k \<and> (hop inp ^^ n) node cur
        \<and> CHR '':'' \<notin> set (fst node)
        \<and> (\<exists>pl. map_of (plans inp) (fst node) = Some pl
                \<and> findCase (Some pl) (case_id (snd node)) = Some (snd node)))"

lemma visited_inv_step:
  assumes "visited_inv inp (s, c) v" and "hop inp (s, c) nxt" and "CHR '':'' \<notin> set (fst nxt)"
  shows "visited_inv inp nxt (visitedKey (node_ref nxt) # v)"
  unfolding visited_inv_def
proof
  fix k assume "k \<in> set (visitedKey (node_ref nxt) # v)"
  then consider "k = visitedKey (node_ref nxt)" | "k \<in> set v" by auto
  then show "\<exists>node n. visitedKey (node_ref node) = k \<and> (hop inp ^^ n) node nxt
      \<and> CHR '':'' \<notin> set (fst node) \<and> (\<exists>pl. map_of (plans inp) (fst node) = Some pl
          \<and> findCase (Some pl) (case_id (snd node)) = Some (snd node))"
  proof cases
    case 1
    then show ?thesis using assms(3) hop_lookup [OF assms(2)]
      by (intro exI [of _ nxt] exI [of _ 0]) auto
  next
    case 2
    then obtain node n where "visitedKey (node_ref node) = k" "(hop inp ^^ n) node (s, c)"
      "CHR '':'' \<notin> set (fst node)" "\<exists>pl. map_of (plans inp) (fst node) = Some pl
          \<and> findCase (Some pl) (case_id (snd node)) = Some (snd node)"
      using assms(1) unfolding visited_inv_def by blast
    moreover have "(hop inp ^^ Suc n) node nxt" using calculation(2) assms(2) by (rule relpowp_Suc_I)
    ultimately show ?thesis by blast
  qed
qed

lemma visited_inv_fresh:
  assumes "visited_inv inp (s, c) v" and "hop inp (s, c) nxt" and "(hop inp ^^ m) nxt t"
    and "lifecycle (snd t) = None" and "CHR '':'' \<notin> set (fst nxt)"
  shows "visitedKey (node_ref nxt) \<notin> set v"
proof
  assume "visitedKey (node_ref nxt) \<in> set v"
  then obtain node n pl where node: "visitedKey (node_ref node) = visitedKey (node_ref nxt)"
    "(hop inp ^^ n) node (s, c)" "CHR '':'' \<notin> set (fst node)" "map_of (plans inp) (fst node) = Some pl"
    "findCase (Some pl) (case_id (snd node)) = Some (snd node)"
    using assms(1) unfolding visited_inv_def by blast
  have "node_ref node = node_ref nxt"
    using node(1,3) assms(5) by (intro visitedKey_inj) (auto simp: node_ref_def)
  then have "fst node = fst nxt" "snd node = snd nxt"
    using node(4,5) hop_lookup [OF assms(2)] by (auto simp: node_ref_def)
  then have "node = nxt" by (simp add: prod_eq_iff)
  with node(2) assms(2) have "(hop inp ^^ Suc n) nxt nxt" by (auto intro: relpowp_Suc_I)
  with live_chain_acyclic [OF assms(3,4)] show False by blast
qed

lemma walk_complete:
  assumes "(hop inp ^^ m) (s, c) t" and "1 \<le> m" and "h + m \<le> MAX_SUPERSESSION_DEPTH"
    and "lifecycle (snd t) = None" and "visited_inv inp (s, c) v" and "CHR '':'' \<notin> set s"
  shows "res_status (walk inp org st s c h v ch) = Res_resolved
    \<and> resolvedTo (walk inp org st s c h v ch) = Some (node_ref t)"
  using assms
proof (induction m arbitrary: s c h v ch)
  case 0
  then show ?case by simp
next
  case (Suc m)
  obtain s' c' where nxt: "hop inp (s, c) (s', c')" "(hop inp ^^ m) (s', c') t"
    using Suc.prems(1) by (metis relpowp_Suc_D2 surj_pair)
  obtain r why where c: "lifecycle c = Some (Superseded r why)"
    and s': "s' = ref_slug (parseReplacementPointer r s)"
    and c': "case_id c' = ref_case (parseReplacementPointer r s)"
    using nxt(1) by (auto elim!: hopE dest: findCase_id)
  let ?p = "parseReplacementPointer r s"
  have p: "node_ref (s', c') = ?p" by (simp add: node_ref_def s' c')
  have colon: "CHR '':'' \<notin> set s'" using Suc.prems(6) s' by (simp add: parse_slug_no_colon)
  have fresh: "visitedKey ?p \<notin> set v"
    using visited_inv_fresh [OF Suc.prems(5) nxt(1,2) Suc.prems(4)] colon p by simp
  have "h < MAX_SUPERSESSION_DEPTH" using Suc.prems(3) by simp
  note st = walk_step_hop [OF c refl fresh this nxt(1), of org st ch]
  show ?case
  proof (cases "m = 0")
    case True
    then have "t = (s', c')" using nxt(2) by simp
    with st Suc.prems(4) show ?thesis by simp
  next
    case False
    then obtain u where "hop inp (s', c') u" using nxt(2) by (metis not0_implies_Suc relpowp_Suc_D2)
    then have "state_of c' = Superseded_state" by (auto elim: hopE simp: state_of_superseded)
    moreover have "visited_inv inp (s', c') (visitedKey ?p # v)"
      using visited_inv_step [OF Suc.prems(5) nxt(1)] colon p by simp
    ultimately show ?thesis
      using st Suc.IH [OF nxt(2) _ _ Suc.prems(4) _ colon, of "h + 1"] False Suc.prems(3) by simp
  qed
qed

text \<open>Shape of a result, by the same case analysis.\<close>

lemma walk_shape:
  "(resolvedTo (walk inp org st s c h v ch) = None
      \<longleftrightarrow> res_status (walk inp org st s c h v ch) = Res_unresolved)
   \<and> res_status (walk inp org st s c h v ch) \<in> {Res_resolved, Res_unresolved}
   \<and> (res_reason (walk inp org st s c h v ch) \<noteq> None
      \<longleftrightarrow> res_status (walk inp org st s c h v ch) = Res_unresolved)
   \<and> (\<exists>rest. res_chain (walk inp org st s c h v ch) = ch @ rest
        \<and> length rest \<le> MAX_SUPERSESSION_DEPTH - h + 1)"
proof (induction "MAX_SUPERSESSION_DEPTH - h" arbitrary: s c h v ch rule: less_induct)
  case less
  show ?case
  proof (cases rule: walk_cases [where c = c and s = s and v = v and h = h and inp = inp])
    case not_superseded
    with walk_not_superseded [OF this, of inp org st s h v ch] show ?thesis by simp
  next
    case visited
    with walk_step_visited [OF visited(1) refl visited(2), of inp org st h ch] show ?thesis by simp
  next
    case depth
    with walk_step_depth [OF depth(1) refl depth(2,3), of inp org st ch] show ?thesis by simp
  next
    case stuck
    with walk_step_stuck [OF stuck(1) refl stuck(2-4), of org st ch] show ?thesis by auto
  next
    case (hop r why s' c')
    let ?p = "parseReplacementPointer r s"
    note st = walk_step_hop [OF hop(1) refl hop(2-4), of org st ch]
    show ?thesis
    proof (cases "state_of c'")
      case Live
      with st show ?thesis by (simp add: state_of_live)
    next
      case Retired_state
      with st show ?thesis by simp
    next
      case Superseded_state
      with st have rec: "walk inp org st s c h v ch
          = walk inp org st s' c' (h + 1) (visitedKey ?p # v) (ch @ [?p])" by simp
      have "MAX_SUPERSESSION_DEPTH - (h + 1) < MAX_SUPERSESSION_DEPTH - h" using hop(3) by simp
      note ih = less.hyps [OF this, of s' c' "visitedKey ?p # v" "ch @ [?p]"]
      then obtain rest where "res_chain (walk inp org st s c h v ch) = ch @ ?p # rest"
          "length rest \<le> MAX_SUPERSESSION_DEPTH - (h + 1) + 1" unfolding rec by auto
      with ih hop(3) show ?thesis unfolding rec by (auto intro!: exI [of _ "?p # rest"])
    qed
  qed
qed

lemma walk_cycle_distinct:
  assumes "set v = visitedKey ` set ch" and "distinct ch" and "CHR '':'' \<notin> set s"
    and "\<forall>q \<in> set ch. CHR '':'' \<notin> set (ref_slug q)"
  shows "res_reason (walk inp org st s c h v ch) = Some Cycle_detected
    \<longleftrightarrow> \<not> distinct (res_chain (walk inp org st s c h v ch))"
  using assms
proof (induction "MAX_SUPERSESSION_DEPTH - h" arbitrary: s c h v ch rule: less_induct)
  case less
  have fresh: "visitedKey (parseReplacementPointer r s) \<in> set v
      \<longleftrightarrow> parseReplacementPointer r s \<in> set ch" for r
    using less.prems visitedKey_inj [OF parse_slug_no_colon [OF less.prems(3)]] by fastforce
  show ?case
  proof (cases rule: walk_cases [where c = c and s = s and v = v and h = h and inp = inp])
    case not_superseded
    with walk_not_superseded [OF this, of inp org st s h v ch] less.prems(2) show ?thesis by simp
  next
    case (visited r why)
    with walk_step_visited [OF visited(1) refl visited(2), of inp org st h ch] fresh
    show ?thesis by simp
  next
    case depth
    with walk_step_depth [OF depth(1) refl depth(2,3), of inp org st ch] less.prems(2)
    show ?thesis by simp
  next
    case stuck
    with walk_step_stuck [OF stuck(1) refl stuck(2-4), of org st ch] less.prems(2) fresh
    show ?thesis by auto
  next
    case (hop r why s' c')
    let ?p = "parseReplacementPointer r s"
    note st = walk_step_hop [OF hop(1) refl hop(2-4), of org st ch]
    have dist: "distinct (ch @ [?p])" using less.prems(2) fresh hop(2) by simp
    show ?thesis
    proof (cases "state_of c'")
      case Live
      with st dist show ?thesis by (simp add: state_of_live)
    next
      case Retired_state
      with st dist show ?thesis by simp
    next
      case Superseded_state
      with st have rec: "walk inp org st s c h v ch
          = walk inp org st s' c' (h + 1) (visitedKey ?p # v) (ch @ [?p])" by simp
      have "MAX_SUPERSESSION_DEPTH - (h + 1) < MAX_SUPERSESSION_DEPTH - h" using hop(3) by simp
      from less.hyps [OF this _ dist] less.prems st parse_slug_no_colon [OF less.prems(3), of r]
      show ?thesis unfolding rec by simp
    qed
  qed
qed

subsection \<open>Referenced slugs\<close>

lemma collect_slugs_set:
  "set (collect_slugs own seen cs) =
     {ref_slug (parseReplacementPointer r own) | c r w. c \<in> set cs \<and> lifecycle c = Some (Superseded r w)}
       - insert own (set seen)"
proof (induction cs arbitrary: seen)
  case Nil
  then show ?case by simp
next
  case (Cons c cs)
  show ?case
  proof (cases "\<exists>r w. lifecycle c = Some (Superseded r w)")
    case False
    then have "collect_slugs own seen (c # cs) = collect_slugs own seen cs"
      by (auto split: option.splits case_lifecycle.splits)
    with Cons.IH False show ?thesis by auto
  next
    case True
    then obtain r w where "lifecycle c = Some (Superseded r w)" by blast
    then show ?thesis by (auto simp: Cons.IH Let_def)
  qed
qed

lemma collect_slugs_distinct: "distinct (collect_slugs own seen cs)"
  by (induction cs arbitrary: seen)
     (auto simp: Let_def collect_slugs_set split: option.splits case_lifecycle.splits)

lemma resolve_sound:
  assumes "state_of c = Superseded_state" and "resolvedTo (resolveCase s c inp) = Some p"
  shows "\<exists>n t. 1 \<le> n \<and> n \<le> 10 \<and> (hop inp ^^ n) (s, c) t \<and> lifecycle (snd t) = None \<and> p = node_ref t"
proof -
  let ?org = "\<lparr>ref_slug = s, ref_case = case_id c\<rparr>"
  let ?w = "walk inp ?org (state_of c) s c 0 [visitedKey ?org] [?org]"
  have run: "resolveCase s c inp = ?w" by (simp add: resolveCase_def Let_def assms(1))
  then have "res_status ?w = Res_resolved"
    using assms(2) walk_shape [of inp ?org "state_of c" s c 0 "[visitedKey ?org]" "[?org]"] by auto
  from walk_sound [OF this] assms(2) show ?thesis by (auto simp: run MAX_SUPERSESSION_DEPTH_def)
qed

lemma resolve_superseded_status:
  "state_of c = Superseded_state \<Longrightarrow> res_status (resolveCase s c inp) \<in> {Res_resolved, Res_unresolved}"
  using walk_shape [of inp "\<lparr>ref_slug = s, ref_case = case_id c\<rparr>" "state_of c" s c 0]
  by (simp add: resolveCase_def Let_def)

lemma resolve_origin: "res_origin (resolveCase s c inp) = \<lparr>ref_slug = s, ref_case = case_id c\<rparr>"
proof -
  have "res_origin (walk inp org st s c h v ch) = org" for org st s c h v ch
    by (induction inp org st s c h v ch rule: walk.induct)
       (subst walk.simps, auto simp: Let_def unresolved_def split: option.splits case_lifecycle.splits case_state.splits)
  then show ?thesis by (auto simp: resolveCase_def Let_def split: case_state.splits)
qed

subsection \<open>Properties\<close>

definition sample_case :: "string \<Rightarrow> case_lifecycle option \<Rightarrow> rcase" where
  "sample_case i l = \<lparr>case_id = i, lifecycle = l\<rparr>"

definition sample_inputs :: resolver_inputs where
  "sample_inputs =
     \<lparr>plans = [(''a'', \<lparr>plan_slug = ''a'', plan_cases =
                   [sample_case ''T1'' (Some (Superseded ''b:T2'' None)),
                    sample_case ''T9'' (Some (Superseded ''T9'' None))]\<rparr>),
                (''b'', \<lparr>plan_slug = ''b'', plan_cases =
                   [sample_case ''T2'' (Some (Superseded ''T3'' None)), sample_case ''T3'' None]\<rparr>)],
      spec_lifecycles = None\<rparr>"

lemmas sample_resolver = sample_case_def sample_inputs_def MAX_SUPERSESSION_DEPTH_def findCase_def
  parseReplacementPointer_def visitedKey_def spec_record_def specStateOf_def jhas_def state_of_eq

text \<open>
  C28. A superseded case of a supplied spec resolves to a target exactly when following replacement
  pointers from it, through supplied specs that are not archived, reaches that target as a live
  case in at least one and at most ten hops: neither the cycle guard nor the depth limit ever
  rejects a chain that would have ended in a live case within the limit.
\<close>

theorem resolve_iff_reachable:
  assumes "CHR '':'' \<notin> set s" and "map_of (plans inp) s = Some pl"
    and "findCase (Some pl) (case_id c) = Some c" and "state_of c = Superseded_state"
  shows "resolvedTo (resolveCase s c inp) = Some p \<longleftrightarrow>
    (\<exists>n t. 1 \<le> n \<and> n \<le> 10 \<and> (hop inp ^^ n) (s, c) t \<and> lifecycle (snd t) = None \<and> p = node_ref t)"
    (is "_ \<longleftrightarrow> ?reach")
proof -
  let ?org = "\<lparr>ref_slug = s, ref_case = case_id c\<rparr>"
  let ?w = "walk inp ?org (state_of c) s c 0 [visitedKey ?org] [?org]"
  have run: "resolveCase s c inp = ?w" by (simp add: resolveCase_def Let_def assms(4))
  have inv: "visited_inv inp (s, c) [visitedKey ?org]"
    using assms(1-3) by (auto simp: visited_inv_def node_ref_def intro!: exI [of _ s] exI [of _ c] exI [of _ 0])
  show ?thesis
  proof
    assume "resolvedTo (resolveCase s c inp) = Some p"
    then show ?reach by (rule resolve_sound [OF assms(4)])
  next
    assume ?reach
    then obtain n t where "1 \<le> n" "0 + n \<le> MAX_SUPERSESSION_DEPTH" "(hop inp ^^ n) (s, c) t"
      "lifecycle (snd t) = None" "p = node_ref t" by (auto simp: MAX_SUPERSESSION_DEPTH_def)
    with walk_complete [OF this(3,1,2,4) inv assms(1)] show "resolvedTo (resolveCase s c inp) = Some p"
      by (simp add: run)
  qed
qed

theorem resolve_iff_reachable_witness:
  "\<exists>n t. 1 \<le> n \<and> n \<le> 10 \<and> (hop sample_inputs ^^ n)
      (''a'', sample_case ''T1'' (Some (Superseded ''b:T2'' None))) t
    \<and> lifecycle (snd t) = None \<and> \<lparr>ref_slug = ''b'', ref_case = ''T3''\<rparr> = node_ref t"
  by (subst resolve_iff_reachable [symmetric, where
        pl = "\<lparr>plan_slug = ''a'', plan_cases =
                   [sample_case ''T1'' (Some (Superseded ''b:T2'' None)),
                    sample_case ''T9'' (Some (Superseded ''T9'' None))]\<rparr>"])
     (simp_all add: sample_resolver resolveCase_def walk.simps Let_def)

text \<open>
  Every resolution is well formed: it names a target exactly when its status is live or
  resolved, carries one of the six reasons exactly when it is unresolved, and its chain starts
  with the origin and has at most twelve entries (the origin, ten hops, and the repeated node of a
  cycle). It is live exactly for a live case and retired exactly for a retired one.
\<close>

theorem resolution_shape:
  "let r = resolveCase s c inp in
     (resolvedTo r \<noteq> None \<longleftrightarrow> res_status r \<in> {Res_live, Res_resolved})
   \<and> (res_reason r \<noteq> None \<longleftrightarrow> res_status r = Res_unresolved)
   \<and> (res_status r = Res_live \<longleftrightarrow> state_of c = Live)
   \<and> (res_status r = Res_retired \<longleftrightarrow> state_of c = Retired_state)
   \<and> (\<exists>rest. res_chain r = \<lparr>ref_slug = s, ref_case = case_id c\<rparr> # rest \<and> length rest \<le> 11)"
proof (cases "state_of c")
  case Superseded_state
  let ?org = "\<lparr>ref_slug = s, ref_case = case_id c\<rparr>"
  note sh = walk_shape [of inp ?org "state_of c" s c 0 "[visitedKey ?org]" "[?org]"]
  have run: "resolveCase s c inp = walk inp ?org (state_of c) s c 0 [visitedKey ?org] [?org]"
    by (simp add: resolveCase_def Let_def Superseded_state)
  show ?thesis
    unfolding run using sh by (auto simp: MAX_SUPERSESSION_DEPTH_def Let_def Superseded_state)
qed (simp_all add: resolveCase_def Let_def)

text \<open>
  \<open>cycle detected\<close> is reported exactly when the reported chain repeats a node, so every other
  result, resolved or not, comes with a chain of pairwise different cases.
\<close>

theorem cycle_iff_repeated:
  assumes "CHR '':'' \<notin> set s"
  shows "res_reason (resolveCase s c inp) = Some Cycle_detected
         \<longleftrightarrow> \<not> distinct (res_chain (resolveCase s c inp))"
proof (cases "state_of c")
  case Superseded_state
  let ?org = "\<lparr>ref_slug = s, ref_case = case_id c\<rparr>"
  have run: "resolveCase s c inp = walk inp ?org (state_of c) s c 0 [visitedKey ?org] [?org]"
    by (simp add: resolveCase_def Let_def Superseded_state)
  show ?thesis unfolding run using assms by (intro walk_cycle_distinct) auto
qed (simp_all add: resolveCase_def Let_def)

theorem cycle_iff_repeated_witness:
  "\<not> distinct (res_chain (resolveCase ''a'' (sample_case ''T9'' (Some (Superseded ''T9'' None))) sample_inputs))"
  by (subst cycle_iff_repeated [symmetric]) (simp_all add: sample_resolver resolveCase_def walk.simps unresolved_def Let_def)

text \<open>
  The collector of referenced slugs returns exactly the other specs that the plan's superseded
  cases point to, each once; a caller that loads them all supplies the target spec of every first
  hop.
\<close>

theorem referenced_slugs_exact:
  "distinct (collectReferencedSlugs pl)
   \<and> set (collectReferencedSlugs pl) =
      {ref_slug (parseReplacementPointer r (plan_slug pl)) | c r w.
         c \<in> set (plan_cases pl) \<and> lifecycle c = Some (Superseded r w)} - {plan_slug pl}"
  by (simp add: collectReferencedSlugs_def collect_slugs_distinct collect_slugs_set)

end
