(* ===== verification/TestTypes.thy ===== *)
theory TestTypes
  imports Supersession
begin

section \<open>Test plans and recorded results\<close>

text \<open>
  The data of \<open>shared/testbench-domain-types.ts\<close>: a plan of test cases with steps and
  observations, and the recorded results of one bench keyed by case id. \<open>case_result\<close> is the
  contract's \<open>CaseResultSchema\<close> (\<open>shared/testbench-contracts.ts\<close>), which the domain types
  re-export, with its machine verification provenance. The lifecycle block of a case is the one
  of \<^theory_text>\<open>Supersession\<close>.
\<close>

datatype case_status = Not_started | In_progress | Passed | Failed | Blocked

record author =
  author_name :: string
  author_email :: string
  isSentinel :: "bool option"

datatype mark_value = Pass | Fail

record observation_mark =
  mark_result :: mark_value
  mark_author :: author
  mark_timestamp :: string

record targeting_field =
  cssSelector :: "string option"
  ariaRole :: "string option"
  ariaName :: "string option"
  textAnchor :: "string option"
  routeContext :: "string option"
  tf_region :: "string option"

record observation =
  obs_id :: string
  expected :: string
  observe :: "targeting_field option"

record test_step =
  step_id :: string
  instruction :: string
  observations :: "observation list"
  step_target :: "targeting_field option"

record test_case =
  tc_id :: string
  tc_title :: string
  tc_area :: string
  tc_level :: int
  tc_type :: string
  priority :: "string option"
  preconditions :: "string list option"
  steps :: "test_step list"
  tags :: "string list"
  linked_requirement_ids :: "string list"
  linked_user_story_ids :: "string list"
  tc_lifecycle :: "case_lifecycle option"

record test_cases_plan =
  tp_schema :: string
  tp_schemaVersion :: string
  specSlug :: string
  cases_of :: "test_case list"

record status_override =
  so_status :: case_status
  so_author :: author
  so_timestamp :: string

record case_note =
  note_id :: string
  note_text :: string
  note_author :: author
  note_timestamp :: string
  statusAtWrite :: case_status

datatype verification_tier = Tier_a | Tier_b | Tier_c | Tier_d

datatype verification_confidence = High | Medium | Low

record verification =
  v_tier :: verification_tier
  v_confidence :: verification_confidence
  v_evidence :: "string list"
  v_author :: author
  v_timestamp :: string

record case_result =
  observationMarks :: "observation_mark jmap"
  derivedStatus :: case_status
  statusOverride :: "status_override option"
  case_notes :: "case_note list"
  verification_of :: "verification option"
  orphaned :: "bool option"
  caseCanon :: "string option"

record bench_results =
  caseResults :: "case_result jmap"
  updatedAt :: string

text \<open>Effective status: an override wins over the derived status.\<close>

definition effectiveStatus :: "case_result \<Rightarrow> case_status" where
  "effectiveStatus r =
     (case statusOverride r of Some ov \<Rightarrow> so_status ov | None \<Rightarrow> derivedStatus r)"

end
