(* ===== verification/Canonical.thy ===== *)
theory Canonical
  imports TestTypes "HOL-Library.Char_ord" "HOL-Library.List_Lexorder"
begin

section \<open>Canonical form of a test plan\<close>

text \<open>
  \<open>shared/testbench-canonicalize.ts\<close>: the projection of a plan to its testable body, with every
  string normalised and every list of identified things sorted by id, serialised as
  \<open>JSON.stringify\<close> does. Strings are compared by code unit, which is the lexicographic order of
  the library on lists of characters. \<open>stringify\<close> writes out \<open>JSON.stringify\<close> without spacing on
  the values a projection holds; the main lemma of the section is that it is injective on them, so
  that equal strings mean equal bodies.
\<close>

subsection \<open>Serialisation\<close>

definition hex_digit :: "nat \<Rightarrow> char" where
  "hex_digit d = (if d < 10 then char_of (48 + d) else char_of (87 + d))"

text \<open>The characters with an escape of their own, and the letter each is written with.\<close>

definition short_escape :: "char \<Rightarrow> char option" where
  "short_escape = map_of
     [(dquote, dquote), (backslash, backslash), (CHR 0x08, CHR ''b''), (CHR 0x09, CHR ''t''),
      (CHR 0x0A, CHR ''n''), (CHR 0x0C, CHR ''f''), (CHR 0x0D, CHR ''r'')]"

definition esc :: "char \<Rightarrow> string" where
  "esc c =
     (case short_escape c of
        Some e \<Rightarrow> [backslash, e]
      | None \<Rightarrow>
          (let n = (of_char c :: nat) in
           if n < 32
           then [backslash, CHR ''u'', CHR ''0'', CHR ''0'', hex_digit (n div 16), hex_digit (n mod 16)]
           else [c]))"

definition quote :: "string \<Rightarrow> string" where
  "quote s = dquote # concat (map esc s) @ [dquote]"

fun stringify :: "json \<Rightarrow> string" where
  "stringify JNull = ''null''"
| "stringify (JBool b) = (if b then ''true'' else ''false'')"
| "stringify (JNum i) = int_str i"
| "stringify (JStr s) = quote s"
| "stringify (JArr xs) = CHR ''['' # join_with '','' (map stringify xs) @ '']''"
| "stringify (JObj kvs) =
     CHR ''{'' # join_with '','' (map (\<lambda>(k, v). quote k @ '':'' @ stringify v) kvs) @ ''}''"

fun str_json :: "json \<Rightarrow> bool" where
  "str_json (JStr s) = True"
| "str_json (JArr xs) = list_all str_json xs"
| "str_json (JObj kvs) = list_all (\<lambda>(k, v). str_json v) kvs"
| "str_json _ = False"

subsection \<open>Normalisation and projection\<close>

definition compareCodePoints :: "string \<Rightarrow> string \<Rightarrow> int" where
  "compareCodePoints a b = (if a < b then - 1 else if b < a then 1 else 0)"

fun unify_newlines :: "string \<Rightarrow> string" where
  "unify_newlines [] = []"
| "unify_newlines [c] = [if c = CHR 0x0D then newline else c]"
| "unify_newlines (c # d # s) =
     (if c = CHR 0x0D then newline # (if d = newline then unify_newlines s else unify_newlines (d # s))
      else c # unify_newlines (d # s))"

function collapse_ws :: "string \<Rightarrow> string" where
  "collapse_ws [] = []"
| "collapse_ws (c # s) =
     (if is_ws c then CHR '' '' # collapse_ws (dropWhile is_ws s) else c # collapse_ws s)"
  by pat_completeness auto
termination
  by (relation "measure length") (auto intro: le_imp_less_Suc length_dropWhile_le)

definition normalizeString :: "string \<Rightarrow> string" where
  "normalizeString value = collapse_ws (trim (unify_newlines value))"

definition projectObservation :: "observation \<Rightarrow> json" where
  "projectObservation ob =
     JObj [(''id'', JStr (obs_id ob)), (''expected'', JStr (normalizeString (expected ob)))]"

definition projectStep :: "test_step \<Rightarrow> json" where
  "projectStep s =
     JObj [(''id'', JStr (step_id s)), (''instruction'', JStr (normalizeString (instruction s))),
           (''observations'', JArr (map projectObservation (sort_key obs_id (observations s))))]"

definition projectCase :: "test_case \<Rightarrow> json" where
  "projectCase tc =
     JObj ([(''id'', JStr (tc_id tc)), (''title'', JStr (normalizeString (tc_title tc))),
            (''level'', JStr (normalizeString (int_str (tc_level tc))))]
       @ (case priority tc of None \<Rightarrow> [] | Some p \<Rightarrow> [(''priority'', JStr (normalizeString p))])
       @ (case preconditions tc of None \<Rightarrow> []
          | Some ps \<Rightarrow> if ps = [] then []
                       else [(''preconditions'', JArr (map (\<lambda>p. JStr (normalizeString p)) ps))])
       @ [(''steps'', JArr (map projectStep (sort_key step_id (steps tc))))])"

definition canonicalizeCase :: "test_case \<Rightarrow> string" where
  "canonicalizeCase tc = stringify (projectCase tc)"

definition canonicalize :: "test_cases_plan \<Rightarrow> string" where
  "canonicalize plan =
     stringify (JObj [(''cases'', JArr (map projectCase (sort_key tc_id (cases_of plan))))])"

subsection \<open>Serialisation is injective\<close>

lemma hex_digit_inj: "a < 16 \<Longrightarrow> b < 16 \<Longrightarrow> hex_digit a = hex_digit b \<Longrightarrow> a = b"
proof -
  assume ab: "a < 16" "b < 16" and eq: "hex_digit a = hex_digit b"
  let ?v = "\<lambda>d::nat. if d < 10 then 48 + d else 87 + d"
  have "(of_char (char_of (?v a) :: char) :: nat) = of_char (char_of (?v b) :: char)"
    using eq by (simp add: hex_digit_def split: if_splits)
  then have "?v a mod 256 = ?v b mod 256" by (simp only: of_char_of)
  then show "a = b" using ab by (simp split: if_splits)
qed

lemma short_escape_inj: "short_escape c = Some e \<Longrightarrow> short_escape d = Some e \<Longrightarrow> c = d"
  by (auto simp: short_escape_def split: if_splits)

lemma short_escape_not_u: "short_escape c = Some e \<Longrightarrow> e \<noteq> CHR ''u''"
  by (auto simp: short_escape_def split: if_splits)

lemma short_escape_None: "short_escape c = None \<Longrightarrow> c \<noteq> dquote \<and> c \<noteq> backslash"
  by (auto simp: short_escape_def split: if_splits)

lemma esc_cases:
  obtains (plain) "short_escape c = None" "esc c = [c]" "c \<noteq> dquote" "c \<noteq> backslash"
  | (short) e where "short_escape c = Some e" "esc c = [backslash, e]" "e \<noteq> CHR ''u''"
  | (code) h l where "short_escape c = None" "(of_char c :: nat) < 32"
      "esc c = [backslash, CHR ''u'', CHR ''0'', CHR ''0'', hex_digit (of_char c div 16), hex_digit (of_char c mod 16)]"
proof (cases "short_escape c")
  case None
  with short_escape_None [OF None] show ?thesis
    by (cases "(of_char c :: nat) < 32") (use plain code in \<open>simp_all add: esc_def Let_def\<close>)
next
  case (Some e)
  with short_escape_not_u [OF Some] show ?thesis by (intro short [of e]) (simp_all add: esc_def)
qed

lemma esc_prefix: "esc c @ x = esc d @ y \<Longrightarrow> c = d \<and> x = y"
proof (cases c rule: esc_cases; cases d rule: esc_cases)
  assume eq: "esc c @ x = esc d @ y"
    and c: "(of_char c :: nat) < 32" "esc c = [backslash, CHR ''u'', CHR ''0'', CHR ''0'',
        hex_digit (of_char c div 16), hex_digit (of_char c mod 16)]"
    and d: "(of_char d :: nat) < 32" "esc d = [backslash, CHR ''u'', CHR ''0'', CHR ''0'',
        hex_digit (of_char d div 16), hex_digit (of_char d mod 16)]"
  then have h: "hex_digit ((of_char c :: nat) div 16) = hex_digit ((of_char d :: nat) div 16)"
    "hex_digit ((of_char c :: nat) mod 16) = hex_digit ((of_char d :: nat) mod 16)" "x = y" by simp_all
  have "(of_char c :: nat) div 16 = of_char d div 16" "(of_char c :: nat) mod 16 = of_char d mod 16"
    using h(1,2) c(1) d(1) by (simp_all add: hex_digit_inj)
  then have "(of_char c :: nat) = of_char d" by (metis div_mult_mod_eq)
  with h(3) show "c = d \<and> x = y" by simp
qed (auto dest: short_escape_inj)

lemma esc_head: "esc c @ x \<noteq> dquote # y" "esc c \<noteq> dquote # y"
  by (cases c rule: esc_cases; simp)+

lemma esc_concat_prefix:
  "concat (map esc s) @ dquote # x = concat (map esc t) @ dquote # y \<Longrightarrow> s = t \<and> x = y"
proof (induction s arbitrary: t)
  case Nil
  show ?case
  proof (cases t)
    case Nil
    with Nil.prems show ?thesis by simp
  next
    case (Cons d u)
    with Nil.prems have "esc d @ (concat (map esc u) @ dquote # y) = dquote # x" by simp
    with esc_head(1) show ?thesis by blast
  qed
next
  case (Cons c s)
  show ?case
  proof (cases t)
    case Nil
    with Cons.prems esc_head(1) [of c "concat (map esc s) @ dquote # x" y] show ?thesis by simp
  next
    case (Cons d u)
    with Cons.prems have "esc c @ (concat (map esc s) @ dquote # x) = esc d @ (concat (map esc u) @ dquote # y)"
      by simp
    from esc_prefix [OF this] Cons.IH [of u] Cons show ?thesis by simp
  qed
qed

lemma quote_prefix: "quote s @ x = quote t @ y \<Longrightarrow> s = t \<and> x = y"
  by (rule esc_concat_prefix) (simp add: quote_def)

text \<open>A comma-separated list of unambiguous elements, closed by a bracket, is unambiguous.\<close>

lemma join_prefix:
  assumes "\<And>a b u v. a \<in> set xs \<Longrightarrow> b \<in> set ys \<Longrightarrow> f a @ u = f b @ v \<Longrightarrow> a = b \<and> u = v"
    and "\<And>a u v. a \<in> set xs \<union> set ys \<Longrightarrow> f a @ u \<noteq> close # v" and "close \<noteq> CHR '',''"
    and "join_with '','' (map f xs) @ close # x = join_with '','' (map f ys) @ close # y"
  shows "xs = ys \<and> x = y"
  using assms(1,2,4)
proof (induction xs arbitrary: ys)
  case Nil
  show ?case
  proof (cases ys)
    case Nil
    with Nil.prems(3) show ?thesis by simp
  next
    case (Cons b bs)
    then have "\<exists>v. f b @ v = close # x" using Nil.prems(3) by (cases bs) auto
    with Nil.prems(2) [of b] Cons show ?thesis by auto
  qed
next
  case (Cons a as)
  show ?case
  proof (cases ys)
    case Nil
    then have "\<exists>v. f a @ v = close # y" using Cons.prems(3) by (cases as) auto
    with Cons.prems(2) [of a] show ?thesis by auto
  next
    case ys: (Cons b bs)
    let ?r = "\<lambda>ws z. if ws = [] then close # z else CHR '','' # join_with '','' (map f ws) @ close # z"
    have "f a @ ?r as x = f b @ ?r bs y"
      using Cons.prems(3) ys by (cases as; cases bs) simp_all
    with Cons.prems(1) [of a b "?r as x" "?r bs y"] ys have ab: "a = b" and r: "?r as x = ?r bs y" by auto
    show ?thesis
    proof (cases "as = [] \<or> bs = []")
      case True
      with r assms(3) ab ys show ?thesis by (auto split: if_splits)
    next
      case False
      with r have "join_with '','' (map f as) @ close # x = join_with '','' (map f bs) @ close # y" by simp
      with Cons.IH [of bs] Cons.prems(1,2) ys ab show ?thesis by auto
    qed
  qed
qed

lemma stringify_head: "str_json j \<Longrightarrow> stringify j @ x =
    (case j of JStr s \<Rightarrow> dquote | JArr xs \<Rightarrow> CHR ''['' | _ \<Rightarrow> CHR ''{'') # tl (stringify j) @ x"
  by (cases j) (simp_all add: quote_def)

lemma stringify_same_kind:
  assumes "str_json j" "str_json k" "stringify j @ x = stringify k @ y"
  shows "((\<exists>s. j = JStr s) \<longleftrightarrow> (\<exists>s. k = JStr s)) \<and> ((\<exists>s. j = JArr s) \<longleftrightarrow> (\<exists>s. k = JArr s))
    \<and> ((\<exists>s. j = JObj s) \<longleftrightarrow> (\<exists>s. k = JObj s))"
  using assms(3) assms(1,2)
  unfolding stringify_head [OF assms(1)] stringify_head [OF assms(2)] by (cases j; cases k) simp_all

lemma stringify_prefix:
  "str_json j \<Longrightarrow> str_json k \<Longrightarrow> stringify j @ x = stringify k @ y \<Longrightarrow> j = k \<and> x = y"
proof (induction j arbitrary: k x y rule: stringify.induct)
  case (4 s)
  then obtain t where "k = JStr t" using stringify_same_kind by blast
  with 4 quote_prefix [of s x t y] show ?case by simp
next
  case (5 xs)
  then obtain ys where k: "k = JArr ys" using stringify_same_kind by blast
  have "xs = ys \<and> x = y"
  proof (rule join_prefix [where f = stringify and close = "CHR '']''"])
    fix a b u v assume "a \<in> set xs" "b \<in> set ys" "stringify a @ u = stringify b @ v"
    with 5 k show "a = b \<and> u = v" by (auto simp: list_all_iff)
  next
    fix a :: json and u v assume "a \<in> set xs \<union> set ys"
    with 5 k have "str_json a" by (auto simp: list_all_iff)
    then show "stringify a @ u \<noteq> CHR '']'' # v"
      by (simp add: stringify_head split: json.split)
  qed (use "5.prems"(3) k in simp_all)
  with k show ?case by simp
next
  case (6 kvs)
  then obtain lws where k: "k = JObj lws" using stringify_same_kind by blast
  have "kvs = lws \<and> x = y"
  proof (rule join_prefix [where f = "\<lambda>(k, v). quote k @ '':'' @ stringify v" and close = "CHR ''}''"])
    fix a b u v assume ab: "a \<in> set kvs" "b \<in> set lws"
      and eq: "(\<lambda>(k, v). quote k @ '':'' @ stringify v) a @ u = (\<lambda>(k, v). quote k @ '':'' @ stringify v) b @ v"
    obtain a1 a2 b1 b2 where [simp]: "a = (a1, a2)" "b = (b1, b2)" by (cases a; cases b)
    have keys: "a1 = b1" "stringify a2 @ u = stringify b2 @ v"
      using quote_prefix [of a1 "CHR '':'' # stringify a2 @ u" b1 "CHR '':'' # stringify b2 @ v"] eq
      by simp_all
    have "str_json a2" "str_json b2" using "6.prems" k ab by (auto simp: list_all_iff)
    with "6.IH" [OF ab(1) \<open>a = (a1, a2)\<close> [symmetric] _ _ keys(2)] keys show "a = b \<and> u = v" by simp
  next
    fix a :: "string \<times> json" and u v
    show "(\<lambda>(k, v). quote k @ '':'' @ stringify v) a @ u \<noteq> CHR ''}'' # v"
      by (cases a) (simp add: quote_def)
  qed (use "6.prems"(3) k in simp_all)
  with k show ?case by simp
qed auto

lemma stringify_inj: "str_json j \<Longrightarrow> str_json k \<Longrightarrow> stringify j = stringify k \<longleftrightarrow> j = k"
  using stringify_prefix [of j k "[]" "[]"] by auto

subsection \<open>What a plan says\<close>

text \<open>
  The content of a plan without any order or spelling: sets of observations, steps and cases,
  each with its id and its normalised text.
\<close>

type_synonym obs_content = "string \<times> string"
type_synonym step_content = "string \<times> string \<times> obs_content set"
type_synonym case_content =
  "string \<times> string \<times> string \<times> string option \<times> string list \<times> step_content set"

definition content_of_obs :: "observation \<Rightarrow> obs_content" where
  "content_of_obs ob = (obs_id ob, normalizeString (expected ob))"

definition content_of_step :: "test_step \<Rightarrow> step_content" where
  "content_of_step s =
     (step_id s, normalizeString (instruction s), content_of_obs ` set (observations s))"

definition content_of_case :: "test_case \<Rightarrow> case_content" where
  "content_of_case tc =
     (tc_id tc, normalizeString (tc_title tc), normalizeString (int_str (tc_level tc)),
      map_option normalizeString (priority tc),
      (case preconditions tc of None \<Rightarrow> [] | Some ps \<Rightarrow> map normalizeString ps),
      content_of_step ` set (steps tc))"

definition case_ids_ok :: "test_case \<Rightarrow> bool" where
  "case_ids_ok tc = (distinct (map step_id (steps tc))
     \<and> list_all (\<lambda>s. distinct (map obs_id (observations s))) (steps tc))"

definition plan_ids_ok :: "test_cases_plan \<Rightarrow> bool" where
  "plan_ids_ok p = (distinct (map tc_id (cases_of p)) \<and> list_all case_ids_ok (cases_of p))"

lemma image_same_if:
  assumes "\<And>x y. x \<in> X \<Longrightarrow> y \<in> Y \<Longrightarrow> f x = f y \<Longrightarrow> g x = g y" and "f ` X = f ` Y"
  shows "g ` X = g ` Y"
proof (intro equalityI subsetI)
  fix z assume "z \<in> g ` X"
  then obtain x where "x \<in> X" "z = g x" by blast
  moreover obtain y where "y \<in> Y" "f x = f y" using assms(2) \<open>x \<in> X\<close> by blast
  ultimately show "z \<in> g ` Y" using assms(1) by auto
next
  fix z assume "z \<in> g ` Y"
  then obtain y where "y \<in> Y" "z = g y" by blast
  moreover obtain x where "x \<in> X" "f x = f y" using assms(2) \<open>y \<in> Y\<close> by (metis imageE imageI)
  ultimately show "z \<in> g ` X" using assms(1) by (metis imageI)
qed

lemma sorted_by_key_eq:
  assumes "distinct (map k xs)" and "distinct (map k ys)"
    and "\<And>x y. x \<in> set xs \<Longrightarrow> y \<in> set ys \<Longrightarrow> P x = P y \<longleftrightarrow> A x = A y"
    and "\<And>x y. x \<in> set xs \<Longrightarrow> y \<in> set ys \<Longrightarrow> A x = A y \<Longrightarrow> k x = k y"
  shows "map P (sort_key k xs) = map P (sort_key k ys) \<longleftrightarrow> A ` set xs = A ` set ys"
proof
  assume "map P (sort_key k xs) = map P (sort_key k ys)"
  then have "P ` set xs = P ` set ys" by (metis set_map set_sort)
  then show "A ` set xs = A ` set ys" using assms(3) by (intro image_same_if [of _ _ P A]) auto
next
  assume A: "A ` set xs = A ` set ys"
  have "k ` set xs = k ` set ys" using A assms(4) by (intro image_same_if [of _ _ A k]) auto
  then have keys: "map k (sort_key k xs) = map k (sort_key k ys)"
    using assms(1,2) by (intro sorted_distinct_set_unique) (simp_all add: distinct_map)
  have same: "P x = P y" if "x \<in> set xs" "y \<in> set ys" "k x = k y" for x y
  proof -
    obtain y' where y': "y' \<in> set ys" "A x = A y'" using A \<open>x \<in> set xs\<close> by (metis imageE imageI)
    with that(1,3) assms(4) have "k y' = k y" by metis
    with y'(1) that(2) assms(2) have "y' = y" by (auto simp: distinct_map dest: inj_onD)
    with y'(2) assms(3) that(1,2) show ?thesis by simp
  qed
  show "map P (sort_key k xs) = map P (sort_key k ys)"
  proof (rule nth_equalityI)
    show len: "length (map P (sort_key k xs)) = length (map P (sort_key k ys))"
      using keys by (metis length_map)
    fix i assume i: "i < length (map P (sort_key k xs))"
    have "k (sort_key k xs ! i) = k (sort_key k ys ! i)"
      using keys i len by (metis length_map nth_map)
    moreover have "sort_key k xs ! i \<in> set xs" "sort_key k ys ! i \<in> set ys"
      using i len by (metis length_map nth_mem set_sort)+
    ultimately show "map P (sort_key k xs) ! i = map P (sort_key k ys) ! i"
      using same i len by simp
  qed
qed

lemma projectObservation_iff:
  "projectObservation a = projectObservation b \<longleftrightarrow> content_of_obs a = content_of_obs b"
  by (simp add: projectObservation_def content_of_obs_def)

lemma projectStep_iff:
  assumes "distinct (map obs_id (observations s))" and "distinct (map obs_id (observations t))"
  shows "projectStep s = projectStep t \<longleftrightarrow> content_of_step s = content_of_step t"
proof -
  have "map projectObservation (sort_key obs_id (observations s))
      = map projectObservation (sort_key obs_id (observations t))
      \<longleftrightarrow> content_of_obs ` set (observations s) = content_of_obs ` set (observations t)"
    by (rule sorted_by_key_eq [OF assms]) (simp_all add: projectObservation_iff content_of_obs_def)
  then show ?thesis by (simp add: projectStep_def content_of_step_def)
qed

lemma map_JStr_eq [simp]: "map (\<lambda>p. JStr (f p)) ps = map (\<lambda>p. JStr (f p)) qs \<longleftrightarrow> map f ps = map f qs"
  by (induction ps arbitrary: qs) (auto simp: Cons_eq_map_conv map_eq_Cons_conv)

lemma projectCase_iff:
  assumes "case_ids_ok c" and "case_ids_ok d"
  shows "projectCase c = projectCase d \<longleftrightarrow> content_of_case c = content_of_case d"
proof -
  have steps: "map projectStep (sort_key step_id (steps c)) = map projectStep (sort_key step_id (steps d))
      \<longleftrightarrow> content_of_step ` set (steps c) = content_of_step ` set (steps d)"
    using assms
    by (intro sorted_by_key_eq) (auto simp: case_ids_ok_def list_all_iff projectStep_iff content_of_step_def)
  show ?thesis
    by (cases "priority c"; cases "priority d"; cases "preconditions c"; cases "preconditions d")
       (auto simp: projectCase_def content_of_case_def steps)
qed

lemma str_json_projectCase [simp]: "str_json (projectCase c)"
  by (auto simp: projectCase_def projectStep_def projectObservation_def list_all_iff split: option.splits)

lemma canonicalizeCase_iff: "canonicalizeCase c = canonicalizeCase d \<longleftrightarrow> projectCase c = projectCase d"
  by (simp add: canonicalizeCase_def stringify_inj)

subsection \<open>Properties\<close>

definition sample_obs :: "string \<Rightarrow> string \<Rightarrow> observation" where
  "sample_obs i e = \<lparr>obs_id = i, expected = e, observe = None\<rparr>"

definition sample_step :: "string \<Rightarrow> string \<Rightarrow> observation list \<Rightarrow> test_step" where
  "sample_step i t os = \<lparr>step_id = i, instruction = t, observations = os, step_target = None\<rparr>"

definition sample_tc :: "string \<Rightarrow> int \<Rightarrow> string \<Rightarrow> test_step list \<Rightarrow> test_case" where
  "sample_tc i l ty ss = \<lparr>tc_id = i, tc_title = ''Sign in'', tc_area = ''auth'', tc_level = l, tc_type = ty,
     priority = None, preconditions = None, steps = ss, tags = [], linked_requirement_ids = [''R1''],
     linked_user_story_ids = [], tc_lifecycle = None\<rparr>"

definition sample_plan :: "test_case list \<Rightarrow> test_cases_plan" where
  "sample_plan cs = \<lparr>tp_schema = ''s'', tp_schemaVersion = ''1.2.0'', specSlug = ''auth'', cases_of = cs\<rparr>"

lemmas sample_plan_defs = sample_obs_def sample_step_def sample_tc_def sample_plan_def

text \<open>
  C37. The canonical string identifies exactly what a plan says: two plans whose ids are unique at
  each level have the same canonical string (and so the same hash, up to a collision of the hash)
  if and only if they have the same cases with the same steps and observations, as sets, up to the
  normalisation of each text; the order of cases, steps and observations, tags, links, areas and
  lifecycle blocks never change it, and every other difference does.
\<close>

theorem canonicalize_iff_content:
  assumes "plan_ids_ok p" and "plan_ids_ok q"
  shows "canonicalize p = canonicalize q \<longleftrightarrow>
    content_of_case ` set (cases_of p) = content_of_case ` set (cases_of q)"
proof -
  have "canonicalize p = canonicalize q \<longleftrightarrow>
      map projectCase (sort_key tc_id (cases_of p)) = map projectCase (sort_key tc_id (cases_of q))"
    unfolding canonicalize_def by (subst stringify_inj) (simp_all add: list_all_iff)
  also have "\<dots> \<longleftrightarrow> content_of_case ` set (cases_of p) = content_of_case ` set (cases_of q)"
    using assms
    by (intro sorted_by_key_eq) (auto simp: plan_ids_ok_def list_all_iff projectCase_iff content_of_case_def)
  finally show ?thesis .
qed

theorem canonicalize_iff_content_witness:
  "canonicalize (sample_plan [sample_tc ''T1'' 1 ''ui'' [sample_step ''S1'' ''Open'' [],
        sample_step ''S2'' ''Click  OK'' [sample_obs ''O1'' '' ok'']], sample_tc ''T2'' 2 ''api'' []])
   = canonicalize (sample_plan [sample_tc ''T2'' 2 ''api'' [], sample_tc ''T1'' 1 ''e2e_flow''
        [sample_step ''S2'' ''Click OK'' [sample_obs ''O1'' ''ok''], sample_step ''S1'' ''Open'' []]])"
  by (subst canonicalize_iff_content)
     (simp_all add: sample_plan_defs plan_ids_ok_def case_ids_ok_def content_of_case_def content_of_step_def
       content_of_obs_def normalizeString_def trim_def is_ws_def insert_commute)

end
