(* ===== verification/LifecycleEngine.thy ===== *)
theory LifecycleEngine
  imports Descriptors DockerCli Ledger Processes Canonical
begin

section \<open>The lifecycle engine\<close>

text \<open>
  \<open>server/services/lifecycle-engine.ts\<close>: the execution of a provision descriptor. A run is a list of
  engine events (status reports, forwarded log text, host calls and ledger writes, in order) and
  then a thrown message or a result; \<open>fbind\<close> sequences two of them as \<open>await\<close> does. What each host
  call answers is the record \<open>host\<close>; an answer \<open>Inl\<close> is a rejected promise. The log sink is wired,
  as the bench manager always wires it; the time stamps of forwarded lines are left out.
\<close>

subsection \<open>Runs\<close>

datatype engine_event =
    Reported component_status
  | Forwarded log_source string
  | Forwarded_buffer string
  | Compose_up string string string "string jmap"
  | Waited_healthy string string
  | Ran_init string string string "string jmap"
  | Checked_container string
  | Recorded_compose string int string
  | Recorded_process string int string
  | Ran_process string string "string list" "string jmap" string int
  | Started_process string string "string list" "string jmap" string bool

type_synonym 'a flow = "engine_event list \<times> (string + 'a)"

definition fbind :: "'a flow \<Rightarrow> ('a \<Rightarrow> 'b flow) \<Rightarrow> 'b flow" where
  "fbind m f = (case m of (es, Inl e) \<Rightarrow> (es, Inl e) | (es, Inr x) \<Rightarrow> (es @ fst (f x), snd (f x)))"

definition emit :: "engine_event list \<Rightarrow> unit flow" where
  "emit es = (es, Inr ())"

definition give :: "'a \<Rightarrow> 'a flow" where
  "give x = ([], Inr x)"

definition throw :: "string \<Rightarrow> 'a flow" where
  "throw e = ([], Inl e)"

definition call :: "engine_event \<Rightarrow> string + 'a \<Rightarrow> 'a flow" where
  "call e r = ([e], r)"

record compose_result =
  compose_success :: bool
  compose_error :: "string option"
  compose_stdout :: string
  compose_stderr :: string

record host =
  composeUp_of :: "string + compose_result"
  waitForHealthy_of :: "string + bool"
  composeRunInit_of :: "string + compose_result"
  getContainerId_of :: "string + string option"
  getContainerStatusById_of :: "string + string"
  runProcess_of :: "string \<Rightarrow> string + int \<times> bool"
  startProcess_of :: "string + int"
  buffered_lines :: "string \<Rightarrow> string list"
  read_file :: "string \<Rightarrow> string option"
  path_resolve :: "string \<Rightarrow> string \<Rightarrow> string"
  path_join :: "string \<Rightarrow> string \<Rightarrow> string"
  regex_match :: "string \<Rightarrow> string \<Rightarrow> string option"
  schema_message :: "json \<Rightarrow> string"

record lifecycle_context =
  lc_pluginId :: string
  lc_projectId :: string
  lc_benchId :: int
  lc_component :: string
  lc_workspace :: string
  lc_ports :: "int jmap"
  lc_setupComplete :: "bool option"

record lifecycle_result =
  result_status :: component_state
  result_connection :: "string option"

definition DEFAULT_PORT_ENV_VAR :: string where
  "DEFAULT_PORT_ENV_VAR = ''HOST_PORT''"

definition MIGRATION_TIMEOUT_MS :: int where
  "MIGRATION_TIMEOUT_MS = 300000"

definition URL_OUTPUT_SCAN_CHARS :: nat where
  "URL_OUTPUT_SCAN_CHARS = 64000"

subsection \<open>Status reports\<close>

definition status_report ::
    "lifecycle_context \<Rightarrow> component_state \<Rightarrow> component_phase list \<Rightarrow> string option \<Rightarrow> component_status" where
  "status_report ctx st phases detail =
     \<lparr>comp_name = lc_component ctx, comp_status = st, pid = None, containerId = None, comp_error = None,
      statusDetail = detail, statusDetailStartedAt = None, startedAt = None,
      comp_phases = (if phases \<noteq> [] then Some phases else None), comp_url = None,
      setupComplete = coalesce (lc_setupComplete ctx) True\<rparr>"

definition mark_phases :: "string \<Rightarrow> component_phase list \<Rightarrow> component_phase list" where
  "mark_phases detail = map (\<lambda>p.
     if phase_label p = detail then p\<lparr>phase_status := Phase_running\<rparr>
     else if phase_status p = Phase_running then p\<lparr>phase_status := Phase_done\<rparr> else p)"

text \<open>\<open>push\<close> with a detail: the phases are marked, reported, and passed on.\<close>

definition push_detail ::
    "lifecycle_context \<Rightarrow> component_phase list \<Rightarrow> string \<Rightarrow> component_phase list flow" where
  "push_detail ctx phases detail =
     ([Reported (status_report ctx Starting (mark_phases detail phases) (Some detail))],
      Inr (mark_phases detail phases))"

text \<open>The final \<open>push\<close>: no detail, and the extra fields of the status.\<close>

definition push_final ::
    "lifecycle_context \<Rightarrow> component_state \<Rightarrow> component_phase list \<Rightarrow> (component_status \<Rightarrow> component_status)
      \<Rightarrow> string option \<Rightarrow> lifecycle_result flow" where
  "push_final ctx st phases extra conn =
     ([Reported (extra (status_report ctx st phases None))],
      Inr \<lparr>result_status = st, result_connection = conn\<rparr>)"

definition pushError ::
    "lifecycle_context \<Rightarrow> string \<Rightarrow> component_phase list \<Rightarrow> string option \<Rightarrow> lifecycle_result flow" where
  "pushError ctx message phases detail =
     ([Reported ((status_report ctx Errored phases detail)\<lparr>comp_error := Some message\<rparr>)],
      Inr \<lparr>result_status = Errored, result_connection = None\<rparr>)"

definition completePhases :: "component_phase list \<Rightarrow> component_phase list" where
  "completePhases = map (\<lambda>p. p\<lparr>phase_status := Phase_done\<rparr>)"

definition completePhasesError :: "component_phase list \<Rightarrow> component_phase list" where
  "completePhasesError =
     map (\<lambda>p. if phase_status p = Phase_running then p\<lparr>phase_status := Phase_error\<rparr> else p)"

definition pending_phase :: "string \<Rightarrow> component_phase" where
  "pending_phase l = \<lparr>phase_label = l, phase_status = Phase_pending\<rparr>"

definition urlExtra :: "string option \<Rightarrow> component_status \<Rightarrow> component_status" where
  "urlExtra u s = (if truthy u then s\<lparr>comp_url := u\<rparr> else s)"

subsection \<open>Templates, addresses and environment files\<close>

definition connection_key :: "string \<Rightarrow> int \<Rightarrow> string \<Rightarrow> string" where
  "connection_key componentName port expr =
     (let key = trim expr in
      if key = ''port'' then int_str port
      else if key = ''ports.'' @ componentName then int_str port
      else unresolved_text key)"

definition resolveConnectionTemplate :: "string \<Rightarrow> string \<Rightarrow> int \<Rightarrow> string" where
  "resolveConnectionTemplate template componentName port =
     subst_braces (connection_key componentName port) template"

definition fill_template :: "string \<Rightarrow> string \<Rightarrow> int option \<Rightarrow> string" where
  "fill_template template componentName port =
     (case port of Some p \<Rightarrow> resolveConnectionTemplate template componentName p | None \<Rightarrow> template)"

definition resolveDescriptorUrl ::
    "host \<Rightarrow> url_spec option \<Rightarrow> string \<Rightarrow> int option \<Rightarrow> string option \<Rightarrow> string option" where
  "resolveDescriptorUrl h url componentName port out =
     (case url of
        None \<Rightarrow> None
      | Some (Url_template t) \<Rightarrow> Some (fill_template t componentName port)
      | Some (Url_from_output r) \<Rightarrow>
          (if truthy out
           then regex_match h r (drop (length (the out) - URL_OUTPUT_SCAN_CHARS) (the out)) else None))"

definition env_line :: "string \<Rightarrow> (string \<times> string) option" where
  "env_line raw =
     (let line = trim raw in
      if line = [] \<or> starts_with ''#'' line then None
      else case index_of CHR ''='' line of
             None \<Rightarrow> None
           | Some i \<Rightarrow> if i = 0 then None
               else Some (trim (take i line), stripSurroundingQuotes (trim (drop (Suc i) line))))"

definition mergeEnv :: "host \<Rightarrow> string jmap option \<Rightarrow> string option \<Rightarrow> string \<Rightarrow> string jmap" where
  "mergeEnv h env envFile ws =
     (let from_file = (case envFile of
            None \<Rightarrow> []
          | Some f \<Rightarrow> (case read_file h (path_join h ws f) of
                None \<Rightarrow> []
              | Some contents \<Rightarrow> List.map_filter env_line (split_on newline contents)))
      in fold (\<lambda>(k, v). jput k v) (from_file @ coalesce env []) [])"

definition describeValidationFailure :: "host \<Rightarrow> json \<Rightarrow> string" where
  "describeValidationFailure h raw =
     (case raw of
        JObj m \<Rightarrow>
          (case map_of m ''schemaVersion'' of
             Some v \<Rightarrow> if v \<noteq> JNum SUPPORTED_PROVISION_SCHEMA_VERSION
               then ''Unsupported descriptor schemaVersion '' @ stringify v @ ''; this host supports schemaVersion ''
                 @ int_str SUPPORTED_PROVISION_SCHEMA_VERSION
               else ''Invalid ProvisionDescriptor: '' @ schema_message h raw
           | None \<Rightarrow> ''Invalid ProvisionDescriptor: '' @ schema_message h raw)
      | _ \<Rightarrow> ''Invalid ProvisionDescriptor: '' @ schema_message h raw)"

subsection \<open>Host calls\<close>

definition argv_mode :: "shell_setting option \<Rightarrow> bool" where
  "argv_mode sh = (sh = None \<or> sh = Some (Shell_flag False))"

definition withShellHint :: "string \<Rightarrow> shell_setting option \<Rightarrow> 'a flow \<Rightarrow> 'a flow" where
  "withShellHint command sh m =
     (case m of
        (es, Inl message) \<Rightarrow>
          (es, Inl (if argv_mode sh
             then (case shellHintForCommand command of None \<Rightarrow> message | Some hint \<Rightarrow> message @ ''. '' @ hint)
             else message))
      | _ \<Rightarrow> m)"

definition forward_text :: "log_source \<Rightarrow> string \<Rightarrow> engine_event list" where
  "forward_text src t = map (Forwarded src) (filter (\<lambda>l. l \<noteq> []) (split_on newline t))"

definition forwardOutput :: "compose_result \<Rightarrow> unit flow" where
  "forwardOutput r = emit (forward_text Stdout (compose_stdout r) @ forward_text Stderr (compose_stderr r))"

definition engine_id :: "lifecycle_context \<Rightarrow> string" where
  "engine_id ctx = lc_pluginId ctx @ '':'' @ int_str (lc_benchId ctx) @ '':'' @ lc_component ctx"

definition spawn_of :: "string \<Rightarrow> shell_setting option \<Rightarrow> string \<Rightarrow> spawn_spec flow" where
  "spawn_of command sh empty_message =
     (case resolveSpawn command sh of
        Inl e \<Rightarrow> throw e
      | Inr sp \<Rightarrow> if spawn_file sp = [] then throw empty_message else give sp)"

text \<open>A run to completion: recorded in the ledger before it is spawned.\<close>

definition run_recorded ::
    "host \<Rightarrow> lifecycle_context \<Rightarrow> string \<Rightarrow> string \<Rightarrow> shell_setting option \<Rightarrow> spawn_spec \<Rightarrow> string list
      \<Rightarrow> string jmap \<Rightarrow> string \<Rightarrow> int \<Rightarrow> (int \<times> bool) flow" where
  "run_recorded h ctx procId command sh sp args env cwd timeout =
     fbind (emit [Recorded_process (lc_pluginId ctx) (lc_benchId ctx) procId]) (\<lambda>_.
       withShellHint command sh
         (call (Ran_process procId (spawn_file sp) args env cwd timeout) (runProcess_of h procId)))"

subsection \<open>Docker\<close>

definition makeDockerPhases :: "docker_descriptor \<Rightarrow> component_phase list" where
  "makeDockerPhases d =
     [pending_phase ''Starting container'', pending_phase ''Waiting for healthy'']
     @ (if initService d \<noteq> None then [pending_phase ''Running init component''] else [])
     @ (if migration d \<noteq> None then [pending_phase ''Running migrations''] else [])"

definition assigned_container ::
    "host \<Rightarrow> lifecycle_context \<Rightarrow> docker_descriptor \<Rightarrow> string \<Rightarrow> lifecycle_result flow" where
  "assigned_container h ctx d cid =
     (let port = map_of (lc_ports ctx) (lc_component ctx) in
      fbind (push_detail ctx (makeDockerPhases d) ''Starting container'') (\<lambda>phases.
      fbind (call (Checked_container cid) (getContainerStatusById_of h)) (\<lambda>st.
        if st \<noteq> ''running''
        then throw (''Assigned container '' @ quoted cid @ '' is not running'')
        else push_final ctx Running (completePhases phases)
          (\<lambda>s. urlExtra (resolveDescriptorUrl h (docker_url d) (lc_component ctx) port None)
                 (s\<lparr>containerId := Some cid\<rparr>))
          (map_option (\<lambda>t. fill_template t (lc_component ctx) port) (connection d)))))"

definition run_init_service ::
    "host \<Rightarrow> lifecycle_context \<Rightarrow> docker_descriptor \<Rightarrow> string \<Rightarrow> string jmap \<Rightarrow> component_phase list
      \<Rightarrow> (component_phase list \<times> string list) flow" where
  "run_init_service h ctx d project env phases =
     (case initService d of
        None \<Rightarrow> give (phases, [])
      | Some svc \<Rightarrow>
          fbind (push_detail ctx phases ''Running init component'') (\<lambda>phases'.
          fbind (call (Ran_init (composeFile d) svc project env) (composeRunInit_of h)) (\<lambda>r.
          fbind (forwardOutput r) (\<lambda>_.
            if \<not> compose_success r then throw (coalesce (compose_error r) ''init service failed'')
            else give (phases', [compose_stdout r, compose_stderr r])))))"

definition migration_command :: "docker_migration \<Rightarrow> string" where
  "migration_command g =
     (if argv_mode (mig_shell g) then mig_command g
      else join_with '' '' (mig_command g # coalesce (mig_args g) []))"

definition run_migration ::
    "host \<Rightarrow> lifecycle_context \<Rightarrow> docker_descriptor \<Rightarrow> string jmap \<Rightarrow> component_phase list
      \<Rightarrow> component_phase list flow" where
  "run_migration h ctx d env phases =
     (case migration d of
        None \<Rightarrow> give phases
      | Some g \<Rightarrow>
          fbind (push_detail ctx phases ''Running migrations'') (\<lambda>phases'.
          fbind (spawn_of (migration_command g) (mig_shell g) ''migration command is empty'') (\<lambda>sp.
          fbind (run_recorded h ctx (engine_id ctx @ '':migration'') (migration_command g) (mig_shell g) sp
                   (if argv_mode (mig_shell g) then spawn_args sp @ coalesce (mig_args g) [] else spawn_args sp)
                   env (lc_workspace ctx) MIGRATION_TIMEOUT_MS) (\<lambda>(code, timed_out).
          fbind (emit [Forwarded_buffer (engine_id ctx @ '':migration'')]) (\<lambda>_.
            if code \<noteq> 0 then throw (''migration failed with exit code '' @ int_str code)
            else give phases')))))"

definition docker_env_vars :: "lifecycle_context \<Rightarrow> docker_descriptor \<Rightarrow> string jmap" where
  "docker_env_vars ctx d =
     (case map_of (lc_ports ctx) (lc_component ctx) of
        None \<Rightarrow> coalesce (docker_env d) []
      | Some p \<Rightarrow> jput (coalesce (portEnvVar d) DEFAULT_PORT_ENV_VAR) (int_str p) (coalesce (docker_env d) []))"

definition runDocker :: "host \<Rightarrow> lifecycle_context \<Rightarrow> docker_descriptor \<Rightarrow> lifecycle_result flow" where
  "runDocker h ctx d =
     (let project = getComposeProjectName (lc_projectId ctx) (lc_benchId ctx);
          port = map_of (lc_ports ctx) (lc_component ctx);
          env = docker_env_vars ctx d
      in case assignedContainerId d of
           Some cid \<Rightarrow> assigned_container h ctx d cid
         | None \<Rightarrow>
             fbind (push_detail ctx (makeDockerPhases d) ''Starting container'') (\<lambda>phases1.
             fbind (call (Compose_up (composeFile d) (service d) project env) (composeUp_of h)) (\<lambda>up.
             fbind (forwardOutput up) (\<lambda>_.
               if \<not> compose_success up then throw (coalesce (compose_error up) ''composeUp failed'')
               else
             fbind (emit [Recorded_compose (lc_pluginId ctx) (lc_benchId ctx) project]) (\<lambda>_.
             fbind (push_detail ctx phases1 ''Waiting for healthy'') (\<lambda>phases2.
             fbind (call (Waited_healthy project (service d)) (waitForHealthy_of h)) (\<lambda>healthy.
               if \<not> healthy
               then throw (''Container '' @ quoted (service d) @ '' did not become healthy within timeout'')
               else
             fbind (run_init_service h ctx d project env phases2) (\<lambda>(phases3, init_output).
             fbind (run_migration h ctx d env phases3) (\<lambda>phases4.
             fbind ([], getContainerId_of h) (\<lambda>cid.
               push_final ctx Running (completePhases phases4)
                 (\<lambda>s. urlExtra (resolveDescriptorUrl h (docker_url d) (lc_component ctx) port
                          (Some (join_with [newline] ([compose_stdout up, compose_stderr up] @ init_output))))
                        (if truthy cid then s\<lparr>containerId := cid\<rparr> else s))
                 (map_option (\<lambda>t. fill_template t (lc_component ctx) port) (connection d))))))))))))"

subsection \<open>Processes and one-shots\<close>

definition working_dir :: "host \<Rightarrow> lifecycle_context \<Rightarrow> string option \<Rightarrow> string" where
  "working_dir h ctx cwd = (case cwd of None \<Rightarrow> lc_workspace ctx | Some c \<Rightarrow> path_resolve h (lc_workspace ctx) c)"

definition needs_setup :: "lifecycle_context \<Rightarrow> process_descriptor \<Rightarrow> bool" where
  "needs_setup ctx d = (process_setup d \<noteq> None \<and> lc_setupComplete ctx \<noteq> Some True)"

definition run_setup ::
    "host \<Rightarrow> lifecycle_context \<Rightarrow> process_descriptor \<Rightarrow> string jmap \<Rightarrow> string \<Rightarrow> component_phase list
      \<Rightarrow> component_phase list flow" where
  "run_setup h ctx d env cwd phases =
     (if \<not> needs_setup ctx d then give phases
      else
        fbind (push_detail ctx phases ''Installing dependencies'') (\<lambda>phases'.
        fbind (spawn_of (the (process_setup d)) (process_shell d) ''setup command is empty'') (\<lambda>sp.
        fbind (run_recorded h ctx (engine_id ctx @ '':setup'') (the (process_setup d)) (process_shell d) sp
                 (spawn_args sp) env cwd 0) (\<lambda>(code, timed_out).
          if code \<noteq> 0 then throw (''setup failed with exit code '' @ int_str code) else give phases'))))"

definition start_call ::
    "host \<Rightarrow> lifecycle_context \<Rightarrow> spawn_spec \<Rightarrow> string jmap \<Rightarrow> string \<Rightarrow> int flow" where
  "start_call h ctx sp env cwd =
     call (Started_process (engine_id ctx) (spawn_file sp) (spawn_args sp) env cwd
             (case startProcess_of h of Inl _ \<Rightarrow> False | Inr _ \<Rightarrow> True)) (startProcess_of h)"

definition runProcess ::
    "host \<Rightarrow> lifecycle_context \<Rightarrow> process_descriptor \<Rightarrow> lifecycle_result flow" where
  "runProcess h ctx d =
     (let cwd = working_dir h ctx (process_cwd d);
          env = mergeEnv h (process_env d) (process_envFile d) (lc_workspace ctx);
          phases0 = (if needs_setup ctx d then [pending_phase ''Installing dependencies''] else [])
                    @ [pending_phase ''Starting process'']
      in fbind (run_setup h ctx d env cwd phases0) (\<lambda>phases1.
         fbind (push_detail ctx phases1 ''Starting process'') (\<lambda>phases2.
         fbind (spawn_of (process_command d) (process_shell d) ''process command is empty'') (\<lambda>sp.
         fbind (withShellHint (process_command d) (process_shell d) (start_call h ctx sp env cwd)) (\<lambda>p.
         fbind (emit [Recorded_process (lc_pluginId ctx) (lc_benchId ctx) (engine_id ctx)]) (\<lambda>_.
           push_final ctx Running (completePhases phases2)
             (\<lambda>s. urlExtra (resolveDescriptorUrl h (map_option Url_template (process_url d)) (lc_component ctx)
                      (map_of (lc_ports ctx) (lc_component ctx)) None) (s\<lparr>pid := Some p\<rparr>))
             None))))))"

definition oneshot_failure ::
    "lifecycle_context \<Rightarrow> oneshot_descriptor \<Rightarrow> component_phase list \<Rightarrow> int \<Rightarrow> bool \<Rightarrow> lifecycle_result flow" where
  "oneshot_failure ctx d phases code timed_out =
     (let ms = int_str (coalesce (timeoutMs d) 0) in
      if timed_out
      then pushError ctx (''one-shot timed out after '' @ ms @ ''ms and was force-killed (exit code '' @ int_str code @ '')'')
             (completePhasesError phases) (Some (''Timed out after '' @ ms @ ''ms''))
      else pushError ctx (''one-shot exited with code '' @ int_str code) (completePhasesError phases) None)"

definition captured_output :: "host \<Rightarrow> lifecycle_context \<Rightarrow> url_spec option \<Rightarrow> string option" where
  "captured_output h ctx url =
     (case url of
        Some (Url_from_output r) \<Rightarrow> Some (join_with [newline] (buffered_lines h (engine_id ctx)))
      | _ \<Rightarrow> None)"

definition runOneshot ::
    "host \<Rightarrow> lifecycle_context \<Rightarrow> oneshot_descriptor \<Rightarrow> lifecycle_result flow" where
  "runOneshot h ctx d =
     (let cwd = working_dir h ctx (oneshot_cwd d);
          env = mergeEnv h (oneshot_env d) (oneshot_envFile d) (lc_workspace ctx)
      in fbind (push_detail ctx [pending_phase ''Running''] ''Running'') (\<lambda>phases.
         fbind (spawn_of (oneshot_command d) (oneshot_shell d) ''oneshot command is empty'') (\<lambda>sp.
         fbind (run_recorded h ctx (engine_id ctx) (oneshot_command d) (oneshot_shell d) sp (spawn_args sp) env cwd
                  (coalesce (timeoutMs d) 0)) (\<lambda>(code, timed_out).
           if code \<noteq> 0 then oneshot_failure ctx d phases code timed_out
           else push_final ctx Completed (completePhases phases)
             (urlExtra (resolveDescriptorUrl h (oneshot_url d) (lc_component ctx)
                (map_of (lc_ports ctx) (lc_component ctx)) (captured_output h ctx (oneshot_url d))))
             None))))"

subsection \<open>A descriptor\<close>

fun run_kind :: "host \<Rightarrow> lifecycle_context \<Rightarrow> provision_descriptor \<Rightarrow> lifecycle_result flow" where
  "run_kind h ctx (Docker d) = runDocker h ctx d"
| "run_kind h ctx (Process d) = runProcess h ctx d"
| "run_kind h ctx (Oneshot d) = runOneshot h ctx d"

text \<open>A thrown error becomes a reported one.\<close>

definition catching ::
    "lifecycle_context \<Rightarrow> lifecycle_result flow \<Rightarrow> engine_event list \<times> lifecycle_result" where
  "catching ctx m =
     (case m of
        (es, Inr r) \<Rightarrow> (es, r)
      | (es, Inl e) \<Rightarrow> (es @ fst (pushError ctx e [] None), \<lparr>result_status = Errored, result_connection = None\<rparr>))"

definition runDescriptor :: "host \<Rightarrow> lifecycle_context \<Rightarrow> json \<Rightarrow> engine_event list \<times> lifecycle_result" where
  "runDescriptor h ctx raw =
     (case ProvisionDescriptorSchema raw of
        None \<Rightarrow> catching ctx (pushError ctx (describeValidationFailure h raw) [] None)
      | Some d \<Rightarrow> catching ctx (run_kind h ctx d))"

text \<open>The ledger after a run: its writes in order.\<close>

fun ledger_write :: "engine_event \<Rightarrow> persisted_state option \<Rightarrow> persisted_state option" where
  "ledger_write (Recorded_process p b i) st = recordProcess p b i st"
| "ledger_write (Recorded_compose p b c) st = recordComposeProject p b c st"
| "ledger_write e st = st"

definition ledger_after :: "engine_event list \<Rightarrow> persisted_state option \<Rightarrow> persisted_state option" where
  "ledger_after es st = fold ledger_write es st"

subsection \<open>Reasoning about runs\<close>

text \<open>A property of event lists that every part of a run has, and that concatenation keeps.\<close>

lemma fst_fbind: "fst (fbind m f) = (case snd m of Inl e \<Rightarrow> fst m | Inr x \<Rightarrow> fst m @ fst (f x))"
  and snd_fbind: "snd (fbind m f) = (case snd m of Inl e \<Rightarrow> Inl e | Inr x \<Rightarrow> snd (f x))"
  by (auto simp: fbind_def split: prod.split sum.split)

lemma flow_simps [simp]:
  "fst (emit es) = es" "snd (emit es) = Inr ()" "fst (give x) = []" "snd (give x) = Inr x"
  "fst (throw e) = []" "snd (throw e) = Inl e" "fst (call ev r) = [ev]" "snd (call ev r) = r"
  by (simp_all add: emit_def give_def throw_def call_def)

lemma fst_withShellHint [simp]: "fst (withShellHint c sh m) = fst m"
  by (auto simp: withShellHint_def split: prod.split sum.split)

lemma snd_withShellHint: "(\<exists>e. snd (withShellHint c sh m) = Inl e) = (\<exists>e. snd m = Inl e)"
  "snd (withShellHint c sh m) = Inr x \<longleftrightarrow> snd m = Inr x"
  by (auto simp: withShellHint_def split: prod.splits sum.splits)

text \<open>
  A predicate on event lists that concatenation keeps holds of a run when it holds of its parts.
\<close>

definition along :: "(engine_event list \<Rightarrow> bool) \<Rightarrow> 'a flow \<Rightarrow> bool" where
  "along P m = P (fst m)"

named_theorems along_intros \<open>an event predicate along a run, part by part\<close>

locale event_predicate =
  fixes P :: "engine_event list \<Rightarrow> bool"
  assumes P_append: "P xs \<Longrightarrow> P ys \<Longrightarrow> P (xs @ ys)"
    and P_nil: "P []"
    and P_report: "P [Reported s]"
    and P_forward: "P [Forwarded src t]" "P [Forwarded_buffer i]"
begin

lemma along_fbind: "along P m \<Longrightarrow> (\<And>x. snd m = Inr x \<Longrightarrow> along P (f x)) \<Longrightarrow> along P (fbind m f)"
  unfolding along_def fst_fbind by (auto split: sum.split intro: P_append)

lemma along_give: "along P (give x)" "along P (throw e)"
  by (simp_all add: along_def P_nil)

lemma along_push: "along P (push_detail ctx ph d)" "along P (push_final ctx st ph ex c)" "along P (pushError ctx e ph sd)"
  by (simp_all add: along_def push_detail_def push_final_def pushError_def P_report)

lemma along_hint: "along P m \<Longrightarrow> along P (withShellHint c sh m)"
  by (simp add: along_def)

lemma along_spawn: "along P (spawn_of c sh e)"
  by (auto simp: spawn_of_def along_give split: sum.split)

lemma along_forward: "along P (forwardOutput r)"
proof -
  have "P (map (Forwarded src) ls)" for src ls
    using P_append [of "[Forwarded src _]"] by (induction ls) (auto simp: P_nil P_forward)
  then show ?thesis unfolding along_def forwardOutput_def forward_text_def flow_simps by (intro P_append)
qed

lemma along_buffer: "along P (emit [Forwarded_buffer i])"
  by (simp add: along_def P_forward)

lemmas along_parts = along_fbind along_give along_push along_hint along_spawn along_forward along_buffer

end

subsection \<open>Ownership is recorded\<close>

text \<open>Every run to completion comes after the ledger write of its id.\<close>

fun recorded_first :: "string \<Rightarrow> int \<Rightarrow> string list \<Rightarrow> engine_event list \<Rightarrow> bool" where
  "recorded_first p b seen [] = True"
| "recorded_first p b seen (Recorded_process q c i # es) =
     recorded_first p b (if q = p \<and> c = b then i # seen else seen) es"
| "recorded_first p b seen (Ran_process i f a e c t # es) = (i \<in> set seen \<and> recorded_first p b seen es)"
| "recorded_first p b seen (ev # es) = recorded_first p b seen es"

lemma recorded_first_mono: "recorded_first p b seen es \<Longrightarrow> set seen \<subseteq> set seen' \<Longrightarrow> recorded_first p b seen' es"
proof (induction es arbitrary: seen seen')
  case (Cons ev es)
  show ?case
  proof (cases ev)
    case (Recorded_process q c i)
    have "recorded_first p b (if q = p \<and> c = b then i # seen' else seen') es"
      by (rule Cons.IH [of "if q = p \<and> c = b then i # seen else seen"]) (use Cons.prems Recorded_process in auto)
    with Recorded_process show ?thesis by simp
  next
    case (Ran_process i f a e c t)
    with Cons.prems Cons.IH [of seen seen'] show ?thesis by auto
  qed (use Cons.prems Cons.IH [of seen seen'] in simp_all)
qed simp

lemma recorded_first_append:
  "recorded_first p b seen xs \<Longrightarrow> recorded_first p b [] ys \<Longrightarrow> recorded_first p b seen (xs @ ys)"
proof (induction p b seen xs rule: recorded_first.induct)
  case (1 p b seen)
  then show ?case using recorded_first_mono [of p b "[]" ys seen] by simp
qed simp_all

interpretation rec_first: event_predicate "recorded_first p b []" for p b
  by unfold_locales (simp_all add: recorded_first_append)

definition plain_event :: "engine_event \<Rightarrow> bool" where
  "plain_event ev = (case ev of Ran_process _ _ _ _ _ _ \<Rightarrow> False | _ \<Rightarrow> True)"

lemma rec_first_plain: "plain_event ev \<Longrightarrow> along (recorded_first p b []) (call ev r)"
  "plain_event ev \<Longrightarrow> along (recorded_first p b []) (emit [ev])"
  "along (recorded_first p b []) (([], r) :: 'a flow)"
  by (cases ev; simp add: along_def plain_event_def)+

lemma rec_first_run:
  "along (recorded_first (lc_pluginId ctx) (lc_benchId ctx) []) (run_recorded h ctx i c sh sp args env cwd t)"
  by (simp add: run_recorded_def along_def fst_fbind)

lemmas rec_first_intros = rec_first.along_parts rec_first_run rec_first_plain

lemma rec_first_setup: "along (recorded_first (lc_pluginId ctx) (lc_benchId ctx) []) (run_setup h ctx d env cwd ph)"
  unfolding run_setup_def by (auto intro!: rec_first_intros)

lemma rec_first_migration: "along (recorded_first (lc_pluginId ctx) (lc_benchId ctx) []) (run_migration h ctx d env ph)"
  unfolding run_migration_def by (auto intro!: rec_first_intros split: option.split)

lemma rec_first_init: "along (recorded_first (lc_pluginId ctx) (lc_benchId ctx) []) (run_init_service h ctx d pr env ph)"
  unfolding run_init_service_def by (auto intro!: rec_first_intros simp: plain_event_def split: option.split)

lemma rec_first_docker: "along (recorded_first (lc_pluginId ctx) (lc_benchId ctx) []) (runDocker h ctx d)"
  unfolding runDocker_def assigned_container_def Let_def
  by (auto intro!: rec_first_intros rec_first_init rec_first_migration simp: plain_event_def split: option.split)

lemma rec_first_process: "along (recorded_first (lc_pluginId ctx) (lc_benchId ctx) []) (runProcess h ctx d)"
  unfolding runProcess_def Let_def start_call_def
  by (auto intro!: rec_first_intros rec_first_setup simp: plain_event_def)

lemma rec_first_oneshot: "along (recorded_first (lc_pluginId ctx) (lc_benchId ctx) []) (runOneshot h ctx d)"
  unfolding runOneshot_def Let_def oneshot_failure_def by (auto intro!: rec_first_intros)

lemma rec_first_kind: "along (recorded_first (lc_pluginId ctx) (lc_benchId ctx) []) (run_kind h ctx d)"
  by (cases d) (simp_all add: rec_first_docker rec_first_process rec_first_oneshot)

lemma catching_events: "fst (catching ctx m) = fst m \<or> (\<exists>s. fst (catching ctx m) = fst m @ [Reported s])"
  by (auto simp: catching_def pushError_def split: prod.split sum.split)

lemma along_catching:
  assumes "event_predicate P" and "along P m"
  shows "P (fst (catching ctx m))"
  using catching_events [of ctx m] assms(2) event_predicate.P_append [OF assms(1)] event_predicate.P_report [OF assms(1)]
  by (auto simp: along_def)

text \<open>
  The ledger write an event calls for: of the id of a child that was run or started, and of a
  compose project that came up.
\<close>

definition debt :: "host \<Rightarrow> lifecycle_context \<Rightarrow> engine_event \<Rightarrow> engine_event option" where
  "debt h ctx ev =
     (case ev of
        Ran_process i _ _ _ _ _ \<Rightarrow> Some (Recorded_process (lc_pluginId ctx) (lc_benchId ctx) i)
      | Started_process i _ _ _ _ ok \<Rightarrow>
          if ok then Some (Recorded_process (lc_pluginId ctx) (lc_benchId ctx) i) else None
      | Compose_up _ _ project _ \<Rightarrow>
          (case composeUp_of h of
             Inr up \<Rightarrow> if compose_success up
               then Some (Recorded_compose (lc_pluginId ctx) (lc_benchId ctx) project) else None
           | Inl _ \<Rightarrow> None)
      | _ \<Rightarrow> None)"

definition settled :: "host \<Rightarrow> lifecycle_context \<Rightarrow> engine_event list \<Rightarrow> bool" where
  "settled h ctx es \<longleftrightarrow> (\<forall>ev \<in> set es. \<forall>d. debt h ctx ev = Some d \<longrightarrow> d \<in> set es)"

interpretation settled: event_predicate "settled h ctx" for h ctx
  by unfold_locales (auto simp: settled_def debt_def)

lemma settled_free: "debt h ctx ev = None \<Longrightarrow> along (settled h ctx) (call ev r)"
  "debt h ctx ev = None \<Longrightarrow> along (settled h ctx) (emit [ev])"
  "along (settled h ctx) (([], r) :: 'a flow)"
  by (simp_all add: along_def settled_def)

lemma settled_run: "along (settled h ctx) (run_recorded h ctx i c sh sp args env cwd t)"
  by (simp add: run_recorded_def along_def fst_fbind settled_def debt_def)

lemma settled_start:
  assumes "\<And>p. along (settled h ctx) (k p)"
  shows "along (settled h ctx) (fbind (withShellHint c sh (start_call h ctx sp env cwd)) (\<lambda>p.
    fbind (emit [Recorded_process (lc_pluginId ctx) (lc_benchId ctx) (engine_id ctx)]) (\<lambda>_. k p)))"
proof (cases "startProcess_of h")
  case (Inl e)
  then obtain e' where "snd (withShellHint c sh (start_call h ctx sp env cwd)) = Inl e'"
    using snd_withShellHint(1) [of c sh "start_call h ctx sp env cwd"] by (auto simp: start_call_def)
  then show ?thesis using Inl by (simp add: along_def fst_fbind settled_def debt_def start_call_def)
next
  case (Inr p)
  then have s: "snd (withShellHint c sh (start_call h ctx sp env cwd)) = Inr p"
    using snd_withShellHint(2) [of c sh "start_call h ctx sp env cwd" p] by (simp add: start_call_def)
  let ?ev = "Started_process (engine_id ctx) (spawn_file sp) (spawn_args sp) env cwd True"
  let ?r = "Recorded_process (lc_pluginId ctx) (lc_benchId ctx) (engine_id ctx)"
  have "settled h ctx ([?ev, ?r] @ fst (k p))"
    using assms [of p] by (intro settled.P_append) (simp_all add: along_def settled_def debt_def)
  then show ?thesis using s Inr by (simp add: along_def fst_fbind start_call_def)
qed

lemma settled_up:
  assumes "\<And>up. along (settled h ctx) (k up)"
  shows "along (settled h ctx) (fbind (call (Compose_up f svc project env) (composeUp_of h)) (\<lambda>up.
    fbind (forwardOutput up) (\<lambda>_.
      if \<not> compose_success up then throw (msg up)
      else fbind (emit [Recorded_compose (lc_pluginId ctx) (lc_benchId ctx) project]) (\<lambda>_. k up))))"
proof (cases "composeUp_of h")
  case (Inl e)
  then show ?thesis by (simp add: along_def fst_fbind settled_def debt_def)
next
  case (Inr up)
  have fw: "settled h ctx (fst (forwardOutput up))" using settled.along_forward [of h ctx up] by (simp add: along_def)
  have fi: "snd (forwardOutput up) = Inr ()" by (simp add: forwardOutput_def)
  let ?ev = "Compose_up f svc project env"
  let ?r = "Recorded_compose (lc_pluginId ctx) (lc_benchId ctx) project"
  show ?thesis
  proof (cases "compose_success up")
    case True
    have "settled h ctx (fst (forwardOutput up) @ fst (k up))"
      using fw assms [of up] by (intro settled.P_append) (simp_all add: along_def)
    then have "settled h ctx (?ev # fst (forwardOutput up) @ ?r # fst (k up))"
      using Inr True by (auto simp: settled_def debt_def)
    then show ?thesis using Inr True fi by (simp add: along_def fst_fbind)
  next
    case False
    have "settled h ctx ([?ev] @ fst (forwardOutput up))"
      using fw Inr False by (intro settled.P_append) (simp_all add: settled_def debt_def)
    then show ?thesis using Inr False fi by (simp add: along_def fst_fbind)
  qed
qed

lemmas settled_intros = settled_up settled_start settled.along_parts settled_run settled_free

lemma settled_setup: "along (settled h ctx) (run_setup h ctx d env cwd ph)"
  unfolding run_setup_def by (auto intro!: settled_intros)

lemma settled_migration: "along (settled h ctx) (run_migration h ctx d env ph)"
  unfolding run_migration_def by (auto intro!: settled_intros split: option.split)

lemma settled_init: "along (settled h ctx) (run_init_service h ctx d pr env ph)"
  unfolding run_init_service_def by (auto intro!: settled_intros simp: debt_def split: option.split)

lemma settled_docker: "along (settled h ctx) (runDocker h ctx d)"
proof (cases "assignedContainerId d")
  case (Some cid)
  then show ?thesis unfolding runDocker_def assigned_container_def Let_def
    by (auto intro!: settled_intros simp: debt_def)
next
  case None
  show ?thesis unfolding runDocker_def Let_def None option.case
    by (rule settled.along_fbind, rule settled.along_push, rule settled_up)
       (auto intro!: settled_intros settled_init settled_migration simp: debt_def)
qed

lemma settled_process: "along (settled h ctx) (runProcess h ctx d)"
  unfolding runProcess_def Let_def
  by (intro settled.along_fbind settled.along_parts settled_setup settled_start)

lemma settled_oneshot: "along (settled h ctx) (runOneshot h ctx d)"
  unfolding runOneshot_def Let_def oneshot_failure_def by (auto intro!: settled_intros)

lemma settled_kind: "along (settled h ctx) (run_kind h ctx d)"
  by (cases d) (simp_all add: settled_docker settled_process settled_oneshot)

lemma runDescriptor_along:
  assumes "event_predicate P" and "\<And>d. along P (run_kind h ctx d)"
  shows "P (fst (runDescriptor h ctx raw))"
  using along_catching [OF assms(1)] assms(2) event_predicate.along_push(3) [OF assms(1)]
  by (auto simp: runDescriptor_def split: option.split)

subsection \<open>The outcome is reported\<close>

definition ends_in_report :: "lifecycle_context \<Rightarrow> lifecycle_result flow \<Rightarrow> bool" where
  "ends_in_report ctx m \<longleftrightarrow> (\<forall>r. snd m = Inr r \<longrightarrow> result_status r \<in> {Running, Completed, Errored}
     \<and> (\<exists>xs s. fst m = xs @ [Reported s] \<and> comp_name s = lc_component ctx \<and> comp_status s = result_status r))"

lemma ends_fbind: "(\<And>x. ends_in_report ctx (f x)) \<Longrightarrow> ends_in_report ctx (fbind m f)"
  unfolding ends_in_report_def fst_fbind snd_fbind by (auto split: sum.splits) (metis append.assoc)

lemma ends_throw: "ends_in_report ctx (throw e)"
  by (simp add: ends_in_report_def)

lemma ends_pushError: "ends_in_report ctx (pushError ctx e ph d)"
  by (auto simp: ends_in_report_def pushError_def status_report_def)

lemma comp_status_urlExtra [simp]: "comp_status (urlExtra u s) = comp_status s" "comp_name (urlExtra u s) = comp_name s"
  by (simp_all add: urlExtra_def)

lemma ends_push_final: "st \<in> {Running, Completed} \<Longrightarrow> (\<And>s. comp_status (ex s) = comp_status s \<and> comp_name (ex s) = comp_name s) \<Longrightarrow>
    ends_in_report ctx (push_final ctx st ph ex c)"
  by (auto simp: ends_in_report_def push_final_def status_report_def)

lemma ends_if: "(b \<Longrightarrow> ends_in_report ctx m) \<Longrightarrow> (\<not> b \<Longrightarrow> ends_in_report ctx m') \<Longrightarrow> ends_in_report ctx (if b then m else m')"
  by simp

lemma ends_split: "(\<And>a b. ends_in_report ctx (f a b)) \<Longrightarrow> ends_in_report ctx (case p of (a, b) \<Rightarrow> f a b)"
  by (cases p) simp

lemmas ends_intros = ends_fbind ends_throw ends_pushError ends_push_final ends_if ends_split

lemma ends_docker: "ends_in_report ctx (runDocker h ctx d)"
proof (cases "assignedContainerId d")
  case (Some cid)
  show ?thesis unfolding runDocker_def Let_def Some option.case assigned_container_def
    by (intro ends_intros) simp_all
next
  case None
  show ?thesis unfolding runDocker_def Let_def None option.case by (intro ends_intros) simp_all
qed

lemma ends_process: "ends_in_report ctx (runProcess h ctx d)"
  unfolding runProcess_def Let_def by (intro ends_intros) simp_all

lemma ends_oneshot: "ends_in_report ctx (runOneshot h ctx d)"
  unfolding runOneshot_def Let_def oneshot_failure_def by (intro ends_intros) simp_all

lemma ends_kind: "ends_in_report ctx (run_kind h ctx d)"
  by (cases d) (simp_all add: ends_docker ends_process ends_oneshot)

lemma catching_report:
  assumes "ends_in_report ctx m"
  shows "result_status (snd (catching ctx m)) \<in> {Running, Completed, Errored}
    \<and> (\<exists>xs s. fst (catching ctx m) = xs @ [Reported s] \<and> comp_name s = lc_component ctx \<and> comp_status s = result_status (snd (catching ctx m)))"
proof (cases "snd m")
  case (Inl e)
  then show ?thesis by (cases m) (simp add: catching_def pushError_def status_report_def)
next
  case (Inr r)
  with assms show ?thesis by (cases m) (auto simp: catching_def ends_in_report_def)
qed

lemma runDescriptor_ends:
  "result_status (snd (runDescriptor h ctx raw)) \<in> {Running, Completed, Errored}
    \<and> (\<exists>xs s. fst (runDescriptor h ctx raw) = xs @ [Reported s] \<and> comp_name s = lc_component ctx
         \<and> comp_status s = result_status (snd (runDescriptor h ctx raw)))"
proof (cases "ProvisionDescriptorSchema raw")
  case None
  show ?thesis unfolding runDescriptor_def None option.case by (rule catching_report [OF ends_pushError])
next
  case (Some d)
  show ?thesis unfolding runDescriptor_def Some option.case by (rule catching_report [OF ends_kind])
qed

subsection \<open>Setup runs once\<close>

definition never_runs :: "string \<Rightarrow> engine_event list \<Rightarrow> bool" where
  "never_runs i es \<longleftrightarrow> (\<forall>f a e c t. Ran_process i f a e c t \<notin> set es)"

interpretation never: event_predicate "never_runs i" for i
  by unfold_locales (auto simp: never_runs_def)

lemma never_call: "plain_event ev \<Longrightarrow> along (never_runs i) (call ev r)"
  "along (never_runs i) (emit [Recorded_process p b j])" "along (never_runs i) (emit [Recorded_compose p b j])"
  "along (never_runs i) (([], r) :: 'a flow)"
  by (auto simp: along_def never_runs_def plain_event_def)

lemma never_run: "j \<noteq> i \<Longrightarrow> along (never_runs i) (run_recorded h ctx j c sh sp args env cwd t)"
  by (simp add: run_recorded_def along_def fst_fbind never_runs_def)

lemmas never_intros = never.along_parts never_call never_run

lemma never_setup_kind:
  assumes "lc_setupComplete ctx = Some True"
  shows "along (never_runs (engine_id ctx @ '':setup'')) (run_kind h ctx d)"
proof (cases d)
  case (Docker dd)
  have "along (never_runs (engine_id ctx @ '':setup'')) (run_migration h ctx dd env ph)" for env ph
    unfolding run_migration_def by (auto intro!: never_intros split: option.split)
  moreover have "along (never_runs (engine_id ctx @ '':setup'')) (run_init_service h ctx dd pr env ph)" for pr env ph
    unfolding run_init_service_def by (auto intro!: never_intros simp: plain_event_def split: option.split)
  ultimately show ?thesis unfolding Docker run_kind.simps runDocker_def assigned_container_def Let_def
    by (auto intro!: never_intros simp: plain_event_def split: option.split)
next
  case (Process pd)
  have "run_setup h ctx pd env cwd ph = give ph" for env cwd ph
    using assms by (simp add: run_setup_def needs_setup_def)
  then show ?thesis unfolding Process run_kind.simps runProcess_def Let_def start_call_def
    by (auto intro!: never_intros simp: plain_event_def)
next
  case (Oneshot od)
  show ?thesis unfolding Oneshot run_kind.simps runOneshot_def Let_def oneshot_failure_def
    by (auto intro!: never_intros)
qed

subsection \<open>The ledger after a run\<close>

lemma ledger_after_grows:
  "owned_procs st \<subseteq> owned_procs (ledger_after es st) \<and> owned_composes st \<subseteq> owned_composes (ledger_after es st)"
proof (induction es arbitrary: st)
  case (Cons ev es)
  have "owned_procs st \<subseteq> owned_procs (ledger_write ev st) \<and> owned_composes st \<subseteq> owned_composes (ledger_write ev st)"
    by (cases ev) (auto simp: ledger_ops with_entry_procs with_entry_composes)
  with Cons.IH [of "ledger_write ev st"] show ?case by (auto simp: ledger_after_def)
qed (simp_all add: ledger_after_def)

lemma ledger_after_process: "Recorded_process p b i \<in> set es \<Longrightarrow> (p, b, i) \<in> owned_procs (ledger_after es st)"
proof (induction es arbitrary: st)
  case (Cons ev es)
  have "(p, b, i) \<in> owned_procs (recordProcess p b i st)" by (simp add: ledger_ops with_entry_procs)
  with Cons ledger_after_grows [of "recordProcess p b i st" es] show ?case
    by (auto simp: ledger_after_def)
qed simp

lemma ledger_after_compose: "Recorded_compose p b c \<in> set es \<Longrightarrow> (p, b, c) \<in> owned_composes (ledger_after es st)"
proof (induction es arbitrary: st)
  case (Cons ev es)
  have "(p, b, c) \<in> owned_composes (recordComposeProject p b c st)" by (simp add: ledger_ops with_entry_composes)
  with Cons ledger_after_grows [of "recordComposeProject p b c st" es] show ?case
    by (auto simp: ledger_after_def)
qed simp

subsection \<open>Properties\<close>

text \<open>
  C7. A run always ends with a report of its outcome: the last event is a status report, it names
  the component and carries the status the caller gets, and that status is running, completed or error. A value that is not a
  descriptor causes no host call and no ledger write at all, only the report of the error; and a
  component whose setup is complete never runs it again.
\<close>

theorem engine_reports_outcome:
  assumes "runDescriptor h ctx raw = (es, r)"
  shows "result_status r \<in> {Running, Completed, Errored}
    \<and> (\<exists>xs s. es = xs @ [Reported s] \<and> comp_name s = lc_component ctx \<and> comp_status s = result_status r)
    \<and> (ProvisionDescriptorSchema raw = None \<longrightarrow> result_status r = Errored \<and> length es = 1)
    \<and> (lc_setupComplete ctx = Some True \<longrightarrow>
         (\<forall>f a e c t. Ran_process (engine_id ctx @ '':setup'') f a e c t \<notin> set es))"
proof -
  have es: "es = fst (runDescriptor h ctx raw)" and r: "r = snd (runDescriptor h ctx raw)" using assms by simp_all
  have "never_runs (engine_id ctx @ '':setup'') es" if "lc_setupComplete ctx = Some True"
    unfolding es by (rule runDescriptor_along [OF never.event_predicate_axioms never_setup_kind [OF that]])
  moreover note runDescriptor_ends [of h ctx raw, folded es r]
  moreover have "result_status r = Errored \<and> length es = 1" if "ProvisionDescriptorSchema raw = None"
    unfolding es r using that by (simp add: runDescriptor_def catching_def pushError_def)
  ultimately show ?thesis unfolding never_runs_def by blast
qed

definition sample_context :: "string \<Rightarrow> lifecycle_context" where
  "sample_context p = \<lparr>lc_pluginId = ''process'', lc_projectId = p, lc_benchId = 1, lc_component = ''web'',
     lc_workspace = ''/w'', lc_ports = [(''web'', 4000)], lc_setupComplete = Some True\<rparr>"

definition sample_host :: host where
  "sample_host = \<lparr>composeUp_of = Inl ''no docker'', waitForHealthy_of = Inr True, composeRunInit_of = Inl ''no docker'',
     getContainerId_of = Inr None, getContainerStatusById_of = Inr ''running'', runProcess_of = (\<lambda>i. Inr (0, False)),
     startProcess_of = Inr 7, buffered_lines = (\<lambda>i. []), read_file = (\<lambda>f. None), path_resolve = (\<lambda>a b. b),
     path_join = (\<lambda>a b. a @ ''/'' @ b), regex_match = (\<lambda>r s. None), schema_message = (\<lambda>j. ''invalid'')\<rparr>"

definition sample_descriptor :: json where
  "sample_descriptor = JObj [(''schemaVersion'', JNum 1), (''kind'', JStr ''process''), (''command'', JStr ''vite'')]"

theorem engine_reports_outcome_witness:
  "\<exists>es r. runDescriptor sample_host (sample_context ''a'') (JObj [(''schemaVersion'', JNum 2)]) = (es, r)
     \<and> result_status r = Errored"
proof -
  obtain es r where r: "runDescriptor sample_host (sample_context ''a'') (JObj [(''schemaVersion'', JNum 2)]) = (es, r)"
    by (cases "runDescriptor sample_host (sample_context ''a'') (JObj [(''schemaVersion'', JNum 2)])")
  have "ProvisionDescriptorSchema (JObj [(''schemaVersion'', JNum 2)]) = None"
    by (simp add: SUPPORTED_PROVISION_SCHEMA_VERSION_def)
  with engine_reports_outcome [OF r] r show ?thesis by blast
qed


lemma sample_run: "\<exists>es s. runDescriptor sample_host (sample_context ''a'') sample_descriptor
    = (es, s) \<and> Started_process ''process:1:web'' ''vite'' [] [] ''/w'' True \<in> set es"
  by (simp add: runDescriptor_def sample_descriptor_def SUPPORTED_PROVISION_SCHEMA_VERSION_def
      ProcessProvisionDescriptorSchema_def strict_def required_def optional_def catching_def runProcess_def
      run_setup_def needs_setup_def give_def fbind_def push_detail_def spawn_of_def resolveSpawn_def parseCommand_def
      parse_char_def parse_start_def is_ws_def withShellHint_def start_call_def call_def sample_host_def
      sample_context_def engine_id_def emit_def push_final_def working_dir_def mergeEnv_def int_str_def nat_str.simps
      digit_char_def char_of_def bit_Suc bit_0 Let_def)


text \<open>
  The ids the engine gives to processes do not name the project: when benches with the same
  number in two projects have a component with the same name and plugin, starting the second bench's
  component stops the child of the first and takes its place under the id.
\<close>

theorem same_number_benches_share_a_child:
  assumes "lc_pluginId a = lc_pluginId b" and "lc_benchId a = lc_benchId b" and "lc_component a = lc_component b"
    and "p \<noteq> q"
  shows "let s1 = snd (startProcess True (engine_id a) (Some p) s);
             s2 = snd (startProcess True (engine_id b) (Some q) s1)
         in p \<in> set (running s1) \<and> p \<notin> set (running s2) \<and> q \<in> set (running s2)
            \<and> getProcessPid (engine_id a) s2 = Some q"
proof -
  have id: "engine_id b = engine_id a" using assms(1-3) by (simp add: engine_id_def)
  let ?s1 = "snd (startProcess True (engine_id a) (Some p) s)"
  have s1: "map_of (processes ?s1) (engine_id a) = Some (fresh_process (engine_id a) (Some p))" "p \<in> set (running ?s1)"
    by (simp_all add: startProcess_def Let_def register_def)
  then have "jhas (processes ?s1) (engine_id a)" by (simp add: jhas_iff)
  with s1 assms(4) show ?thesis unfolding id Let_def
    by (simp add: startProcess_def [of True "engine_id a" "Some q" ?s1] Let_def register_def stopProcess_def
        fresh_process_def getProcessPid_def)
qed

theorem same_number_benches_share_a_child_witness:
  "8 \<notin> set (running (snd (startProcess True (engine_id (sample_context ''b'')) (Some 9)
     (snd (startProcess True (engine_id (sample_context ''a'')) (Some 8) no_processes)))))"
  using same_number_benches_share_a_child [of "sample_context ''a''" "sample_context ''b''" 8 9 no_processes]
  by (simp add: sample_context_def Let_def)

end
