(* ===== verification/BenchRun.thy ===== *)
theory BenchRun
  imports BenchManager BenchOrder LifecycleEngine HostEnv
begin

section \<open>Starting, stopping and clearing a bench\<close>

text \<open>
  The flows of \<open>server/services/bench-manager.ts\<close> that run the components of a bench: the merge of a
  pushed status (\<open>buildReportStatus\<close>), the launch of one component through its plugin
  (\<open>provisionComponent\<close>, over the lifecycle engine), the run of a start plan
  (\<open>runComponentsInOrder\<close>), the stop of one and of all components, and the teardown of a bench.
  The state is the bench in memory and the value of the state file. What a plugin answers, which
  plugin a component is bound to and the outcome of host calls are parameters.
\<close>

type_synonym bench_state = "bench \<times> persisted_state option"

definition persist :: "bench_state \<Rightarrow> bench_state" where
  "persist st = (fst st, updateBench (toPersistedBench (fst st)) (snd st))"

definition on_component :: "string \<Rightarrow> (component_status \<Rightarrow> component_status) \<Rightarrow> bench \<Rightarrow> bench" where
  "on_component name f b = b\<lparr>bench_components := jupd name f (bench_components b)\<rparr>"

subsection \<open>Pushed statuses\<close>

text \<open>
  A push always carries the status, the phases, the detail and the setup flag; the other fields it
  carries or leaves out, and then keep what the previous status had.
\<close>

definition merge_status :: "component_status option \<Rightarrow> component_status \<Rightarrow> component_status" where
  "merge_status existing s =
     (case existing of
        None \<Rightarrow> s
      | Some ex \<Rightarrow> s\<lparr>pid := first_defined (pid s) (pid ex), containerId := first_defined (containerId s) (containerId ex),
          comp_error := first_defined (comp_error s) (comp_error ex), statusDetailStartedAt := statusDetailStartedAt ex,
          startedAt := startedAt ex, comp_url := first_defined (comp_url s) (comp_url ex)\<rparr>)"

definition reportStatus :: "url_parser \<Rightarrow> component_status \<Rightarrow> bench_state \<Rightarrow> bench_state" where
  "reportStatus parse s st =
     (let existing = map_of (bench_components (fst st)) (comp_name s);
          old_url = Option.bind existing comp_url;
          merged = (merge_status existing s)
            \<lparr>comp_url := (if comp_url s = None then old_url else first_defined (normalizeReportedUrl parse (comp_url s)) old_url)\<rparr>;
          b1 = (fst st)\<lparr>bench_components := jput (comp_name s) merged (bench_components (fst st))\<rparr>;
          st1 = (if comp_url merged \<noteq> old_url then persist (b1, snd st) else (b1, snd st))
      in (updateBenchStatus (fst st1), snd st1))"

text \<open>What the events of an engine run do to the bench and the ledger.\<close>

fun engine_effect :: "url_parser \<Rightarrow> engine_event \<Rightarrow> bench_state \<Rightarrow> bench_state" where
  "engine_effect parse (Reported s) st = reportStatus parse s st"
| "engine_effect parse ev st = (fst st, ledger_write ev (snd st))"

subsection \<open>Launching a component\<close>

record provision_env =
  url_parse :: url_parser
  prov_config :: "roubo_config option"
  binding_of :: "string \<Rightarrow> string + string"
  imperative_plugin :: "string \<Rightarrow> bool"
  start_hook :: "string \<Rightarrow> component_status list \<times> string option"
  descriptor_json :: "string \<Rightarrow> string + json"
  host_of :: "string \<Rightarrow> host"
  now_at :: string

definition settle_launch :: "bool \<Rightarrow> string \<Rightarrow> bench_state \<Rightarrow> bench_state" where
  "settle_launch failed name st =
     (let st1 = (case map_of (bench_components (fst st)) name of
          Some c \<Rightarrow> if \<not> failed \<and> \<not> setupComplete c
            then persist (on_component name (\<lambda>c. c\<lparr>setupComplete := True\<rparr>) (fst st), snd st) else st
        | None \<Rightarrow> st)
      in st1)"

text \<open>
  The hook of an imperative plugin pushes statuses and then returns or fails. A push replaces the
  component's entry, so after one the entry the caller still holds, on which it records a failure,
  is no longer the bench's.
\<close>

definition replaced_by :: "component_status list \<Rightarrow> string \<Rightarrow> bool" where
  "replaced_by pushes name = list_ex (\<lambda>s. comp_name s = name) pushes"

definition on_held :: "component_status list \<Rightarrow> string \<Rightarrow> (component_status \<Rightarrow> component_status) \<Rightarrow> bench \<Rightarrow> bench" where
  "on_held pushes name f b = (if replaced_by pushes name then b else on_component name f b)"

definition component_failed :: "bench \<Rightarrow> string \<Rightarrow> bool" where
  "component_failed b name = (case map_of (bench_components b) name of
     Some c \<Rightarrow> comp_status c = Errored | None \<Rightarrow> False)"

definition provisionImperativeComponent :: "provision_env \<Rightarrow> string \<Rightarrow> bench_state \<Rightarrow> bench_state" where
  "provisionImperativeComponent env name st =
     (let (pushes, outcome) = start_hook env name; st1 = fold (reportStatus (url_parse env)) pushes st
      in case outcome of
           Some message \<Rightarrow>
             (updateBenchStatus (on_held pushes name
                (\<lambda>c. c\<lparr>comp_status := Errored, comp_error := Some message\<rparr>) (fst st1)), snd st1)
         | None \<Rightarrow>
             (let failed = component_failed (fst st1) name; st2 = settle_launch failed name st1
              in (updateBenchStatus (on_component name
                    (\<lambda>c. (if failed then c else c\<lparr>statusDetail := None, statusDetailStartedAt := None\<rparr>)\<lparr>startedAt := None\<rparr>)
                    (fst st2)), snd st2)))"

definition lifecycle_of :: "roubo_config \<Rightarrow> string \<Rightarrow> string \<Rightarrow> bench \<Rightarrow> component_status \<Rightarrow> lifecycle_context" where
  "lifecycle_of c pluginId name b s =
     \<lparr>lc_pluginId = pluginId, lc_projectId = bench_project b, lc_benchId = bench_id b, lc_component = name,
      lc_workspace = workspacePath b,
      lc_ports = ctx_ports (buildTemplateContext c (bench_id b) (workspacePath b)), lc_setupComplete = Some (setupComplete s)\<rparr>"

text \<open>A thrown error is \<open>Inl\<close> its message; a launch that returns is \<open>Inr\<close>.\<close>

definition provisionComponent ::
    "provision_env \<Rightarrow> string \<Rightarrow> bench_state \<Rightarrow> (string + unit) \<times> bench_state" where
  "provisionComponent env name st =
     (case binding_of env name of
        Inl message \<Rightarrow> (Inl message, st)
      | Inr pluginId \<Rightarrow>
          (case prov_config env of
             None \<Rightarrow> (Inl ''Project config not found'', st)
           | Some c \<Rightarrow>
               if map_of (cfg_components c) name = None
               then (Inl (''Component '' @ quoted name @ '' not defined''), st)
               else
                 (case map_of (bench_components (fst st)) name of
                    None \<Rightarrow> (Inl (''Component '' @ quoted name @ '' not found in bench''), st)
                  | Some s \<Rightarrow>
                      (let b1 = on_component name (\<lambda>c. c\<lparr>comp_status := Starting, startedAt := Some (now_at env)\<rparr>) (fst st)
                       in if imperative_plugin env pluginId
                          then (Inr (), provisionImperativeComponent env name (b1, snd st))
                          else
                            (case descriptor_json env name of
                               Inl message \<Rightarrow>
                                 (Inr (), (updateBenchStatus (on_component name
                                    (\<lambda>c. c\<lparr>comp_status := Errored, comp_error := Some message\<rparr>) b1), snd st))
                             | Inr raw \<Rightarrow>
                                 (let (es, r) = runDescriptor (host_of env name) (lifecycle_of c pluginId name b1 s) raw;
                                      st1 = fold (engine_effect (url_parse env)) es (b1, snd st);
                                      st2 = settle_launch (result_status r = Errored) name st1
                                  in (Inr (), (updateBenchStatus (on_component name
                                        (\<lambda>c. c\<lparr>statusDetail := None, statusDetailStartedAt := None, startedAt := None\<rparr>)
                                        (fst st2)), snd st2))))))))"

definition launchComponent ::
    "provision_env \<Rightarrow> string \<Rightarrow> bench_state \<Rightarrow> (string + unit) \<times> bench_state" where
  "launchComponent env name st =
     (if name \<in> set PROTOTYPE_POLLUTING_KEYS then (Inl (''Invalid component name '' @ quoted name), st)
      else provisionComponent env name st)"

subsection \<open>Running a start plan\<close>

datatype bench_event = Ran_setup spawn_spec | Launched string

datatype run_outcome = Run_returned | Run_rejected string

text \<open>
  Whether the bench is still in the map when it is asked, the environment of the server, what the
  setup command returns (its exit code and its error stream), and what a launch does. The log
  buffer of the setup command is left out.
\<close>

record run_env =
  live_at :: "string \<Rightarrow> bool"
  live_before_setup :: bool
  live_after_setup :: bool
  server_vars :: "string jmap"
  setup_result :: "spawn_spec \<Rightarrow> int \<times> string"
  launch_of :: "string \<Rightarrow> bench_state \<Rightarrow> (string + unit) \<times> bench_state"

definition set_step :: "string \<Rightarrow> step_status \<Rightarrow> string option \<Rightarrow> bench \<Rightarrow> bench" where
  "set_step name st err b =
     b\<lparr>provisioningSteps := updateStep (provisioningSteps b) (COMPONENT_STEP_PREFIX @ name) st err\<rparr>"

definition fail_component :: "string \<Rightarrow> string \<Rightarrow> bench \<Rightarrow> bench" where
  "fail_component name message = on_component name (\<lambda>c. c\<lparr>comp_status := Errored, comp_error := Some message\<rparr>)"

definition in_flight :: "bench \<Rightarrow> string \<Rightarrow> bool" where
  "in_flight b name = (case map_of (bench_components b) name of
     None \<Rightarrow> False | Some c \<Rightarrow> comp_status c = Starting \<or> comp_status c = Stopping)"

definition settle_idle :: "bench \<Rightarrow> bench" where
  "settle_idle b = updateBenchStatus (b\<lparr>bench_status := Idle\<rparr>)"

definition failed_component :: "bench \<Rightarrow> string \<Rightarrow> component_status option" where
  "failed_component b name = (case map_of (bench_components b) name of
     Some c \<Rightarrow> if comp_status c = Errored then Some c else None | None \<Rightarrow> None)"

definition start_failure :: "string \<Rightarrow> string \<Rightarrow> string" where
  "start_failure name message = ''Component '' @ quoted name @ '' failed to start: '' @ message"

text \<open>
  A name that only \<open>Object.prototype\<close> has reads as an inherited function, which is not a component
  but is not missing either; what is written to its fields is outside the model.
\<close>

fun run_components ::
    "run_env \<Rightarrow> bool \<Rightarrow> string list \<Rightarrow> bench_state \<Rightarrow> run_outcome \<times> bench_event list \<times> bench_state" where
  "run_components env resilient [] (b, file) = (Run_returned, [], (settle_idle b, file))"
| "run_components env resilient (name # rest) (b, file) =
     (if name \<in> set PROTOTYPE_POLLUTING_KEYS
      then (Run_rejected (''Invalid component name '' @ quoted name), [], (b, file))
      else if \<not> live_at env name then (Run_returned, [], (b, file))
      else if js_get (bench_components b) name = Absent
      then (Run_rejected ''TypeError'', [], (set_step name Step_running None b, file))
      else
        (let b1 = on_component name (\<lambda>c. c\<lparr>comp_phases := Some []\<rparr>) (set_step name Step_running None b)
         in case launch_of env name (b1, file) of
              (Inl message, (b2, file2)) \<Rightarrow>
                (let b3 = set_step name Step_error (Some message) b2 in
                 if \<not> resilient
                 then (Run_rejected message, [Launched name],
                       (settle_idle (if in_flight b3 name then fail_component name message b3 else b3), file2))
                 else
                   (let b4 = fail_component name message b3;
                        b5 = b4\<lparr>bench_error := Some (coalesce (bench_error b4) (start_failure name message))\<rparr>;
                        (outcome, events, st) = run_components env resilient rest (b5, file2)
                    in (outcome, Launched name # events, st)))
            | (Inr _, (b2, file2)) \<Rightarrow>
                (case failed_component b2 name of
                   Some c \<Rightarrow>
                     (Run_returned, [Launched name],
                      ((set_step name Step_error (comp_error c) b2)
                         \<lparr>bench_status := Bench_error,
                          bench_error := Some (start_failure name (coalesce (comp_error c) ''unknown error''))\<rparr>, file2))
                 | None \<Rightarrow>
                     (let (outcome, events, st) = run_components env resilient rest (set_step name Step_done None b2, file2)
                      in (outcome, Launched name # events, st)))))"

definition set_setup_step :: "step_status \<Rightarrow> string option \<Rightarrow> bench \<Rightarrow> bench" where
  "set_setup_step st err b = b\<lparr>provisioningSteps := updateStep (provisioningSteps b) ''bench-setup'' st err\<rparr>"

definition setup_failure :: "int \<Rightarrow> string \<Rightarrow> string" where
  "setup_failure code stderr =
     (if stderr \<noteq> [] then stderr else ''Bench setup failed with exit code '' @ int_str code)"

definition setup_spawn :: "string jmap \<Rightarrow> roubo_config \<Rightarrow> string + spawn_spec" where
  "setup_spawn vars c =
     (let command = coalesce (setup_command (benches_cfg c)) []
      in case setup_shell (benches_cfg c) of
           None \<Rightarrow> Inr \<lparr>spawn_file = getLoginShell vars, spawn_args = loginShellScriptArgs vars command\<rparr>
         | Some sh \<Rightarrow> resolveSpawn command (Some sh))"

definition runComponentsInOrder ::
    "run_env \<Rightarrow> bench_state \<Rightarrow> string list \<Rightarrow> roubo_config \<Rightarrow> bool
      \<Rightarrow> run_outcome \<times> bench_event list \<times> bench_state" where
  "runComponentsInOrder env st ord c resilient =
     (if truthy (setup_command (benches_cfg c)) \<and> hasStep (provisioningSteps (fst st)) ''bench-setup''
      then
        (if \<not> live_before_setup env then (Run_returned, [], st)
         else
           (let b1 = set_setup_step Step_running None (fst st) in
            case setup_spawn (server_vars env) c of
              Inl message \<Rightarrow> (Run_rejected message, [], (b1, snd st))
            | Inr spawn \<Rightarrow>
                (let (code, stderr) = setup_result env spawn in
                 if code \<noteq> 0 then
                   (Run_returned, [Ran_setup spawn],
                    ((set_setup_step Step_error (Some (setup_failure code stderr)) b1)
                       \<lparr>bench_status := Bench_error,
                        bench_error := Some (''Bench setup failed: '' @ setup_failure code stderr)\<rparr>, snd st))
                 else
                   (let b2 = set_setup_step Step_done None b1 in
                    if \<not> live_after_setup env then (Run_returned, [Ran_setup spawn], (b2, snd st))
                    else
                      (let (outcome, events, st') =
                         run_components env resilient ord (persist (b2\<lparr>benchSetupComplete := Some True\<rparr>, snd st))
                       in (outcome, Ran_setup spawn # events, st'))))))
      else run_components env resilient ord st)"

definition benchNotOperableMessage :: "string option \<Rightarrow> string" where
  "benchNotOperableMessage act =
     (if truthy act then ''Bench has no valid workspace path and cannot '' @ the act @ ''; clear it instead.''
      else ''Bench has no valid workspace path; clear it instead.'')"

text \<open>The background task of a bench-level Start turns a rejection into a bench error.\<close>

definition runStartAllBackground ::
    "run_env \<Rightarrow> bench_state \<Rightarrow> string list \<Rightarrow> roubo_config \<Rightarrow> bench_event list \<times> bench_state" where
  "runStartAllBackground env st ord c =
     (case runComponentsInOrder env st ord c True of
        (Run_returned, events, st') \<Rightarrow> (events, st')
      | (Run_rejected message, events, st') \<Rightarrow> (events, (markBackgroundError message (fst st'), snd st')))"

definition start_plan :: "roubo_config \<Rightarrow> string list \<Rightarrow> bench \<Rightarrow> bench" where
  "start_plan c ord b =
     b\<lparr>provisioningSteps := makeStartProvisioningSteps c ord (benchSetupComplete b = Some True),
       bench_status := Preparing, bench_error := None\<rparr>"

definition startAllComponents ::
    "run_env \<Rightarrow> registered_project option \<Rightarrow> bench option \<Rightarrow> persisted_state option
      \<Rightarrow> bench_failure + bench_event list \<times> bench_state" where
  "startAllComponents env project found file =
     (case found of
        None \<Rightarrow> fail NOT_FOUND ''Bench not found''
      | Some b \<Rightarrow>
          (case Option.bind project config of
             None \<Rightarrow> fail PROJECT_NOT_FOUND ''Project config not found''
           | Some c \<Rightarrow>
               if \<not> isBenchOperable b then fail INVALID_STATE (benchNotOperableMessage (Some ''be started''))
               else (case getComponentOrder (cfg_components c) of
                       Inl name \<Rightarrow> fail DEPENDENCY_CYCLE (''Circular dependency detected in dependsOn: component '' @ quoted name
                         @ '' depends on itself through a cycle'')
                     | Inr ord \<Rightarrow> Inr (runStartAllBackground env (start_plan c ord b, file) ord c))))"

definition startComponent ::
    "run_env \<Rightarrow> registered_project option \<Rightarrow> bench option \<Rightarrow> persisted_state option \<Rightarrow> string
      \<Rightarrow> bench_failure + run_outcome \<times> bench_event list \<times> bench_state" where
  "startComponent env project found file name =
     (if name \<in> set PROTOTYPE_POLLUTING_KEYS then fail INVALID_COMPONENT (''Invalid component name '' @ quoted name)
      else case found of
        None \<Rightarrow> fail NOT_FOUND ''Bench not found''
      | Some b \<Rightarrow>
          (case Option.bind project config of
             None \<Rightarrow> fail PROJECT_NOT_FOUND ''Project config not found''
           | Some c \<Rightarrow>
               if \<not> isBenchOperable b then fail INVALID_STATE (benchNotOperableMessage (Some ''be started''))
               else if js_get (cfg_components c) name = Absent
               then fail COMPONENT_NOT_FOUND (''Component '' @ quoted name @ '' not defined'')
               else if js_get (bench_components b) name = Absent
               then fail COMPONENT_NOT_FOUND (''Component '' @ quoted name @ '' not found in bench'')
               else Inr (runComponentsInOrder env
                   (b\<lparr>provisioningSteps := makeComponentOnlyProvisioningSteps [name], bench_status := Preparing,
                      bench_error := None\<rparr>, file) [name] c False)))"

subsection \<open>Runs of a plan\<close>

definition launched :: "bench_event list \<Rightarrow> string list" where
  "launched es = List.map_filter (\<lambda>e. case e of Launched n \<Rightarrow> Some n | Ran_setup s \<Rightarrow> None) es"

lemma launched_simps [simp]: "launched [] = []" "launched (Launched n # es) = n # launched es"
  "launched (Ran_setup s # es) = launched es"
  by (simp_all add: launched_def List.map_filter_simps)

lemma run_components_Cons:
  assumes "run_components env r (name # rest) (b, file) = (outcome, es, st)"
  shows "es = [] \<or> es = [Launched name]
    \<or> (\<exists>st1 es'. run_components env r rest st1 = (outcome, es', st) \<and> es = Launched name # es')"
  using assms by (simp add: Let_def split: if_splits prod.splits sum.splits option.splits) blast+

lemma run_components_prefix:
  "run_components env r ord st0 = (outcome, es, st) \<Longrightarrow> (\<exists>rest. ord = launched es @ rest) \<and> es = map Launched (launched es)"
proof (induction ord arbitrary: st0 es)
  case Nil
  then show ?case by (cases st0) simp
next
  case (Cons name rest)
  obtain b file0 where st0: "st0 = (b, file0)" by (cases st0)
  from run_components_Cons [OF Cons.prems [unfolded st0]] Cons.IH show ?case by fastforce
qed

lemma run_components_stop:
  assumes "run_components env r (name # rest) (b, file) = (outcome, es, st)" and "\<forall>n. live_at env n"
  shows "(\<exists>m. outcome = Run_rejected m)
    \<or> (bench_status (fst st) = Bench_error \<and> (\<exists>m. bench_error (fst st) = Some (start_failure name m)))
    \<or> (\<exists>st1 es'. run_components env r rest st1 = (outcome, es', st) \<and> es = Launched name # es')"
  using assms by (simp add: Let_def split: if_splits prod.splits sum.splits option.splits) force+

lemma settle_idle_status: "bench_status (settle_idle b) \<in> {Active, Idle, Bench_error}"
  by (simp add: settle_idle_def updateBenchStatus_def Let_def)

lemma run_components_settles:
  "run_components env r ord st0 = (Run_returned, es, st) \<Longrightarrow> \<forall>n. live_at env n \<Longrightarrow>
    bench_status (fst st) \<in> {Active, Idle, Bench_error}
    \<and> (launched es \<noteq> ord \<longrightarrow> bench_status (fst st) = Bench_error \<and> bench_error (fst st) \<noteq> None)"
proof (induction ord arbitrary: st0 es)
  case Nil
  then show ?case using settle_idle_status [of "fst st0"] by (cases st0) auto
next
  case (Cons name rest)
  obtain b file0 where st0: "st0 = (b, file0)" by (cases st0)
  from run_components_stop [OF Cons.prems(1) [unfolded st0] Cons.prems(2)] Cons.IH Cons.prems(2)
  show ?case by fastforce
qed

subsection \<open>No step is left running\<close>

text \<open>Steps of which none is running; the operations between two launches keep it so.\<close>

definition none_running :: "provisioning_step list \<Rightarrow> bool" where
  "none_running ss \<longleftrightarrow> (\<forall>s \<in> set ss. pstep_status s \<noteq> Step_running)"

lemma none_running_settled: "none_running ss \<Longrightarrow> s \<noteq> Step_running \<Longrightarrow>
    none_running (updateStep (updateStep ss i Step_running None) i s e)"
  by (induction ss) (auto simp: none_running_def split: option.splits)

lemma none_running_marked: "none_running ss \<Longrightarrow> none_running (mark_running_step m (updateStep ss i Step_running None))"
  by (induction ss) (auto simp: none_running_def)

lemma none_running_mark: "none_running ss \<Longrightarrow> mark_running_step m ss = ss"
  by (induction ss) (auto simp: none_running_def)

text \<open>What a launch does to the bench leaves the provisioning steps alone.\<close>

lemma steps_kept [simp]:
  "provisioningSteps (updateBenchStatus b) = provisioningSteps b"
  "provisioningSteps (on_component n f b) = provisioningSteps b"
  "provisioningSteps (on_held ps n f b) = provisioningSteps b"
  "provisioningSteps (settle_idle b) = provisioningSteps b"
  "provisioningSteps (fail_component n m b) = provisioningSteps b"
  "provisioningSteps (fst (persist st)) = provisioningSteps (fst st)"
  "provisioningSteps (set_step n s e b) = updateStep (provisioningSteps b) (COMPONENT_STEP_PREFIX @ n) s e"
  by (simp_all add: updateBenchStatus_def on_component_def on_held_def settle_idle_def fail_component_def
      persist_def set_step_def Let_def)

lemma steps_reported [simp]: "provisioningSteps (fst (reportStatus p s st)) = provisioningSteps (fst st)"
  by (simp add: reportStatus_def Let_def)

lemma steps_pushed [simp]: "provisioningSteps (fst (fold (reportStatus p) ss st)) = provisioningSteps (fst st)"
  by (induction ss arbitrary: st) simp_all

lemma steps_engine [simp]: "provisioningSteps (fst (fold (engine_effect p) es st)) = provisioningSteps (fst st)"
proof (induction es arbitrary: st)
  case (Cons ev es)
  then show ?case by (cases ev) simp_all
qed simp

lemma steps_settled [simp]: "provisioningSteps (fst (settle_launch failed n st)) = provisioningSteps (fst st)"
  by (simp add: settle_launch_def Let_def split: option.split)

lemma steps_launch: "provisioningSteps (fst (snd (launchComponent env n st))) = provisioningSteps (fst st)"
  by (simp add: launchComponent_def provisionComponent_def provisionImperativeComponent_def Let_def case_prod_unfold
      split: sum.split option.split)

definition keeps_steps :: "run_env \<Rightarrow> bool" where
  "keeps_steps env \<longleftrightarrow> (\<forall>n st. provisioningSteps (fst (snd (launch_of env n st))) = provisioningSteps (fst st))"

text \<open>A rejection may leave one step running, which the background task then marks.\<close>

definition run_clean :: "run_outcome \<Rightarrow> provisioning_step list \<Rightarrow> bool" where
  "run_clean outcome ss \<longleftrightarrow> (case outcome of Run_returned \<Rightarrow> none_running ss
     | Run_rejected m \<Rightarrow> none_running (mark_running_step m ss))"

lemma run_clean_if: "none_running ss \<Longrightarrow> run_clean outcome ss"
  by (cases outcome) (simp_all add: run_clean_def none_running_mark)

lemma run_components_clean:
  "run_components env r ord st0 = (outcome, es, st) \<Longrightarrow> keeps_steps env \<Longrightarrow> none_running (provisioningSteps (fst st0)) \<Longrightarrow>
    run_clean outcome (provisioningSteps (fst st))"
proof (induction ord arbitrary: st0 es)
  case Nil
  then show ?case by (cases st0) (auto simp: run_clean_def)
next
  case (Cons name rest)
  obtain b file0 where st0: "st0 = (b, file0)" by (cases st0)
  let ?b1 = "on_component name (\<lambda>c. c\<lparr>comp_phases := Some []\<rparr>) (set_step name Step_running None b)"
  obtain res b2 file2 where l: "launch_of env name (?b1, file0) = (res, (b2, file2))"
    by (metis prod.collapse)
  have b: "none_running (provisioningSteps b)" using Cons.prems(3) st0 by simp
  have "provisioningSteps b2 = provisioningSteps ?b1"
    using Cons.prems(2) l unfolding keeps_steps_def by (metis fst_conv snd_conv)
  then have b2: "provisioningSteps b2 = updateStep (provisioningSteps b) (COMPONENT_STEP_PREFIX @ name) Step_running None"
    by simp
  have ok: "none_running (updateStep (provisioningSteps b2) (COMPONENT_STEP_PREFIX @ name) s e)" if "s \<noteq> Step_running" for s e
    unfolding b2 using none_running_settled [OF b that] .
  show ?case
  proof (cases "name \<in> set PROTOTYPE_POLLUTING_KEYS \<or> \<not> live_at env name \<or> js_get (bench_components b) name = Absent")
    case True
    with Cons.prems(1) st0 b show ?thesis
      by (auto simp: run_clean_if none_running_marked none_running_mark run_clean_def split: if_splits)
  next
    case go: False
    show ?thesis
    proof (cases res)
      case (Inl m)
      with go l Cons.prems(1) Cons.prems(2) Cons.IH ok show ?thesis
        by (auto simp: st0 Let_def run_clean_if split: if_splits prod.splits)
    next
      case (Inr u)
      with go l Cons.prems(1) Cons.prems(2) Cons.IH ok show ?thesis
        by (auto simp: st0 Let_def run_clean_if split: prod.splits option.splits)
    qed
  qed
qed

lemma markBackgroundError_steps:
  "provisioningSteps (markBackgroundError m b) = mark_running_step m (provisioningSteps b)"
  by (simp add: markBackgroundError_def)

lemma set_setup_step_steps [simp]:
  "provisioningSteps (set_setup_step s e b) = updateStep (provisioningSteps b) ''bench-setup'' s e"
  by (simp add: set_setup_step_def)

lemma runComponentsInOrder_clean:
  assumes "runComponentsInOrder env st0 ord c r = (outcome, es, st)" and "keeps_steps env"
    and b: "none_running (provisioningSteps (fst st0))"
  shows "run_clean outcome (provisioningSteps (fst st))"
proof -
  have ok: "none_running (updateStep (updateStep (provisioningSteps (fst st0)) ''bench-setup'' Step_running None) ''bench-setup'' s e)"
    if "s \<noteq> Step_running" for s e
    using none_running_settled [OF b that] .
  show ?thesis using assms(1) run_components_clean [OF _ assms(2)] b ok
    by (auto simp: runComponentsInOrder_def Let_def run_clean_if run_clean_def none_running_marked
        split: if_splits prod.splits sum.splits)
qed

lemma runComponentsInOrder_cases:
  assumes "runComponentsInOrder env st0 ord c r = (outcome, es, st)"
  obtains (run) st1 es' where "run_components env r ord st1 = (outcome, es', st)" "es = es' \<or> (\<exists>s. es = Ran_setup s # es')"
  | (stop) "es = [] \<or> (\<exists>s. es = [Ran_setup s])" "(\<exists>m. outcome = Run_rejected m) \<or> \<not> live_before_setup env \<or> \<not> live_after_setup env
      \<or> bench_status (fst st) = Bench_error \<and> bench_error (fst st) \<noteq> None"
proof (cases "truthy (setup_command (benches_cfg c)) \<and> hasStep (provisioningSteps (fst st0)) ''bench-setup'' \<and> live_before_setup env")
  case True
  let ?b1 = "set_setup_step Step_running None (fst st0)"
  show thesis
  proof (cases "setup_spawn (server_vars env) c")
    case (Inl m)
    with True assms show thesis by (intro stop) (auto simp: runComponentsInOrder_def Let_def)
  next
    case (Inr s)
    obtain code err where res: "setup_result env s = (code, err)" by (cases "setup_result env s")
    show thesis
    proof (cases "code = 0 \<and> live_after_setup env")
      case True
      obtain outcome' es' st' where rc: "run_components env r ord
          (persist ((set_setup_step Step_done None ?b1)\<lparr>benchSetupComplete := Some True\<rparr>, snd st0)) = (outcome', es', st')"
        by (metis prod.collapse)
      with True assms Inr res \<open>_ \<and> _ \<and> live_before_setup env\<close>
      have "outcome' = outcome" "st' = st" "es = Ran_setup s # es'" by (simp_all add: runComponentsInOrder_def Let_def)
      with rc show thesis by (intro run) auto
    next
      case False
      with assms Inr res \<open>_ \<and> _ \<and> live_before_setup env\<close> show thesis
        by (intro stop) (auto simp: runComponentsInOrder_def Let_def split: if_splits)
    qed
  qed
next
  case False
  show thesis
  proof (cases "truthy (setup_command (benches_cfg c)) \<and> hasStep (provisioningSteps (fst st0)) ''bench-setup''")
    case True
    with False assms show thesis by (intro stop) (auto simp: runComponentsInOrder_def)
  next
    case False
    with assms show thesis by (intro run [of st0 es]) (simp_all add: runComponentsInOrder_def)
  qed
qed

lemma runComponentsInOrder_settles:
  assumes "runComponentsInOrder env st0 ord c r = (Run_returned, es, st)"
    and "\<forall>n. live_at env n" and "live_before_setup env" and "live_after_setup env"
  shows "bench_status (fst st) \<in> {Active, Idle, Bench_error}
    \<and> (launched es \<noteq> ord \<longrightarrow> bench_status (fst st) = Bench_error \<and> bench_error (fst st) \<noteq> None)"
  using assms(1)
proof (cases rule: runComponentsInOrder_cases)
  case (run st1 es')
  then have "launched es = launched es'" by auto
  with run_components_settles [OF run(1) assms(2)] show ?thesis by simp
next
  case stop
  with assms(3,4) show ?thesis by auto
qed

lemma runComponentsInOrder_prefix:
  assumes "runComponentsInOrder env st0 ord c r = (outcome, es, st)"
  shows "(\<exists>rest. ord = launched es @ rest)
    \<and> (es = map Launched (launched es) \<or> (\<exists>s. es = Ran_setup s # map Launched (launched es)))"
  using assms
proof (cases rule: runComponentsInOrder_cases)
  case (run st1 es')
  with run_components_prefix [OF run(1)] show ?thesis by auto
next
  case stop
  then show ?thesis by auto
qed

lemma startAll_Inr:
  assumes "startAllComponents env project found file = Inr (es, st)"
  obtains b c ord outcome st' where "found = Some b" "Option.bind project config = Some c"
    "getComponentOrder (cfg_components c) = Inr ord"
    "runComponentsInOrder env (start_plan c ord b, file) ord c True = (outcome, es, st')"
    "st = (case outcome of Run_returned \<Rightarrow> st' | Run_rejected m \<Rightarrow> (markBackgroundError m (fst st'), snd st'))"
proof -
  obtain b where b: "found = Some b" using assms by (cases found) (auto simp: startAllComponents_def)
  obtain c where c: "Option.bind project config = Some c"
    using assms by (cases "Option.bind project config") (auto simp: startAllComponents_def b)
  obtain ord where o: "getComponentOrder (cfg_components c) = Inr ord"
    using assms by (cases "getComponentOrder (cfg_components c)")
      (auto simp: startAllComponents_def b c split: if_splits)
  obtain outcome es' st' where r: "runComponentsInOrder env (start_plan c ord b, file) ord c True = (outcome, es', st')"
    by (metis prod.collapse)
  have "es' = es" "st = (case outcome of Run_returned \<Rightarrow> st' | Run_rejected m \<Rightarrow> (markBackgroundError m (fst st'), snd st'))"
    using assms r by (cases outcome; simp add: startAllComponents_def b c o runStartAllBackground_def split: if_splits)+
  with that b c o r show thesis by blast
qed

lemma start_plan_none_running: "none_running (provisioningSteps (start_plan c ord b))"
  by (auto simp: start_plan_def makeStartProvisioningSteps_def makeComponentOnlyProvisioningSteps_def pending_step_def
      none_running_def)

subsection \<open>What a launch leaves behind\<close>

lemma merged_status: "comp_status (merge_status ex s) = comp_status s"
  by (simp add: merge_status_def split: option.split)

lemma comps_status [simp]: "bench_components (updateBenchStatus b) = bench_components b"
  by (simp add: updateBenchStatus_def Let_def)

lemma comps_persist [simp]: "bench_components (fst (persist st)) = bench_components (fst st)"
  by (simp add: persist_def)

lemma on_component_get: "map_of (bench_components (on_component n f b)) k =
    (if k = n then map_option f (map_of (bench_components b) k) else map_of (bench_components b) k)"
  by (simp add: on_component_def map_of_jupd)

lemma reportStatus_get:
  "\<exists>c. map_of (bench_components (fst (reportStatus p s st))) (comp_name s) = Some c \<and> comp_status c = comp_status s"
  by (simp add: reportStatus_def Let_def merged_status)

lemma settle_launch_get: "map_of (bench_components (fst (settle_launch failed n st))) n =
    map_option (\<lambda>c. if \<not> failed then c\<lparr>setupComplete := True\<rparr> else c) (map_of (bench_components (fst st)) n)"
  by (auto simp: settle_launch_def Let_def on_component_get split: option.split)

lemma engine_run_status:
  assumes "runDescriptor h ctx raw = (es, r)"
  shows "\<exists>c. map_of (bench_components (fst (fold (engine_effect p) es st))) (lc_component ctx) = Some c
    \<and> comp_status c = result_status r"
proof -
  from runDescriptor_ends [of h ctx raw] assms obtain xs s where
    es: "es = xs @ [Reported s]" "comp_name s = lc_component ctx" "comp_status s = result_status r" by auto
  show ?thesis using reportStatus_get [of p s "fold (engine_effect p) xs st"] by (simp add: es(1) flip: es(2,3))
qed

text \<open>
  A component with a declarative plugin, once launched: in one of the three final states, with no
  progress detail left, and with its setup done unless it failed.
\<close>

lemma declarative_launch:
  assumes "provisionComponent env name st = (Inr (), st')"
    and "binding_of env name = Inr pluginId" and "\<not> imperative_plugin env pluginId"
  shows "\<exists>c. map_of (bench_components (fst st')) name = Some c \<and> comp_status c \<in> {Running, Completed, Errored}
    \<and> (comp_status c \<noteq> Errored \<longrightarrow> setupComplete c \<and> statusDetail c = None \<and> startedAt c = None)"
proof -
  obtain c where c: "prov_config env = Some c"
    using assms(1,2) by (cases "prov_config env") (auto simp: provisionComponent_def)
  then obtain cc where cc: "map_of (cfg_components c) name = Some cc"
    using assms(1,2) by (cases "map_of (cfg_components c) name") (auto simp: provisionComponent_def)
  then obtain s where s: "map_of (bench_components (fst st)) name = Some s"
    using assms(1,2) c by (cases "map_of (bench_components (fst st)) name") (auto simp: provisionComponent_def)
  let ?b1 = "on_component name (\<lambda>c. c\<lparr>comp_status := Starting, startedAt := Some (now_at env)\<rparr>) (fst st)"
  show ?thesis
  proof (cases "descriptor_json env name")
    case (Inl m)
    with assms c cc s show ?thesis by (auto simp: provisionComponent_def Let_def on_component_get)
  next
    case (Inr raw)
    obtain es r where er: "runDescriptor (host_of env name) (lifecycle_of c pluginId name ?b1 s) raw = (es, r)"
      by (metis prod.collapse)
    let ?st1 = "fold (engine_effect (url_parse env)) es (?b1, snd st)"
    have st': "fst st' = updateBenchStatus (on_component name
        (\<lambda>c. c\<lparr>statusDetail := None, statusDetailStartedAt := None, startedAt := None\<rparr>)
        (fst (settle_launch (result_status r = Errored) name ?st1)))"
      using assms c cc s Inr er by (auto simp: provisionComponent_def Let_def)
    have "lc_component (lifecycle_of c pluginId name ?b1 s) = name" by (simp add: lifecycle_of_def)
    with engine_run_status [OF er, of "url_parse env" "(?b1, snd st)"] obtain d where
      d: "map_of (bench_components (fst ?st1)) name = Some d" "comp_status d = result_status r" by auto
    moreover have "result_status r \<in> {Running, Completed, Errored}"
      using runDescriptor_ends [of "host_of env name" "lifecycle_of c pluginId name ?b1 s" raw] er by simp
    ultimately show ?thesis unfolding st' by (auto simp: on_component_get settle_launch_get)
  qed
qed

subsection \<open>Properties\<close>


definition sample_provision :: provision_env where
  "sample_provision = \<lparr>url_parse = sample_parser, prov_config = Some web_config, binding_of = (\<lambda>n. Inr ''process''),
     imperative_plugin = (\<lambda>p. False), start_hook = (\<lambda>n. ([], None)), descriptor_json = (\<lambda>n. Inr sample_descriptor),
     host_of = (\<lambda>n. sample_host), now_at = ''now''\<rparr>"

definition sample_run_env :: run_env where
  "sample_run_env = \<lparr>live_at = (\<lambda>n. True), live_before_setup = True, live_after_setup = True, server_vars = [],
     setup_result = (\<lambda>s. (0, [])), launch_of = launchComponent sample_provision\<rparr>"

lemma sample_start: "\<exists>es st. startAllComponents sample_run_env (Some (sample_project ''a'' web_config)) (Some sample_bench) None
    = Inr (es, st)"
proof -
  have "isBenchOperable sample_bench"
    by (simp add: isBenchOperable_def sample_bench_def safe_workspace_path_def starts_with_def is_word_char_def)
  moreover have "getComponentOrder (cfg_components web_config) = Inr [''web'']"
    by (simp add: getComponentOrder_def web_config_def)
  ultimately show ?thesis
    by (cases "runStartAllBackground sample_run_env (start_plan web_config [''web''] sample_bench, None) [''web''] web_config")
      (simp add: startAllComponents_def sample_project_def)
qed


text \<open>
  C1. A bench-level start of a bench that is not cleared meanwhile always ends: the bench leaves
  \<open>preparing\<close> for active, idle or error, no provisioning step is left running, and when a component
  of the plan was not launched the bench is in error with a message.
\<close>

theorem start_settles:
  assumes "startAllComponents env project (Some b) file = Inr (es, st)"
    and "launch_of env = launchComponent penv"
    and "\<forall>n. live_at env n" and "live_before_setup env" and "live_after_setup env"
    and "Option.bind project config = Some c" and "getComponentOrder (cfg_components c) = Inr ord"
  shows "bench_status (fst st) \<in> {Active, Idle, Bench_error}
    \<and> none_running (provisioningSteps (fst st))
    \<and> (launched es \<noteq> ord \<longrightarrow> bench_status (fst st) = Bench_error \<and> bench_error (fst st) \<noteq> None)"
proof -
  from startAll_Inr [OF assms(1)] assms(6,7) obtain outcome st' where
    r: "runComponentsInOrder env (start_plan c ord b, file) ord c True = (outcome, es, st')"
    and st: "st = (case outcome of Run_returned \<Rightarrow> st' | Run_rejected m \<Rightarrow> (markBackgroundError m (fst st'), snd st'))"
    by (metis option.sel sum.sel(2))
  have "keeps_steps env" using assms(2) by (simp add: keeps_steps_def steps_launch)
  from runComponentsInOrder_clean [OF r this] start_plan_none_running
  have clean: "run_clean outcome (provisioningSteps (fst st'))" by simp
  show ?thesis
  proof (cases outcome)
    case Run_returned
    with runComponentsInOrder_settles [OF _ assms(3-5)] r clean st show ?thesis by (auto simp: run_clean_def)
  next
    case (Run_rejected m)
    with st clean show ?thesis
      by (simp add: run_clean_def markBackgroundError_steps) (simp add: markBackgroundError_def)
  qed
qed

theorem start_settles_witness:
  "\<exists>es st. startAllComponents sample_run_env (Some (sample_project ''a'' web_config)) (Some sample_bench) None = Inr (es, st)
     \<and> bench_status (fst st) \<noteq> Preparing"
proof -
  obtain es st where r: "startAllComponents sample_run_env (Some (sample_project ''a'' web_config)) (Some sample_bench) None
      = Inr (es, st)" using sample_start by blast
  have "getComponentOrder (cfg_components web_config) = Inr [''web'']"
    by (simp add: getComponentOrder_def web_config_def)
  from start_settles [OF r _ _ _ _ _ this, of sample_provision] r show ?thesis
    by (force simp: sample_run_env_def sample_project_def)
qed

text \<open>
  A launch through a declarative plugin that returns leaves the component running, completed or in error,
  and unless it is in error its setup is marked done and no progress detail or start time stays.
\<close>

theorem launch_leaves_a_final_state:
  assumes "launchComponent env name st = (Inr (), st')"
    and "binding_of env name = Inr pluginId" and "\<not> imperative_plugin env pluginId"
  shows "\<exists>c. map_of (bench_components (fst st')) name = Some c \<and> comp_status c \<in> {Running, Completed, Errored}
    \<and> (comp_status c \<noteq> Errored \<longrightarrow> setupComplete c \<and> statusDetail c = None \<and> startedAt c = None)
    \<and> provisioningSteps (fst st') = provisioningSteps (fst st)"
proof -
  have "provisionComponent env name st = (Inr (), st')"
    using assms(1) by (simp add: launchComponent_def split: if_splits)
  from declarative_launch [OF this assms(2,3)] steps_launch [of env name st] assms(1) show ?thesis by simp
qed

theorem launch_leaves_a_final_state_witness:
  "\<exists>st'. launchComponent sample_provision ''web'' (sample_bench, None) = (Inr (), st')
     \<and> map_of (bench_components (fst st')) ''web'' \<noteq> None"
proof -
  obtain st' where r: "launchComponent sample_provision ''web'' (sample_bench, None) = (Inr (), st')"
    by (simp add: launchComponent_def provisionComponent_def sample_provision_def PROTOTYPE_POLLUTING_KEYS_def
        web_config_def sample_bench_def Let_def case_prod_unfold)
  from launch_leaves_a_final_state [OF r, of "''process''"] r show ?thesis
    by (auto simp: sample_provision_def)
qed

end
