(* ===== verification/BenchStop.thy ===== *)
theory BenchStop
  imports BenchRun
begin

section \<open>Stopping and clearing a bench\<close>

text \<open>
  The other half of the flows of \<open>server/services/bench-manager.ts\<close>: the stop of one component and of
  all of them, the removal of a worktree, the teardown of a bench (Clear), and what a forced
  unregister of a project does. Host calls are events in the order they are made; what they answer,
  the plugin a component is bound to and the descriptor it emitted are parameters. Stopping a process
  never fails, and neither does stopping or downing a compose project, because \<open>docker.ts\<close> does not
  look at docker's exit code (\<open>down_outcome\<close>).
\<close>

datatype stop_event =
    Announced string component_state
  | Called_hook string string
  | Ran_docker docker_command
  | Stopped_process string

record stop_env =
  bound_to :: "string \<Rightarrow> string + string"
  is_imperative :: "string \<Rightarrow> bool"
  hook_pushes :: "string \<Rightarrow> component_status list"
  descriptor_of :: "string \<Rightarrow> provision_descriptor option"
  url_parse_of :: url_parser

definition LIVE_COMPONENT_STATUSES :: "component_state list" where
  "LIVE_COMPONENT_STATUSES = [Running, Starting, Stopping]"

definition bound_plugin :: "stop_env \<Rightarrow> string \<Rightarrow> string option" where
  "bound_plugin env name = (case bound_to env name of Inr p \<Rightarrow> Some p | Inl m \<Rightarrow> None)"

definition benchHasLiveComponentOnPlugin :: "stop_env \<Rightarrow> bench \<Rightarrow> string \<Rightarrow> string \<Rightarrow> bool" where
  "benchHasLiveComponentOnPlugin env b pluginId excludeName =
     list_ex (\<lambda>(name, c). name \<noteq> excludeName \<and> comp_status c \<in> set LIVE_COMPONENT_STATUSES
       \<and> bound_plugin env name = Some pluginId) (bench_components b)"

definition stopped_status :: "component_status \<Rightarrow> component_status" where
  "stopped_status c = c\<lparr>comp_status := Stopped, pid := None, containerId := None, comp_error := None,
     statusDetail := None, statusDetailStartedAt := None, startedAt := None\<rparr>"

definition engine_process_id :: "string \<Rightarrow> int \<Rightarrow> string \<Rightarrow> string" where
  "engine_process_id pluginId benchId name = pluginId @ '':'' @ int_str benchId @ '':'' @ name"

definition has_assigned :: "bench \<Rightarrow> string \<Rightarrow> bool" where
  "has_assigned b name = (case assignedContainers b of None \<Rightarrow> False | Some m \<Rightarrow> js_get m name \<noteq> Absent)"

definition docker_of :: "provision_descriptor option \<Rightarrow> docker_descriptor option" where
  "docker_of d = (case d of Some (Docker dd) \<Rightarrow> Some dd | _ \<Rightarrow> None)"

subsection \<open>Stopping a component\<close>

definition sibling_still_live :: "stop_env \<Rightarrow> bench \<Rightarrow> string \<Rightarrow> string \<Rightarrow> bool" where
  "sibling_still_live env b pluginId componentName =
     list_ex (\<lambda>(name, c). name \<noteq> componentName \<and> comp_status c \<noteq> Stopped
       \<and> bound_plugin env name = Some pluginId) (bench_components b)"

text \<open>The hooks run, and what they push arrives, before the ledger is looked at.\<close>

definition stopImperativeComponent ::
    "stop_env \<Rightarrow> string \<Rightarrow> string \<Rightarrow> bench_state \<Rightarrow> stop_event list \<times> bench_state" where
  "stopImperativeComponent env name pluginId st =
     (let st1 = fold (reportStatus (url_parse_of env)) (hook_pushes env name) st;
          ledger1 = (if sibling_still_live env (fst st1) pluginId name then snd st1
                     else clearEntry pluginId (bench_id (fst st1)) (snd st1))
      in ([Called_hook pluginId ''stop'', Called_hook pluginId ''cleanup''], (fst st1, ledger1)))"

definition release_rows :: "string \<Rightarrow> int \<Rightarrow> string \<Rightarrow> persisted_state option \<Rightarrow> persisted_state option" where
  "release_rows pluginId benchId name ledger =
     (let base = engine_process_id pluginId benchId name
      in removeProcess pluginId benchId (base @ '':setup'')
           (removeProcess pluginId benchId (base @ '':migration'') (removeProcess pluginId benchId base ledger)))"

definition stop_declarative ::
    "stop_env \<Rightarrow> string \<Rightarrow> bench_state \<Rightarrow> stop_event list \<times> bench_state" where
  "stop_declarative env name st =
     (let b = fst st;
          dd = (if has_assigned b name then None else docker_of (descriptor_of env name));
          project = getComposeProjectName (bench_project b) (bench_id b);
          docker_events = (case dd of None \<Rightarrow> []
            | Some d \<Rightarrow> [Ran_docker (composeStop project (composeFile d) (workspacePath b) (Some (service d)))]);
          process_events = (case bound_plugin env name of None \<Rightarrow> []
            | Some p \<Rightarrow> [Stopped_process (engine_process_id p (bench_id b) name)])
            @ [Stopped_process (processId (bench_project b) (bench_id b) name)];
          b1 = on_component name stopped_status b;
          ledger1 = (case bound_plugin env name of None \<Rightarrow> snd st
            | Some p \<Rightarrow>
                (let l = release_rows p (bench_id b) name (snd st)
                 in if dd \<noteq> None \<and> \<not> benchHasLiveComponentOnPlugin env b1 p name
                    then removeComposeProject p (bench_id b) project l else l))
      in (docker_events @ process_events @ [Announced name Stopped], (updateBenchStatus b1, ledger1)))"

definition stopComponent ::
    "stop_env \<Rightarrow> bench option \<Rightarrow> persisted_state option \<Rightarrow> string
      \<Rightarrow> bench_failure + stop_event list \<times> bench_state" where
  "stopComponent env found file name =
     (if name \<in> set PROTOTYPE_POLLUTING_KEYS then fail INVALID_COMPONENT (''Invalid component name '' @ quoted name)
      else case found of
        None \<Rightarrow> fail NOT_FOUND ''Bench not found''
      | Some b \<Rightarrow>
          if js_get (bench_components b) name = Absent
          then fail COMPONENT_NOT_FOUND (''Component '' @ quoted name @ '' not found'')
          else
            (let b1 = on_component name (\<lambda>c. c\<lparr>comp_status := Stopping\<rparr>) b
             in case bound_plugin env name of
                  Some p \<Rightarrow>
                    if is_imperative env p
                    then (let (es, st1) = stopImperativeComponent env name p (b1, file)
                          in Inr (Announced name Stopping # es,
                               (updateBenchStatus (on_held (hook_pushes env name) name stopped_status (fst st1)), snd st1)))
                    else (let (es, st1) = stop_declarative env name (b1, file) in Inr (Announced name Stopping # es, st1))
                | None \<Rightarrow> (let (es, st1) = stop_declarative env name (b1, file) in Inr (Announced name Stopping # es, st1))))"

subsection \<open>Stopping all components\<close>

fun stop_components :: "stop_env \<Rightarrow> string list \<Rightarrow> bench_state \<Rightarrow> string option \<times> stop_event list \<times> bench_state" where
  "stop_components env [] st = (None, [], st)"
| "stop_components env (name # rest) st =
     (case stopComponent env (Some (fst st)) (snd st) name of
        Inl f \<Rightarrow> (Some (fail_message f), [], st)
      | Inr (es, st1) \<Rightarrow>
          (let (err, es', st2) = stop_components env rest st1 in (err, es @ es', st2)))"

text \<open>The order of the stops: the start order reversed, or any when it cannot be had.\<close>

definition stop_order :: "registered_project option \<Rightarrow> bench \<Rightarrow> string list" where
  "stop_order project b =
     (case Option.bind project config of
        None \<Rightarrow> jkeys (bench_components b)
      | Some c \<Rightarrow> (case getComponentOrder (cfg_components c) of
            Inr ord \<Rightarrow> rev ord | Inl name \<Rightarrow> jkeys (bench_components b)))"

text \<open>A stop that fails is thrown on, with what was done before it.\<close>

definition stopAllComponents ::
    "stop_env \<Rightarrow> registered_project option \<Rightarrow> bench option \<Rightarrow> persisted_state option
      \<Rightarrow> bench_failure + string option \<times> stop_event list \<times> bench_state" where
  "stopAllComponents env project found file =
     (case found of
        None \<Rightarrow> fail NOT_FOUND ''Bench not found''
      | Some b \<Rightarrow>
          (let (err, es, st) = stop_components env (stop_order project b) (b, file)
           in Inr (err, es, if err = None then (fst st, clearLedgerForBench (bench_id b) (snd st)) else st)))"

subsection \<open>What a stop does\<close>

definition stopping_names :: "stop_event list \<Rightarrow> string list" where
  "stopping_names es = List.map_filter (\<lambda>e. case e of Announced n s \<Rightarrow> if s = Stopping then Some n else None | _ \<Rightarrow> None) es"

lemma stopping_names_append [simp]: "stopping_names (xs @ ys) = stopping_names xs @ stopping_names ys"
  by (simp add: stopping_names_def map_filter_def)

lemma stopping_names_simps [simp]: "stopping_names [] = []"
  "stopping_names (Announced n s # es) = (if s = Stopping then n # stopping_names es else stopping_names es)"
  "stopping_names (Called_hook p h # es) = stopping_names es"
  "stopping_names (Ran_docker d # es) = stopping_names es"
  "stopping_names (Stopped_process i # es) = stopping_names es"
  by (simp_all add: stopping_names_def map_filter_def)

text \<open>A ledger operation that only removes rows of one bench number.\<close>

fun releases :: "int \<Rightarrow> ledger_op \<Rightarrow> bool" where
  "releases i (Remove_process p b x) = (b = i)"
| "releases i (Remove_compose p b x) = (b = i)"
| "releases i (Clear_entry p b) = (b = i)"
| "releases i op = False"

definition released :: "int \<Rightarrow> persisted_state option \<Rightarrow> persisted_state option \<Rightarrow> bool" where
  "released i ledger ledger' \<longleftrightarrow> (\<exists>ops. list_all (releases i) ops \<and> ledger' = fold run_ledger ops ledger)"

lemma released_refl [simp]: "released i l l"
  unfolding released_def by (intro exI [of _ "[]"]) simp

lemma released_trans: "released i l l' \<Longrightarrow> released i l' l'' \<Longrightarrow> released i l l''"
  unfolding released_def by (metis fold_append comp_apply list_all_append)

lemma released_op: "releases i op \<Longrightarrow> released i l (run_ledger op l)"
  unfolding released_def by (intro exI [of _ "[op]"]) simp

definition row_ops :: "string \<Rightarrow> int \<Rightarrow> string \<Rightarrow> ledger_op list" where
  "row_ops p i name = map (Remove_process p i)
     [engine_process_id p i name, engine_process_id p i name @ '':migration'', engine_process_id p i name @ '':setup'']"

lemma release_rows_ops: "release_rows p i name l = fold run_ledger (row_ops p i name) l"
  by (simp add: release_rows_def row_ops_def Let_def)

lemma released_rows: "released i l (release_rows p i name l)"
  unfolding released_def release_rows_ops by (intro exI [of _ "row_ops p i name"]) (simp add: row_ops_def)

lemma released_clear: "released i l (clearLedgerForBench i l)"
  unfolding released_def clearLedgerForBench_run
  by (intro exI conjI [OF _ refl]) (auto simp: list_all_iff)

lemma spec_released:
  "list_all (releases i) ops \<Longrightarrow> b \<noteq> i \<Longrightarrow>
    ((p, b, x) \<in> fst (fold spec_ledger ops o1) \<longleftrightarrow> (p, b, x) \<in> fst o1)
    \<and> ((p, b, x) \<in> snd (fold spec_ledger ops o1) \<longleftrightarrow> (p, b, x) \<in> snd o1)"
proof (induction ops arbitrary: o1)
  case (Cons op ops)
  have "((p, b, x) \<in> fst (spec_ledger op o1) \<longleftrightarrow> (p, b, x) \<in> fst o1)
      \<and> ((p, b, x) \<in> snd (spec_ledger op o1) \<longleftrightarrow> (p, b, x) \<in> snd o1)"
    using Cons.prems by (cases o1; cases op) auto
  with Cons.IH [of "spec_ledger op o1"] Cons.prems show ?case by simp
qed simp

lemma released_facts:
  assumes "released i l l'" and "ledger_wf (entries_of l)"
  shows "ledger_wf (entries_of l')" and "state_benches (loadState l') = state_benches (loadState l)"
    and "b \<noteq> i \<Longrightarrow> (p, b, x) \<in> owned_procs l' \<longleftrightarrow> (p, b, x) \<in> owned_procs l"
    and "b \<noteq> i \<Longrightarrow> (p, b, x) \<in> owned_composes l' \<longleftrightarrow> (p, b, x) \<in> owned_composes l"
proof -
  from assms(1) obtain ops where o: "list_all (releases i) ops" "l' = fold run_ledger ops l"
    unfolding released_def by blast
  from run_ledgers_spec [OF assms(2), of ops] o(2)
  have s: "(owned_procs l', owned_composes l') = fold spec_ledger ops (owned_procs l, owned_composes l)"
    "state_benches (loadState l') = state_benches (loadState l)" by (simp_all add: owned_of_def)
  show "ledger_wf (entries_of l')" unfolding o(2) by (rule ledger.inv_run [OF assms(2)])
  show "state_benches (loadState l') = state_benches (loadState l)" by (rule s(2))
  show "b \<noteq> i \<Longrightarrow> (p, b, x) \<in> owned_procs l' \<longleftrightarrow> (p, b, x) \<in> owned_procs l"
    "b \<noteq> i \<Longrightarrow> (p, b, x) \<in> owned_composes l' \<longleftrightarrow> (p, b, x) \<in> owned_composes l"
    using spec_released [OF o(1), of b p x "(owned_procs l, owned_composes l)"] s(1) [symmetric] by simp_all
qed

lemma bench_names_kept [simp]:
  "bench_id (updateBenchStatus b) = bench_id b" "bench_project (updateBenchStatus b) = bench_project b"
  "bench_id (on_component n f b) = bench_id b" "bench_project (on_component n f b) = bench_project b"
  by (simp_all add: updateBenchStatus_def on_component_def Let_def)

lemma stop_declarative_parts:
  assumes "stop_declarative env name (b, l) = (es, st)"
  shows "fst st = updateBenchStatus (on_component name stopped_status b)" and "stopping_names es = []"
    and "released (bench_id b) l (snd st)"
proof -
  show "fst st = updateBenchStatus (on_component name stopped_status b)"
    using assms by (auto simp: stop_declarative_def Let_def)
  show "stopping_names es = []"
    using assms by (auto simp: stop_declarative_def Let_def split: option.splits)
  show "released (bench_id b) l (snd st)"
    using assms released_trans [OF released_rows released_op [of _ "Remove_compose _ _ _"]] released_rows
    by (auto simp: stop_declarative_def Let_def split: option.split)
qed

text \<open>A stop whose hooks push nothing, in one equation for the bench.\<close>

lemma stopComponent_parts:
  assumes "stopComponent env (Some b) l name = Inr (es, st)" and "hook_pushes env name = []"
  shows "fst st = updateBenchStatus (on_component name stopped_status (on_component name (\<lambda>c. c\<lparr>comp_status := Stopping\<rparr>) b))"
    and "stopping_names es = [name]" and "released (bench_id b) l (snd st)"
proof -
  let ?b1 = "on_component name (\<lambda>c. c\<lparr>comp_status := Stopping\<rparr>) b"
  have guards: "name \<notin> set PROTOTYPE_POLLUTING_KEYS" "js_get (bench_components b) name \<noteq> Absent"
    using assms(1) by (auto simp: stopComponent_def split: if_splits)
  obtain es1 st1 where d: "stop_declarative env name (?b1, l) = (es1, st1)" by (metis prod.collapse)
  have "fst st = updateBenchStatus (on_component name stopped_status ?b1) \<and> stopping_names es = [name]
      \<and> released (bench_id b) l (snd st)"
  proof (cases "\<exists>p. bound_plugin env name = Some p \<and> is_imperative env p")
    case True
    then obtain p where p: "bound_plugin env name = Some p" "is_imperative env p" by blast
    with assms guards show ?thesis using released_op [of "bench_id b" "Clear_entry p (bench_id b)" l]
      by (auto simp: stopComponent_def stopImperativeComponent_def Let_def on_held_def replaced_by_def)
  next
    case False
    with assms(1) guards d have "es = Announced name Stopping # es1" "st = st1"
      by (auto simp: stopComponent_def Let_def split: option.splits)
    with stop_declarative_parts [OF d] show ?thesis by simp
  qed
  then show "fst st = updateBenchStatus (on_component name stopped_status ?b1)"
    "stopping_names es = [name]" "released (bench_id b) l (snd st)" by blast+
qed

lemma stopped_status_absorbs [simp]: "stopped_status (c\<lparr>comp_status := s\<rparr>) = stopped_status c"
  "stopped_status (stopped_status c) = stopped_status c"
  by (simp_all add: stopped_status_def)

lemma stopComponent_get:
  assumes "stopComponent env (Some b) l name = Inr (es, st)" and "hook_pushes env name = []"
  shows "map_of (bench_components (fst st)) k =
      (if k = name then map_option stopped_status (map_of (bench_components b) k) else map_of (bench_components b) k)"
    and "bench_id (fst st) = bench_id b"
  unfolding stopComponent_parts(1) [OF assms] by (auto simp: on_component_get option.map_comp comp_def)

lemma stop_components_parts:
  assumes quiet: "\<forall>n. hook_pushes env n = []"
  shows "stop_components env names st = (err, es, st') \<Longrightarrow>
    bench_id (fst st') = bench_id (fst st) \<and> released (bench_id (fst st)) (snd st) (snd st')
    \<and> (\<exists>rest. names = stopping_names es @ rest \<and> (err = None \<longrightarrow> rest = []))
    \<and> (\<forall>k. map_of (bench_components (fst st')) k =
          (if k \<in> set (stopping_names es) then map_option stopped_status (map_of (bench_components (fst st)) k)
           else map_of (bench_components (fst st)) k))"
proof (induction names arbitrary: st es)
  case (Cons name rest)
  show ?case
  proof (cases "stopComponent env (Some (fst st)) (snd st) name")
    case (Inl f)
    with Cons.prems show ?thesis by auto
  next
    case (Inr r)
    obtain es1 st1 where r: "r = (es1, st1)" by (cases r)
    note one = Inr [unfolded r]
    obtain es2 where tail: "stop_components env rest st1 = (err, es2, st')" "es = es1 @ es2"
      using Cons.prems one by (auto split: prod.splits)
    note parts = stopComponent_parts [OF one quiet [rule_format]]
    note get = stopComponent_get [OF one quiet [rule_format]]
    from Cons.IH [OF tail(1)] get parts(3) show ?thesis
      unfolding tail(2) stopping_names_append parts(2)
      by (auto simp: option.map_comp comp_def intro: released_trans)
  qed
qed auto

subsection \<open>Properties\<close>

text \<open>
  C30. Stopping a component of a declarative plugin leaves it stopped, without a process, a container
  or an error, and keeps its reported address and its setup flag; no other component changes. Its
  engine process was told to stop, exactly its three process rows leave the ledger, and a compose
  project row leaves only if no other live component of the bench is bound to the plugin.
\<close>

theorem stop_releases_the_component:
  assumes "stopComponent env (Some b) l name = Inr (es, st')" and "bound_plugin env name = Some p"
    and "\<not> is_imperative env p" and "map_of (bench_components b) name = Some c" and "ledger_wf (entries_of l)"
  shows "map_of (bench_components (fst st')) name = Some (stopped_status c)
    \<and> (\<forall>k. k \<noteq> name \<longrightarrow> map_of (bench_components (fst st')) k = map_of (bench_components b) k)
    \<and> Stopped_process (engine_process_id p (bench_id b) name) \<in> set es
    \<and> owned_procs (snd st') = owned_procs l - {(p, bench_id b, engine_process_id p (bench_id b) name),
         (p, bench_id b, engine_process_id p (bench_id b) name @ '':migration''),
         (p, bench_id b, engine_process_id p (bench_id b) name @ '':setup'')}
    \<and> (owned_composes (snd st') \<noteq> owned_composes l \<longrightarrow>
         \<not> benchHasLiveComponentOnPlugin env (fst st') p name
         \<and> owned_composes (snd st') = owned_composes l - {(p, bench_id b, getComposeProjectName (bench_project b) (bench_id b))})"
proof -
  let ?b1 = "on_component name (\<lambda>c. c\<lparr>comp_status := Stopping\<rparr>) b"
  let ?b2 = "on_component name stopped_status ?b1"
  define dd where "dd = (if has_assigned ?b1 name then None else docker_of (descriptor_of env name))"
  define drop_compose where "drop_compose = (dd \<noteq> None \<and> \<not> benchHasLiveComponentOnPlugin env ?b2 p name)"
  define ops where "ops = row_ops p (bench_id b) name
      @ (if drop_compose then [Remove_compose p (bench_id b) (getComposeProjectName (bench_project b) (bench_id b))] else [])"
  obtain es1 st1 where d: "stop_declarative env name (?b1, l) = (es1, st1)" by (metis prod.collapse)
  have e: "es = Announced name Stopping # es1" "st' = st1"
    using assms(1-3) d by (auto simp: stopComponent_def Let_def split: if_splits)
  have st: "fst st' = updateBenchStatus ?b2" using stop_declarative_parts(1) [OF d] e by simp
  have l: "snd st' = fold run_ledger ops l"
    using d assms(2) unfolding e(2) stop_declarative_def Let_def
    by (auto simp: ops_def drop_compose_def dd_def release_rows_ops)
  from run_ledgers_spec [OF assms(5), of ops] l
  have o: "(owned_procs (snd st'), owned_composes (snd st')) = fold spec_ledger ops (owned_procs l, owned_composes l)"
    by (simp add: owned_of_def)
  have live: "benchHasLiveComponentOnPlugin env (fst st') p name = benchHasLiveComponentOnPlugin env ?b2 p name"
    by (simp add: st benchHasLiveComponentOnPlugin_def)
  have stopped: "Stopped_process (engine_process_id p (bench_id b) name) \<in> set es"
    using d assms(2) by (auto simp: e(1) stop_declarative_def Let_def)
  have get: "map_of (bench_components (fst st')) k =
      (if k = name then Some (stopped_status c) else map_of (bench_components b) k)" for k
    using assms(4) by (simp add: st on_component_get)
  have procs: "owned_procs (snd st') = owned_procs l - {(p, bench_id b, engine_process_id p (bench_id b) name),
         (p, bench_id b, engine_process_id p (bench_id b) name @ '':migration''),
         (p, bench_id b, engine_process_id p (bench_id b) name @ '':setup'')}"
    using o by (auto simp: ops_def row_ops_def split: if_splits)
  have kept: "owned_composes (snd st') = owned_composes l" if "\<not> drop_compose"
    using o that by (simp add: ops_def row_ops_def)
  have dropped: "owned_composes (snd st') = owned_composes l - {(p, bench_id b, getComposeProjectName (bench_project b) (bench_id b))}"
    if drop_compose using o that by (simp add: ops_def row_ops_def)
  have alone: "\<not> benchHasLiveComponentOnPlugin env (fst st') p name" if drop_compose
    using that unfolding live drop_compose_def by (rule conjunct2)
  have composes: "owned_composes (snd st') \<noteq> owned_composes l \<longrightarrow>
       \<not> benchHasLiveComponentOnPlugin env (fst st') p name
       \<and> owned_composes (snd st') = owned_composes l - {(p, bench_id b, getComposeProjectName (bench_project b) (bench_id b))}"
  proof
    assume "owned_composes (snd st') \<noteq> owned_composes l"
    then have drop_compose using kept by (rule contrapos_np)
    then show "\<not> benchHasLiveComponentOnPlugin env (fst st') p name
       \<and> owned_composes (snd st') = owned_composes l - {(p, bench_id b, getComposeProjectName (bench_project b) (bench_id b))}"
      using alone dropped by (intro conjI)
  qed
  have own: "map_of (bench_components (fst st')) name = Some (stopped_status c)" using get [of name] by simp
  have others: "\<forall>k. k \<noteq> name \<longrightarrow> map_of (bench_components (fst st')) k = map_of (bench_components b) k" by (simp only: get) simp
  show ?thesis by (rule conjI [OF own conjI [OF others conjI [OF stopped conjI [OF procs composes]]]])
qed

definition sample_stop :: stop_env where
  "sample_stop = \<lparr>bound_to = (\<lambda>n. Inr ''process''), is_imperative = (\<lambda>p. False), hook_pushes = (\<lambda>n. []),
     descriptor_of = (\<lambda>n. None), url_parse_of = sample_parser\<rparr>"

theorem stop_releases_the_component_witness:
  "\<exists>es st'. stopComponent sample_stop (Some sample_bench) None ''web'' = Inr (es, st')
     \<and> map_of (bench_components (fst st')) ''web'' = Some (stopped_status (sample_status ''web''))"
proof -
  obtain es st' where r: "stopComponent sample_stop (Some sample_bench) None ''web'' = Inr (es, st')"
    by (simp add: stopComponent_def sample_stop_def bound_plugin_def sample_bench_def PROTOTYPE_POLLUTING_KEYS_def Let_def
        case_prod_unfold js_get_def)
  have "ledger_wf (entries_of None)" by (simp add: entries_of_def loadState_def)
  moreover have "bound_plugin sample_stop ''web'' = Some ''process''" "\<not> is_imperative sample_stop ''process''"
    "map_of (bench_components sample_bench) ''web'' = Some (sample_status ''web'')"
    by (simp_all add: sample_stop_def bound_plugin_def sample_bench_def)
  ultimately have "map_of (bench_components (fst st')) ''web'' = Some (stopped_status (sample_status ''web''))"
    using stop_releases_the_component [OF r, THEN conjunct1] by blast
  with r show ?thesis by blast
qed



end
