(* ===== verification/Notifications.thy ===== *)
theory Notifications
  imports BenchManager Canonical
begin

section \<open>Bench notifications\<close>

text \<open>
  \<open>server/services/notification.ts\<close>: creation, with the merge of a repeat into the notification that is
  there, and the dismissals, over the bench and the value of the state file. Identifiers, the time
  and whether the bench is live are arguments; a launch failure is the JSON value after
  \<open>redactSecrets\<close>; broadcasts are left out.
\<close>

definition WAITING_NOTIFICATION_TYPES :: "string list" where
  "WAITING_NOTIFICATION_TYPES = [''terminal-waiting'', ''agent-waiting'']"

definition STICKY_BENCH_NOTIFICATION_TYPES :: "string list" where
  "STICKY_BENCH_NOTIFICATION_TYPES = [''agent-launch-failed'', ''agent-fallback'']"

definition derivePriority :: "string \<Rightarrow> string" where
  "derivePriority t =
     (if t \<in> {''agent-waiting'', ''terminal-waiting'', ''bench-error'', ''component-error'', ''agent-exited'',
             ''agent-exited-unexpectedly'', ''agent-launch-failed''}
      then ''action-needed'' else ''info'')"

type_synonym noted = "bench \<times> persisted_state option"

definition persistBench :: "bool \<Rightarrow> noted \<Rightarrow> noted" where
  "persistBench live st = (if live then (fst st, updateBench (toPersistedBench (fst st)) (snd st)) else st)"

record notif_payload =
  pl_metadata :: "json option"
  pl_failure :: "json option"
  pl_exit :: "json option"

definition notif_key :: "bench_notification \<Rightarrow> string \<times> string option" where
  "notif_key n = (notif_type n, notif_session n)"

definition same_payload :: "bench_notification \<Rightarrow> notif_payload \<Rightarrow> bool" where
  "same_payload n p =
     (map_option stringify (notif_metadata n) = map_option stringify (pl_metadata p)
      \<and> map_option stringify (launchFailure n) = map_option stringify (pl_failure p)
      \<and> map_option stringify (unexpectedExit n) = map_option stringify (pl_exit p))"

definition set_payload :: "notif_payload \<Rightarrow> bench_notification \<Rightarrow> bench_notification" where
  "set_payload p n = n\<lparr>notif_metadata := pl_metadata p, launchFailure := pl_failure p, unexpectedExit := pl_exit p\<rparr>"

fun update_first :: "('a \<Rightarrow> bool) \<Rightarrow> ('a \<Rightarrow> 'a) \<Rightarrow> 'a list \<Rightarrow> 'a list" where
  "update_first q f [] = []"
| "update_first q f (x # xs) = (if q x then f x # xs else x # update_first q f xs)"

definition with_notifications :: "(bench_notification list \<Rightarrow> bench_notification list) \<Rightarrow> bench \<Rightarrow> bench" where
  "with_notifications f b = b\<lparr>notifications := f (notifications b)\<rparr>"

definition createNotification ::
    "bool \<Rightarrow> string \<Rightarrow> string \<Rightarrow> string \<Rightarrow> string option \<Rightarrow> notif_payload \<Rightarrow> noted \<Rightarrow> noted" where
  "createNotification live nid now t session p st =
     (let b = fst st; same = (\<lambda>n. notif_key n = (t, session))
      in case find same (notifications b) of
           Some existing \<Rightarrow>
             if pl_metadata p = None \<and> pl_failure p = None \<and> pl_exit p = None then st
             else (let b1 = with_notifications (update_first same (set_payload p)) b
                   in if same_payload existing p then (b1, snd st) else persistBench live (b1, snd st))
         | None \<Rightarrow>
             persistBench live (with_notifications (\<lambda>ns. ns @ [\<lparr>notif_id = nid, notif_type = t,
               notif_priority = derivePriority t, notif_session = session, notif_metadata = pl_metadata p,
               notif_createdAt = now, launchFailure = pl_failure p, unexpectedExit = pl_exit p\<rparr>]) b, snd st))"

text \<open>Every dismissal is a filter that writes only when it removed something.\<close>

definition dismiss_where :: "bool \<Rightarrow> (bench_notification \<Rightarrow> bool) \<Rightarrow> noted \<Rightarrow> noted" where
  "dismiss_where live keep st =
     (let b1 = with_notifications (filter keep) (fst st)
      in if length (notifications b1) \<noteq> length (notifications (fst st)) then persistBench live (b1, snd st)
         else (b1, snd st))"

definition dismissBenchLevelForBench :: "bool \<Rightarrow> noted \<Rightarrow> noted" where
  "dismissBenchLevelForBench live =
     dismiss_where live (\<lambda>n. truthy (notif_session n) \<or> notif_type n \<in> set STICKY_BENCH_NOTIFICATION_TYPES)"

definition dismissOne :: "bool \<Rightarrow> string \<Rightarrow> noted \<Rightarrow> noted" where
  "dismissOne live nid = dismiss_where live (\<lambda>n. notif_id n \<noteq> nid)"

definition dismissBySession :: "bool \<Rightarrow> string \<Rightarrow> noted \<Rightarrow> noted" where
  "dismissBySession live s = dismiss_where live (\<lambda>n. notif_session n \<noteq> Some s)"

definition dismissWaitingForSession :: "bool \<Rightarrow> string \<Rightarrow> noted \<Rightarrow> bool \<times> noted" where
  "dismissWaitingForSession live s st =
     (let keep = (\<lambda>n. \<not> (notif_session n = Some s \<and> notif_type n \<in> set WAITING_NOTIFICATION_TYPES))
      in (length (filter keep (notifications (fst st))) \<noteq> length (notifications (fst st)), dismiss_where live keep st))"

subsection \<open>Runs\<close>

datatype notif_op =
    Notify string string string "string option" notif_payload
  | Dismiss_bench
  | Dismiss_one string
  | Dismiss_session string
  | Dismiss_waiting string

fun run_notif :: "bool \<Rightarrow> notif_op \<Rightarrow> noted \<Rightarrow> noted" where
  "run_notif live (Notify i now t s p) = createNotification live i now t s p"
| "run_notif live Dismiss_bench = dismissBenchLevelForBench live"
| "run_notif live (Dismiss_one i) = dismissOne live i"
| "run_notif live (Dismiss_session s) = dismissBySession live s"
| "run_notif live (Dismiss_waiting s) = (\<lambda>st. snd (dismissWaitingForSession live s st))"

text \<open>The record in the file says what the bench in memory does, payloads compared as they are written.\<close>

definition reads_alike :: "bench_notification \<Rightarrow> bench_notification \<Rightarrow> bool" where
  "reads_alike n m \<longleftrightarrow> (notif_id n, notif_key n, notif_priority n, notif_createdAt n) = (notif_id m, notif_key m, notif_priority m, notif_createdAt m)
     \<and> map_option stringify (notif_metadata n) = map_option stringify (notif_metadata m)
     \<and> map_option stringify (launchFailure n) = map_option stringify (launchFailure m)
     \<and> map_option stringify (unexpectedExit n) = map_option stringify (unexpectedExit m)"

definition notified :: "noted \<Rightarrow> bool" where
  "notified st \<longleftrightarrow> distinct (map notif_key (notifications (fst st)))
     \<and> (\<exists>pb ns. state_get (snd st) (bench_project (fst st), bench_id (fst st)) = Some pb \<and> pb_notifications pb = Some ns
          \<and> list_all2 reads_alike ns (notifications (fst st)))"

lemma reads_alike_refl [simp]: "reads_alike n n"
  by (simp add: reads_alike_def)

lemma load_keeps_notifications [simp]: "pb_notifications (load_bench pb) = pb_notifications pb"
  by (simp add: load_bench_def migrateInjectedJigFields_def)

lemma persisted_key: "bench_key_of (toPersistedBench b) = (bench_project b, bench_id b)"
  by (simp add: toPersistedBench_def bench_key_of_def Let_def)

lemma notified_persist:
  assumes "state_get f (bench_project b, bench_id b) \<noteq> None" and "distinct (map notif_key (notifications b))"
  shows "notified (persistBench True (b, f))"
proof -
  have "pb_notifications (toPersistedBench b) = Some (notifications b)" by (simp add: toPersistedBench_def Let_def)
  moreover have "list_all2 reads_alike ns ns" for ns by (simp add: list.rel_refl)
  ultimately show ?thesis using assms by (simp add: notified_def persistBench_def state_get_update persisted_key)
qed

lemma key_update_first: "(\<And>x. k (f x) = k x) \<Longrightarrow> map k (update_first q f xs) = map k xs"
  by (induction xs) auto

lemma alike_update_first:
  "list_all2 reads_alike ns ms \<Longrightarrow> find q ms = Some m \<Longrightarrow> reads_alike m (f m) \<Longrightarrow>
    list_all2 reads_alike ns (update_first q f ms)"
proof (induction rule: list_all2_induct)
  case (Cons n ns x ms)
  show ?case
  proof (cases "q x")
    case True
    with Cons.prems Cons.hyps(1) show ?thesis using Cons.hyps(2) by (auto simp: reads_alike_def)
  next
    case False
    with Cons show ?thesis by simp
  qed
qed simp

lemma with_notifications_simps [simp]:
  "notifications (with_notifications f b) = f (notifications b)"
  "bench_project (with_notifications f b) = bench_project b" "bench_id (with_notifications f b) = bench_id b"
  by (simp_all add: with_notifications_def)

lemma notified_present: "notified (b, f) \<Longrightarrow> state_get f (bench_project b, bench_id b) \<noteq> None"
  by (auto simp: notified_def)

lemma notified_dismiss: "notified st \<Longrightarrow> notified (dismiss_where True keep st)"
proof -
  assume n: "notified st"
  obtain b f where st: "st = (b, f)" by (cases st)
  show ?thesis
  proof (cases "length (filter keep (notifications b)) = length (notifications b)")
    case True
    then have "filter keep (notifications b) = notifications b"
      by (metis filter_id_conv length_filter_less linorder_not_less order_refl)
    with n True st show ?thesis by (simp add: dismiss_where_def notified_def)
  next
    case False
    with n st have "distinct (map notif_key (filter keep (notifications b)))"
      by (simp add: notified_def distinct_map_filter)
    with False n st notified_present [of b f] show ?thesis
      by (simp add: dismiss_where_def notified_persist)
  qed
qed

lemma notified_create: "notified st \<Longrightarrow> notified (createNotification True i now t s p st)"
proof -
  assume n: "notified st"
  obtain b f where st: "st = (b, f)" by (cases st)
  from n st have d: "distinct (map notif_key (notifications b))" and g: "state_get f (bench_project b, bench_id b) \<noteq> None"
    using notified_present by (auto simp: notified_def)
  let ?same = "\<lambda>n. notif_key n = (t, s)"
  show ?thesis
  proof (cases "find ?same (notifications b)")
    case None
    then have "(t, s) \<notin> notif_key ` set (notifications b)" by (auto simp: find_None_iff)
    with d g show ?thesis unfolding createNotification_def st Let_def fst_conv snd_conv None option.case
      by (intro notified_persist) (auto simp: notif_key_def)
  next
    case (Some m)
    have keys: "map notif_key (update_first ?same (set_payload p) (notifications b)) = map notif_key (notifications b)"
      by (rule key_update_first) (simp add: notif_key_def set_payload_def)
    have alike: "reads_alike m (set_payload p m)" if "same_payload m p"
      using that by (simp add: reads_alike_def set_payload_def same_payload_def notif_key_def)
    from n st obtain pb ns where pb: "state_get f (bench_project b, bench_id b) = Some pb" "pb_notifications pb = Some ns"
      "list_all2 reads_alike ns (notifications b)" by (auto simp: notified_def)
    have "list_all2 reads_alike ns (update_first ?same (set_payload p) (notifications b))" if "same_payload m p"
      by (rule alike_update_first [where f = "set_payload p", OF pb(3) Some alike [OF that]])
    then have same: "notified (with_notifications (update_first ?same (set_payload p)) b, f)" if "same_payload m p"
      using that d pb keys by (simp add: notified_def)
    have changed: "notified (persistBench True (with_notifications (update_first ?same (set_payload p)) b, f))"
      using d g keys by (intro notified_persist) simp_all
    show ?thesis using n same changed by (simp add: createNotification_def st Some Let_def)
  qed
qed

lemma notified_op: "notified st \<Longrightarrow> notified (run_notif True op st)"
  by (cases op) (auto simp: notified_create notified_dismiss dismissBenchLevelForBench_def dismissOne_def
      dismissBySession_def dismissWaitingForSession_def Let_def)

interpretation notifying: step_system "run_notif True" notified
  by unfold_locales (rule notified_op)

subsection \<open>Properties\<close>

text \<open>
  C32. Whatever notifications are raised and dismissed on a live bench, it has at most one of each type
  and session, the record in the state file says the same as the bench in memory, and dismissing
  the bench-level ones keeps exactly those of a session and the sticky ones.
\<close>

theorem notifications_stay_persisted:
  assumes "notified st" and "fold (run_notif True) ops st = st'"
  shows "distinct (map notif_key (notifications (fst st')))
    \<and> (\<exists>pb ns. state_get (snd st') (bench_project (fst st'), bench_id (fst st')) = Some pb
         \<and> pb_notifications pb = Some ns \<and> list_all2 reads_alike ns (notifications (fst st')))
    \<and> set (notifications (fst (dismissBenchLevelForBench True st'))) =
        {n \<in> set (notifications (fst st')). truthy (notif_session n) \<or> notif_type n \<in> set STICKY_BENCH_NOTIFICATION_TYPES}"
proof -
  have "notified st'" unfolding assms(2) [symmetric] by (rule notifying.inv_run [OF assms(1)])
  then show ?thesis
    by (auto simp: notified_def dismissBenchLevelForBench_def dismiss_where_def persistBench_def Let_def)
qed

definition no_payload :: notif_payload where
  "no_payload = \<lparr>pl_metadata = None, pl_failure = None, pl_exit = None\<rparr>"

theorem notifications_stay_persisted_witness:
  "distinct (map notif_key (notifications (fst (fold (run_notif True)
     [Notify ''1'' ''t'' ''bench-error'' None no_payload, Notify ''2'' ''t'' ''bench-error'' None no_payload]
     (sample_bench, addBench (toPersistedBench sample_bench) None)))))"
proof -
  have n: "notified (sample_bench, addBench (toPersistedBench sample_bench) None)"
    by (simp add: notified_def state_get_add persisted_key) (simp add: toPersistedBench_def sample_bench_def Let_def)
  show ?thesis by (rule notifications_stay_persisted [OF n refl, THEN conjunct1])
qed

end
