(* ===== verification/Teardown.thy ===== *)
theory Teardown
  imports BenchStop Notifications
begin

section \<open>Worktrees and the teardown of a bench\<close>

text \<open>
  \<open>server/services/worktree-registry.ts\<close>, the removal of a bench's worktree, the teardown of a bench
  (Clear) and the forced unregister of a project, from \<open>server/services/bench-manager.ts\<close>. What git
  and the file system answer is the record \<open>disk\<close>; a forced unregister and a teardown both work on
  the bench in memory and the value of the state file. The abort of provisioning that is in flight
  and the wait for it are left out: the flows start when it has settled.
\<close>

subsection \<open>The registry of worktrees\<close>

record worktree_entry =
  wt_path :: string
  wt_prunable :: bool
  wt_branch :: "string option"

record disk =
  realpath_of :: "string \<Rightarrow> string option"
  cwd_of_server :: string
  dir_names :: "string \<Rightarrow> string list option"
  text_of :: "string \<Rightarrow> string option"
  exists_on_disk :: "string \<Rightarrow> bool"
  rm_error :: "string \<Rightarrow> string option"
  git_run :: "string list \<Rightarrow> command_result"

definition canonicalPath :: "disk \<Rightarrow> string \<Rightarrow> string" where
  "canonicalPath d p =
     (case realpath_of d p of
        Some r \<Rightarrow> r
      | None \<Rightarrow> (case realpath_of d (posix_dirname p) of
            Some r \<Rightarrow> posix_join [r, posix_basename p]
          | None \<Rightarrow> posix_resolve (cwd_of_server d) p))"

definition on_last :: "('a \<Rightarrow> 'a) \<Rightarrow> 'a list \<Rightarrow> 'a list" where
  "on_last f xs = (if xs = [] then [] else butlast xs @ [f (last xs)])"

definition worktree_line :: "string \<Rightarrow> worktree_entry list \<Rightarrow> worktree_entry list" where
  "worktree_line line es =
     (if starts_with ''worktree '' line then es @ [\<lparr>wt_path = drop 9 line, wt_prunable = False, wt_branch = None\<rparr>]
      else if es \<noteq> [] \<and> (line = ''prunable'' \<or> starts_with ''prunable '' line)
      then on_last (\<lambda>e. e\<lparr>wt_prunable := True\<rparr>) es
      else if es \<noteq> [] \<and> starts_with ''branch refs/heads/'' line
      then on_last (\<lambda>e. e\<lparr>wt_branch := Some (drop 18 line)\<rparr>) es
      else es)"

definition parseWorktreeList :: "string \<Rightarrow> worktree_entry list" where
  "parseWorktreeList porcelain = fold worktree_line (split_on newline porcelain) []"

definition findWorktreeEntry :: "disk \<Rightarrow> worktree_entry list \<Rightarrow> string \<Rightarrow> worktree_entry option" where
  "findWorktreeEntry d es ws =
     find (\<lambda>e. wt_path e = ws \<or> canonicalPath d (wt_path e) = canonicalPath d ws) es"

record admin_dir =
  admin_path :: string
  admin_worktree :: "string option"

definition listAdminDirs :: "disk \<Rightarrow> string \<Rightarrow> admin_dir list" where
  "listAdminDirs d commonDir =
     (let worktreesDir = posix_join [commonDir, ''worktrees''] in
      map (\<lambda>name.
        let dir = posix_join [worktreesDir, name]
        in case text_of d (posix_join [dir, ''gitdir'']) of
             None \<Rightarrow> \<lparr>admin_path = dir, admin_worktree = None\<rparr>
           | Some t \<Rightarrow> \<lparr>admin_path = dir, admin_worktree =
               (if trim t = [] then None else Some (posix_dirname (posix_resolve dir (trim t))))\<rparr>)
        (coalesce (dir_names d worktreesDir) []))"

text \<open>The first line of a \<open>.git\<close> file that is \<open>gitdir: \<close> and something; a line ends at a carriage return too.\<close>

definition gitdir_line :: "string \<Rightarrow> string option" where
  "gitdir_line t =
     first_some (\<lambda>line. let rest = takeWhile (\<lambda>c. c \<noteq> CHR 0x0D) (drop 8 line)
       in if starts_with ''gitdir: '' line \<and> rest \<noteq> [] then Some rest else None) (split_on newline t)"

definition findAdminDir :: "disk \<Rightarrow> string \<Rightarrow> string \<Rightarrow> string option" where
  "findAdminDir d commonDir ws =
     (let worktreesDir = canonicalPath d (posix_join [commonDir, ''worktrees'']);
          target = canonicalPath d ws;
          recordsTarget = (\<lambda>a. case admin_worktree a of None \<Rightarrow> False | Some w \<Rightarrow> canonicalPath d w = target);
          by_gitfile = Option.bind (Option.bind (text_of d (posix_join [ws, ''.git''])) gitdir_line)
            (\<lambda>m. let dir = canonicalPath d (posix_resolve ws (trim m))
                 in if posix_dirname dir = worktreesDir
                    then (case find (\<lambda>a. canonicalPath d (admin_path a) = dir) (listAdminDirs d commonDir) of
                            Some a \<Rightarrow> if recordsTarget a then Some (admin_path a) else None
                          | None \<Rightarrow> None)
                    else None)
      in case by_gitfile of
           Some p \<Rightarrow> Some p
         | None \<Rightarrow> map_option admin_path (find recordsTarget (listAdminDirs d commonDir)))"

subsection \<open>Removing a worktree\<close>

datatype td_event =
    Stop_step stop_event
  | Ran_git "string list"
  | Removed_tree string
  | Closed_terminals
  | Saved_permissions
  | Cleared_runtime "string list"

definition resolveGitCommonDir :: "disk \<Rightarrow> string option" where
  "resolveGitCommonDir d =
     (let r = git_run d [''rev-parse'', ''--path-format=absolute'', ''--git-common-dir''];
          dir = trim (cmd_stdout r)
      in if cmd_code r = 0 \<and> dir \<noteq> [] then Some dir else None)"

definition git_detail :: "command_result \<Rightarrow> string" where
  "git_detail r = (if trim (cmd_stderr r) \<noteq> [] then trim (cmd_stderr r) else ''exit code '' @ int_str (cmd_code r))"

definition execGitChecked :: "disk \<Rightarrow> string list \<Rightarrow> string option" where
  "execGitChecked d args =
     (let r = git_run d args
      in if cmd_code r \<noteq> 0 then Some (''git '' @ join_with '' '' args @ '' failed: '' @ git_detail r) else None)"

definition worktree_list_args :: "string list" where
  "worktree_list_args = [''worktree'', ''list'', ''--porcelain'']"

definition worktree_remove_args :: "string \<Rightarrow> string list" where
  "worktree_remove_args target = [''worktree'', ''remove'', ''--force'', target]"

text \<open>Through git: a thrown message, or whether git removed it, with the events.\<close>

definition removeThroughGit :: "disk \<Rightarrow> bool \<Rightarrow> string \<Rightarrow> string \<Rightarrow> td_event list \<times> (string + bool)" where
  "removeThroughGit d checked ws target =
     (let args = worktree_remove_args target; forced = [''worktree'', ''remove'', ''--force'', ''--force'', target] in
      if checked then
        (case execGitChecked d args of
           Some message \<Rightarrow> ([Ran_git args], Inl message)
         | None \<Rightarrow> ([Ran_git args], Inr True))
      else if cmd_code (git_run d args) = 0 then ([Ran_git args], Inr True)
      else if cmd_code (git_run d forced) = 0 then ([Ran_git args, Ran_git forced], Inr True)
      else ([Ran_git args, Ran_git forced]
              @ (case Option.bind (resolveGitCommonDir d) (\<lambda>c. findAdminDir d c ws) of
                   Some dir \<Rightarrow> [Removed_tree dir] | None \<Rightarrow> []),
            Inr False))"

text \<open>The reason a directory is left over, or none.\<close>

definition removeBenchWorktree :: "disk \<Rightarrow> bool \<Rightarrow> string \<Rightarrow> td_event list \<times> (string + string option)" where
  "removeBenchWorktree d checked ws =
     (let listed = git_run d worktree_list_args;
          target = (if cmd_code listed \<noteq> 0 then Some ws
                    else map_option wt_path (findWorktreeEntry d (parseWorktreeList (cmd_stdout listed)) ws));
          (es, removed) = (case target of None \<Rightarrow> ([], Inr False) | Some t \<Rightarrow> removeThroughGit d checked ws t)
      in case removed of
           Inl message \<Rightarrow> (Ran_git worktree_list_args # es, Inl message)
         | Inr by_git \<Rightarrow>
             if \<not> by_git \<and> exists_on_disk d ws
             then (Ran_git worktree_list_args # es @ [Removed_tree ws], Inr (rm_error d ws))
             else (Ran_git worktree_list_args # es, Inr None))"

subsection \<open>Clearing a bench\<close>

record teardown_env =
  td_stop :: stop_env
  td_disk :: disk
  terminals_error :: "string option"
  fresh_id :: string
  now_of :: string

definition td_step :: "string \<Rightarrow> step_status \<Rightarrow> bench \<Rightarrow> bench" where
  "td_step i s b = b\<lparr>teardownSteps := updateStep (teardownSteps b) i s None\<rparr>"

definition cancel_steps :: "bench \<Rightarrow> bench" where
  "cancel_steps b = b\<lparr>provisioningSteps := map (\<lambda>s.
     if pstep_status s \<in> {Step_running, Step_pending} then s\<lparr>pstep_status := Step_cancelled\<rparr> else s)
     (provisioningSteps b)\<rparr>"

definition teardown_in_progress :: "bench \<Rightarrow> bool" where
  "teardown_in_progress b =
     (bench_status b = Clearing \<and> teardownSteps b \<noteq> [] \<and> \<not> list_ex (\<lambda>s. pstep_status s = Step_error) (teardownSteps b))"

definition docker_backed :: "teardown_env \<Rightarrow> string \<Rightarrow> docker_descriptor option" where
  "docker_backed env name = docker_of (descriptor_of (td_stop env) name)"

definition plan_teardown :: "teardown_env \<Rightarrow> registered_project option \<Rightarrow> bool \<Rightarrow> bench \<Rightarrow> bench" where
  "plan_teardown env project removeWorkspace b =
     (let cs = (case Option.bind project config of None \<Rightarrow> [] | Some c \<Rightarrow> cfg_components c);
          hasDocker = list_ex (\<lambda>n. docker_backed env n \<noteq> None) (jkeys cs)
      in cancel_steps (b\<lparr>bench_status := Clearing, teardownSteps := makeTeardownSteps cs hasDocker removeWorkspace\<rparr>))"

definition set_stopped :: "component_status \<Rightarrow> component_status" where
  "set_stopped c = c\<lparr>comp_status := Stopped, containerId := None\<rparr>"

definition component_process_ids :: "stop_env \<Rightarrow> string \<Rightarrow> int \<Rightarrow> string \<Rightarrow> string list" where
  "component_process_ids env projectId benchId name =
     (case bound_plugin env name of None \<Rightarrow> [] | Some p \<Rightarrow> [engine_process_id p benchId name])
     @ [processId projectId benchId name]"

definition stop_one :: "teardown_env \<Rightarrow> string \<Rightarrow> td_event list \<times> bench \<Rightarrow> td_event list \<times> bench" where
  "stop_one env name s =
     (if docker_backed env name \<noteq> None then s
      else (fst s @ map (\<lambda>i. Stop_step (Stopped_process i))
              (component_process_ids (td_stop env) (bench_project (snd s)) (bench_id (snd s)) name),
            on_component name set_stopped (snd s)))"

definition down_one ::
    "teardown_env \<Rightarrow> string \<Rightarrow> string list \<times> td_event list \<times> bench \<Rightarrow> string list \<times> td_event list \<times> bench" where
  "down_one env name s =
     (case docker_backed env name of
        None \<Rightarrow> s
      | Some d \<Rightarrow>
          (let (downed, es, b) = s;
               b1 = on_component name set_stopped b
           in if composeFile d \<in> set downed then (downed, es, b1)
              else (downed @ [composeFile d],
                    es @ [Stop_step (Ran_docker (composeDown (getComposeProjectName (bench_project b) (bench_id b))
                      (composeFile d) (workspacePath b)))], b1)))"

definition stop_components_step :: "teardown_env \<Rightarrow> bench \<Rightarrow> td_event list \<times> bench" where
  "stop_components_step env b =
     (if hasStep (teardownSteps b) ''stop-components''
      then (let (es, b1) = fold (stop_one env) (jkeys (bench_components b)) ([], td_step ''stop-components'' Step_running b)
            in (es, td_step ''stop-components'' Step_done b1))
      else ([], b))"

definition docker_down_step :: "teardown_env \<Rightarrow> bench \<Rightarrow> td_event list \<times> bench" where
  "docker_down_step env b =
     (if hasStep (teardownSteps b) ''docker-down''
      then (let (downed, es, b1) = fold (down_one env) (jkeys (bench_components b)) ([], [], td_step ''docker-down'' Step_running b)
            in (es, td_step ''docker-down'' Step_done b1))
      else ([], b))"

definition branch_gone :: "command_result \<Rightarrow> bool" where
  "branch_gone r = (cmd_code r = 0
     \<or> str_includes ''not found'' (lower (git_detail r)) \<or> str_includes ''does not exist'' (lower (git_detail r)))"

text \<open>
  What may still be on disk: a path, a branch. The remove step gives the thrown message, if any, and
  what is left; the step is done otherwise.
\<close>

type_synonym leftover = "string option \<times> string option"

definition remove_step :: "teardown_env \<Rightarrow> bench \<Rightarrow> td_event list \<times> string option \<times> leftover" where
  "remove_step env b =
     (let ws = workspacePath b; (es, removed) = removeBenchWorktree (td_disk env) True ws
      in case removed of
           Inl message \<Rightarrow> (es, Some message, (Some ws, Some (branch b)))
         | Inr reason \<Rightarrow>
             (let left_path = (if reason = None then None else Some ws);
                  args = [''branch'', ''-D'', branch b]; r = git_run (td_disk env) args;
                  es1 = es @ [Ran_git args]
              in if \<not> branch_gone r
                 then (es1, Some (''git branch -D '' @ branch b @ '' failed: '' @ git_detail r), (left_path, Some (branch b)))
                 else if truthy left_path
                 then (es1, Some (''could not remove workspace directory '' @ ws
                     @ (if truthy reason then '': '' @ the reason else [])), (left_path, None))
                 else (es1, None, (left_path, None))))"

definition leftover_text :: "leftover \<Rightarrow> string" where
  "leftover_text lo =
     (let ls = (if truthy (fst lo) then [''workspace directory '' @ the (fst lo)] else [])
        @ (if truthy (snd lo) then [''branch '' @ the (snd lo)] else [])
      in if ls \<noteq> [] then ''Still on disk: '' @ join_with '' and '' ls @ ''.'' else ''Nothing was left behind on disk.'')"

definition field_of :: "string \<Rightarrow> string option \<Rightarrow> json jmap" where
  "field_of k v = (case v of None \<Rightarrow> [] | Some t \<Rightarrow> [(k, JStr t)])"

definition teardown_failed :: "teardown_env \<Rightarrow> string \<Rightarrow> leftover \<Rightarrow> noted \<Rightarrow> noted" where
  "teardown_failed env message lo st =
     (let b1 = (fst st)\<lparr>teardownSteps := mark_running_step message (teardownSteps (fst st)),
            bench_error := Some (''Teardown failed: '' @ message @ [newline] @ leftover_text lo @ [newline]
              @ ''The bench was kept, so you can clear it again to retry.''),
            bench_status := Bench_error\<rparr>;
          payload = \<lparr>pl_metadata = Some (JObj (field_of ''leftoverWorkspacePath'' (fst lo)
            @ field_of ''leftoverBranch'' (snd lo) @ [(''retryable'', JBool True)])),
            pl_failure = None, pl_exit = None\<rparr>;
          st1 = createNotification True (fresh_id env) (now_of env) ''bench-error'' None payload (b1, snd st)
      in persistBench True st1)"

text \<open>The bench in memory afterwards, \<open>None\<close> when it is gone, and the state file.\<close>

type_synonym torn = "bench option \<times> persisted_state option"

definition finish_teardown :: "bench \<Rightarrow> persisted_state option \<Rightarrow> torn" where
  "finish_teardown b file = (None, removeBench (bench_project b) (bench_id b) file)"

definition runTeardownBackground ::
    "teardown_env \<Rightarrow> registered_project option \<Rightarrow> bool \<Rightarrow> bench \<Rightarrow> persisted_state option \<Rightarrow> td_event list \<times> torn" where
  "runTeardownBackground env project removeWorkspace b file =
     (let b0 = td_step ''terminals'' Step_running b in
      case terminals_error env of
        Some message \<Rightarrow>
          (let st = teardown_failed env message (None, None) (b0, file) in ([Closed_terminals], (Some (fst st), snd st)))
      | None \<Rightarrow>
          (let b1 = td_step ''terminals'' Step_done b0;
               (es2, b2) = stop_components_step env b1;
               (es3, b3) = docker_down_step env b2;
               file1 = clearLedgerForBench (bench_id b3) file;
               b4 = td_step ''save-permissions'' Step_done (td_step ''save-permissions'' Step_running b3);
               es4 = Closed_terminals # es2 @ es3 @ [Cleared_runtime (jkeys (bench_components b3)), Saved_permissions]
           in if removeWorkspace \<and> project \<noteq> None
              then
                (let b5 = td_step ''remove-workspace'' Step_running b4; (es5, thrown, lo) = remove_step env b5
                 in case thrown of
                      Some message \<Rightarrow>
                        (let st = teardown_failed env message lo (b5, file1) in (es4 @ es5, (Some (fst st), snd st)))
                    | None \<Rightarrow> (es4 @ es5, finish_teardown b5 file1))
              else (es4, finish_teardown b4 file1)))"

definition teardownBench ::
    "teardown_env \<Rightarrow> registered_project option \<Rightarrow> bool \<Rightarrow> bench option \<Rightarrow> persisted_state option
      \<Rightarrow> bench_failure + td_event list \<times> torn" where
  "teardownBench env project removeWorkspace found file =
     (case found of
        None \<Rightarrow> fail NOT_FOUND ''Bench not found''
      | Some b \<Rightarrow>
          if teardown_in_progress b then Inr ([], (Some b, file))
          else Inr (runTeardownBackground env project removeWorkspace (plan_teardown env project removeWorkspace b) file))"

subsection \<open>Forced unregister\<close>

record unregister_env =
  un_teardown :: teardown_env
  docker_run :: "docker_command \<Rightarrow> command_result"

definition compose_files :: "teardown_env \<Rightarrow> string list \<Rightarrow> string list" where
  "compose_files env names = dedupe (map composeFile (List.map_filter (docker_backed env) names))"

definition down_commands ::
    "unregister_env \<Rightarrow> string \<Rightarrow> int \<Rightarrow> string \<Rightarrow> string list \<Rightarrow> persisted_state option \<Rightarrow> docker_command list" where
  "down_commands env projectId benchId ws names file =
     (let composeProject = getComposeProjectName projectId benchId;
          files = compose_files (un_teardown env) names;
          recorded = (files = [] \<and> list_ex (\<lambda>e. owner_bench e = benchId \<and> composeProject \<in> set (composeProjects e))
            (getAllEntries file));
          d = td_disk (un_teardown env)
      in if files \<noteq> [] \<and> exists_on_disk d ws then map (\<lambda>f. composeDown composeProject f ws) files
         else if files \<noteq> [] \<or> recorded then [composeDownByProject (cwd_of_server d) composeProject] else [])"

definition stopBenchForUnregister ::
    "unregister_env \<Rightarrow> string \<Rightarrow> int \<Rightarrow> string \<Rightarrow> string list \<Rightarrow> persisted_state option
      \<Rightarrow> td_event list \<times> persisted_state option" where
  "stopBenchForUnregister env projectId benchId ws names file =
     (let stopped = concat (map (component_process_ids (td_stop (un_teardown env)) projectId benchId)
            (filter (\<lambda>n. docker_backed (un_teardown env) n = None) names));
          downs = down_commands env projectId benchId ws names file;
          composeDownFailed = list_ex (\<lambda>c. down_outcome (docker_run env c) \<noteq> None) downs
      in (Closed_terminals # map (\<lambda>i. Stop_step (Stopped_process i)) stopped
            @ map (\<lambda>c. Stop_step (Ran_docker c)) downs @ [Cleared_runtime names],
          if composeDownFailed then file
          else releaseComposeProjectFromLedger benchId (getComposeProjectName projectId benchId) file))"

definition unregister_targets :: "string \<Rightarrow> (int \<times> string) list \<Rightarrow> bench_map \<Rightarrow> (int \<times> string) list" where
  "unregister_targets projectId persisted bm =
     fold (\<lambda>(k, b). jput (bench_id b) (workspacePath b)) (filter (\<lambda>(k, b). bench_project b = projectId) bm)
       (fold (\<lambda>(i, ws). jput i ws) persisted [])"

definition unregister_names :: "registered_project option \<Rightarrow> bench option \<Rightarrow> string list" where
  "unregister_names project live =
     dedupe ((case Option.bind project config of None \<Rightarrow> [] | Some c \<Rightarrow> jkeys (cfg_components c))
       @ (case live of None \<Rightarrow> [] | Some b \<Rightarrow> jkeys (bench_components b)))"

definition stop_target ::
    "unregister_env \<Rightarrow> registered_project option \<Rightarrow> string \<Rightarrow> bench_map \<Rightarrow> int \<times> string
      \<Rightarrow> td_event list \<times> persisted_state option \<Rightarrow> td_event list \<times> persisted_state option" where
  "stop_target env project projectId bm t s =
     (let (es, file') = stopBenchForUnregister env projectId (fst t) (snd t)
            (unregister_names project (map_of bm (benchKey projectId (fst t)))) (snd s)
      in (fst s @ es, file'))"

definition remove_target ::
    "unregister_env \<Rightarrow> int \<times> string \<Rightarrow> td_event list \<times> string list \<Rightarrow> td_event list \<times> string list" where
  "remove_target env t s =
     (let (es, removed) = removeBenchWorktree (td_disk (un_teardown env)) False (snd t)
      in (fst s @ es, snd s @ (case removed of Inr (Some reason) \<Rightarrow> [snd t] | _ \<Rightarrow> [])))"

definition removeWorkspacesOf ::
    "unregister_env \<Rightarrow> registered_project option \<Rightarrow> string \<Rightarrow> string \<Rightarrow> (int \<times> string) list \<Rightarrow> bench_map
      \<Rightarrow> persisted_state option \<Rightarrow> string list \<times> td_event list \<times> persisted_state option" where
  "removeWorkspacesOf env project projectId repository persisted bm file =
     (let targets = unregister_targets projectId persisted bm;
          (es1, file1) = fold (stop_target env project projectId bm) targets ([], file)
      in if \<not> exists_on_disk (td_disk (un_teardown env)) repository then (map snd targets, es1, file1)
         else (let (es2, leftovers) = fold (remove_target env) targets ([], []) in (leftovers, es1 @ es2, file1)))"

subsection \<open>What a removal touches\<close>

lemma findAdminDir_records:
  assumes "findAdminDir d commonDir ws = Some p"
  shows "\<exists>a \<in> set (listAdminDirs d commonDir). admin_path a = p
    \<and> (\<exists>w. admin_worktree a = Some w \<and> canonicalPath d w = canonicalPath d ws)"
proof -
  let ?records = "\<lambda>a. case admin_worktree a of None \<Rightarrow> False | Some w \<Rightarrow> canonicalPath d w = canonicalPath d ws"
  have "\<exists>a \<in> set (listAdminDirs d commonDir). admin_path a = p \<and> ?records a"
    using assms unfolding findAdminDir_def Let_def
    by (auto split: option.splits if_splits bind_splits dest!: find_SomeD)
  then show ?thesis by (auto split: option.splits)
qed

lemma removeThroughGit_removed:
  assumes "removeThroughGit d checked ws target = (es, r)" and "Removed_tree p \<in> set es"
  shows "\<not> checked \<and> (\<exists>c a w. a \<in> set (listAdminDirs d c) \<and> admin_path a = p \<and> admin_worktree a = Some w
    \<and> canonicalPath d w = canonicalPath d ws)"
  using assms findAdminDir_records [of d _ ws p]
  by (fastforce simp: removeThroughGit_def Let_def split: if_splits option.splits bind_splits)

lemma removeThroughGit_checked: "removeThroughGit d True ws target = (es, Inr g) \<Longrightarrow> g"
  by (auto simp: removeThroughGit_def Let_def split: option.splits)

definition registered_at :: "disk \<Rightarrow> string \<Rightarrow> worktree_entry option" where
  "registered_at d ws = findWorktreeEntry d (parseWorktreeList (cmd_stdout (git_run d worktree_list_args))) ws"

lemma removeBenchWorktree_cases:
  assumes "removeBenchWorktree d checked ws = (es, r)"
  obtains (none) "cmd_code (git_run d worktree_list_args) = 0" "registered_at d ws = None"
      "es = Ran_git worktree_list_args # (if exists_on_disk d ws then [Removed_tree ws] else [])"
      "r = Inr (if exists_on_disk d ws then rm_error d ws else None)"
    | (thrown) target es1 m where "removeThroughGit d checked ws target = (es1, Inl m)"
      "es = Ran_git worktree_list_args # es1" "r = Inl m"
    | (git) target es1 g where "removeThroughGit d checked ws target = (es1, Inr g)"
      "es = Ran_git worktree_list_args # es1 @ (if \<not> g \<and> exists_on_disk d ws then [Removed_tree ws] else [])"
      "r = Inr (if \<not> g \<and> exists_on_disk d ws then rm_error d ws else None)"
proof -
  define target where "target = (if cmd_code (git_run d worktree_list_args) \<noteq> 0 then Some ws
      else map_option wt_path (registered_at d ws))"
  show thesis
  proof (cases target)
    case None
    then have "cmd_code (git_run d worktree_list_args) = 0" "registered_at d ws = None"
      by (simp_all add: target_def split: if_splits)
    with assms show thesis by (intro none) (auto simp: removeBenchWorktree_def registered_at_def Let_def split: if_splits)
  next
    case (Some t)
    obtain es1 res where g: "removeThroughGit d checked ws t = (es1, res)" by (cases "removeThroughGit d checked ws t")
    have "(es, r) = (case res of Inl message \<Rightarrow> (Ran_git worktree_list_args # es1, Inl message)
         | Inr by_git \<Rightarrow> if \<not> by_git \<and> exists_on_disk d ws
             then (Ran_git worktree_list_args # es1 @ [Removed_tree ws], Inr (rm_error d ws))
             else (Ran_git worktree_list_args # es1, Inr None))"
      using assms Some g unfolding removeBenchWorktree_def Let_def target_def registered_at_def by simp
    with g thrown git show thesis by (cases res) (auto split: if_splits)
  qed
qed

subsection \<open>The record after a clear\<close>

lemma state_get_clear [simp]: "state_get (clearLedgerForBench i l) k = state_get l k"
proof -
  have "state_benches (loadState (fold run_ledger ops l)) = state_benches (loadState l)" for ops
    by (induction ops arbitrary: l) (simp_all add: run_ledger_benches)
  then show ?thesis by (simp add: state_get_def clearLedgerForBench_run)
qed

lemma create_keeps:
  "\<exists>f. fst (createNotification live i now t s p st) = with_notifications f (fst st)"
proof -
  have "with_notifications (\<lambda>ns. ns) b = b" for b by (simp add: with_notifications_def)
  then show ?thesis
    by (auto simp: createNotification_def persistBench_def Let_def split: option.split) metis+
qed

lemma state_get_persist: "state_get (snd (persistBench True st)) k =
    (if k = (bench_project (fst st), bench_id (fst st)) \<and> state_get (snd st) k \<noteq> None
     then Some (load_bench (toPersistedBench (fst st))) else state_get (snd st) k)"
  by (simp add: persistBench_def state_get_update persisted_key)

lemma create_state_get:
  "k \<noteq> (bench_project (fst st), bench_id (fst st)) \<Longrightarrow>
    state_get (snd (createNotification True i now t s p st)) k = state_get (snd st) k"
  "state_get (snd (createNotification True i now t s p st)) k = None \<longleftrightarrow> state_get (snd st) k = None"
  by (auto simp: createNotification_def state_get_persist Let_def split: option.split)

lemma teardown_failed_agrees:
  assumes "teardown_failed env m lo (b, l) = (b', l')" and "state_get l (bench_project b, bench_id b) \<noteq> None"
  shows "state_get l' (bench_project b, bench_id b) = Some (load_bench (toPersistedBench b'))
    \<and> (bench_project b', bench_id b') = (bench_project b, bench_id b)
    \<and> bench_status b' = Bench_error \<and> bench_error b' = Some (''Teardown failed: '' @ m @ [newline] @ leftover_text lo @ [newline]
        @ ''The bench was kept, so you can clear it again to retry.'')
    \<and> (\<forall>k. k \<noteq> (bench_project b, bench_id b) \<longrightarrow> state_get l' k = state_get l k)"
proof -
  define b1 where "b1 = b\<lparr>teardownSteps := mark_running_step m (teardownSteps b),
      bench_error := Some (''Teardown failed: '' @ m @ [newline] @ leftover_text lo @ [newline]
        @ ''The bench was kept, so you can clear it again to retry.''), bench_status := Bench_error\<rparr>"
  obtain p where e: "(b', l') = persistBench True (createNotification True (fresh_id env) (now_of env) ''bench-error'' None p (b1, l))"
    using assms(1) unfolding teardown_failed_def Let_def b1_def fst_conv snd_conv by metis
  obtain f where f: "fst (createNotification True (fresh_id env) (now_of env) ''bench-error'' None p (b1, l)) = with_notifications f b1"
    using create_keeps [of True "fresh_id env" "now_of env" "''bench-error''" None p "(b1, l)"] by auto
  have b': "b' = with_notifications f b1" using e f by (simp add: persistBench_def)
  have l': "l' = snd (persistBench True (createNotification True (fresh_id env) (now_of env) ''bench-error'' None p (b1, l)))"
    using e by (metis snd_conv)
  have key: "(bench_project b1, bench_id b1) = (bench_project b, bench_id b)" by (simp add: b1_def)
  have "state_get l' k = (if k = (bench_project b, bench_id b) then Some (load_bench (toPersistedBench b')) else state_get l k)" for k
    unfolding l' state_get_persist f b' using key assms(2) create_state_get(1) [where st = "(b1, l)"]
    by (auto simp: create_state_get(2))
  then show ?thesis using key by (simp add: b') (simp add: b1_def with_notifications_def)
qed

text \<open>The steps keep what identifies the bench and what the remove step reads.\<close>

definition bench_site :: "bench \<Rightarrow> (string \<times> int) \<times> string \<times> string" where
  "bench_site b = ((bench_project b, bench_id b), workspacePath b, branch b)"

lemma site_kept [simp]: "bench_site (td_step i s b) = bench_site b" "bench_site (on_component n f b) = bench_site b"
  by (simp_all add: bench_site_def td_step_def on_component_def)

lemma stops_site: "bench_site (snd (fold (stop_one env) ns s)) = bench_site (snd s)"
  by (induction ns arbitrary: s) (simp_all add: stop_one_def)

lemma downs_site: "bench_site (snd (snd (fold (down_one env) ns s))) = bench_site (snd (snd s))"
  by (induction ns arbitrary: s) (auto simp: down_one_def Let_def split: option.split prod.split)

lemma steps_site [simp]: "bench_site (snd (stop_components_step env b)) = bench_site b"
  "bench_site (snd (docker_down_step env b)) = bench_site b"
  using stops_site [of env "jkeys (bench_components b)" "([], td_step ''stop-components'' Step_running b)"]
    downs_site [of env "jkeys (bench_components b)" "([], [], td_step ''docker-down'' Step_running b)"]
  by (auto simp: stop_components_step_def docker_down_step_def split: prod.splits)

definition workspace_removed :: "disk \<Rightarrow> bench \<Rightarrow> bool" where
  "workspace_removed d b \<longleftrightarrow> snd (removeBenchWorktree d True (workspacePath b)) \<in> {Inr None} \<union> {Inr r | r. workspacePath b = []}
     \<and> branch_gone (git_run d [''branch'', ''-D'', branch b])"

lemma remove_step_ok: "remove_step env b = (es, None, lo) \<Longrightarrow> workspace_removed (td_disk env) b"
  by (auto simp: remove_step_def workspace_removed_def Let_def split: prod.splits sum.splits if_splits)

lemma workspace_removed_cong: "bench_site b = bench_site b' \<Longrightarrow> workspace_removed d b = workspace_removed d b'"
  by (simp add: bench_site_def workspace_removed_def)

definition agrees_after_clear ::
    "string \<times> int \<Rightarrow> persisted_state option \<Rightarrow> torn \<Rightarrow> bool" where
  "agrees_after_clear k file t \<longleftrightarrow>
     (case fst t of
        None \<Rightarrow> state_get (snd t) k = None
      | Some b' \<Rightarrow> state_get (snd t) k = Some (load_bench (toPersistedBench b')) \<and> (bench_project b', bench_id b') = k
          \<and> bench_status b' = Bench_error \<and> bench_error b' \<noteq> None)
     \<and> (\<forall>k'. k' \<noteq> k \<longrightarrow> state_get (snd t) k' = state_get file k')"

lemma failed_agrees:
  assumes "bench_site b = bench_site b0" and "state_get l = state_get file"
    and "state_get file (bench_project b0, bench_id b0) \<noteq> None"
  shows "agrees_after_clear (bench_project b0, bench_id b0) file
    (Some (fst (teardown_failed env m lo (b, l))), snd (teardown_failed env m lo (b, l)))"
proof -
  obtain b' l' where r: "teardown_failed env m lo (b, l) = (b', l')" by (cases "teardown_failed env m lo (b, l)")
  have k: "(bench_project b, bench_id b) = (bench_project b0, bench_id b0)" using assms(1) by (simp add: bench_site_def)
  with teardown_failed_agrees [OF r] assms(2,3) show ?thesis by (simp add: r agrees_after_clear_def)
qed

lemma finished_agrees:
  assumes "bench_site b = bench_site b0" and "state_get l = state_get file"
  shows "agrees_after_clear (bench_project b0, bench_id b0) file (finish_teardown b l)"
  using assms state_get_remove [of "(bench_project b0, bench_id b0)" l]
  by (simp add: agrees_after_clear_def finish_teardown_def bench_site_def)

lemma state_get_clear_fun: "state_get (clearLedgerForBench i l) = state_get l"
  by (rule ext) simp

lemma teardown_agrees:
  assumes "runTeardownBackground env project rw b file = (es, t)" and "state_get file (bench_project b, bench_id b) \<noteq> None"
  shows "agrees_after_clear (bench_project b, bench_id b) file t
    \<and> (fst t = None \<longrightarrow> rw \<longrightarrow> project \<noteq> None \<longrightarrow> workspace_removed (td_disk env) b)"
proof (cases "terminals_error env")
  case (Some m)
  with assms failed_agrees [of "td_step ''terminals'' Step_running b" b "file" "file" env m] show ?thesis
    by (auto simp: runTeardownBackground_def Let_def)
next
  case None
  define b3 where "b3 = snd (docker_down_step env (snd (stop_components_step env
      (td_step ''terminals'' Step_done (td_step ''terminals'' Step_running b)))))"
  define l1 where "l1 = clearLedgerForBench (bench_id b3) file"
  define b4 where "b4 = td_step ''save-permissions'' Step_done (td_step ''save-permissions'' Step_running b3)"
  define b5 where "b5 = td_step ''remove-workspace'' Step_running b4"
  have site: "bench_site b4 = bench_site b" "bench_site b5 = bench_site b" by (simp_all add: b3_def b4_def b5_def)
  have l1: "state_get l1 = state_get file" by (simp add: l1_def state_get_clear_fun)
  show ?thesis
  proof (cases "rw \<and> project \<noteq> None")
    case False
    with assms(1) None have "t = finish_teardown b4 l1"
      by (auto simp: runTeardownBackground_def Let_def b4_def b3_def l1_def split: prod.splits)
    with finished_agrees [OF site(1) l1] False show ?thesis by auto
  next
    case True
    obtain es5 thrown lo where rs: "remove_step env b5 = (es5, thrown, lo)" by (cases "remove_step env b5")
    show ?thesis
    proof (cases thrown)
      case None
      with assms(1) True rs \<open>terminals_error env = None\<close> have "t = finish_teardown b5 l1"
        by (auto simp: runTeardownBackground_def Let_def b5_def b4_def b3_def l1_def split: prod.splits)
      moreover have "workspace_removed (td_disk env) b"
        using remove_step_ok [OF rs [unfolded None]] workspace_removed_cong [OF site(2)] by simp
      ultimately show ?thesis using finished_agrees [OF site(2) l1] by simp
    next
      case (Some m)
      with assms(1) True rs None have "t = (Some (fst (teardown_failed env m lo (b5, l1))), snd (teardown_failed env m lo (b5, l1)))"
        by (auto simp: runTeardownBackground_def Let_def b5_def b4_def b3_def l1_def split: prod.splits)
      with failed_agrees [OF site(2) l1 assms(2)] show ?thesis by simp
    qed
  qed
qed

subsection \<open>The ledger after a forced unregister\<close>

lemma release_run: "releaseComposeProjectFromLedger i c l =
    fold run_ledger (map (\<lambda>e. Remove_compose (owner_plugin e) i c)
      (filter (\<lambda>e. owner_bench e = i \<and> c \<in> set (composeProjects e)) (entries_of l))) l"
proof -
  have "fold (\<lambda>e st. if owner_bench e = i \<and> c \<in> set (composeProjects e) then removeComposeProject (owner_plugin e) i c st else st) es t
      = fold run_ledger (map (\<lambda>e. Remove_compose (owner_plugin e) i c)
          (filter (\<lambda>e. owner_bench e = i \<and> c \<in> set (composeProjects e)) es)) t"
    for es t by (induction es arbitrary: t) simp_all
  then show ?thesis by (simp add: releaseComposeProjectFromLedger_def getAllEntries_def)
qed

lemma spec_removes:
  "fold spec_ledger (map (\<lambda>e. Remove_compose (owner_plugin e) i c) es) (ps, cs) = (ps, cs - (\<lambda>e. (owner_plugin e, i, c)) ` set es)"
  by (induction es arbitrary: ps cs) auto

lemma release_owned:
  assumes "ledger_wf (entries_of l)"
  shows "owned_procs (releaseComposeProjectFromLedger i c l) = owned_procs l
    \<and> owned_composes (releaseComposeProjectFromLedger i c l) = {(p, b, x) \<in> owned_composes l. (b, x) \<noteq> (i, c)}"
proof -
  let ?es = "filter (\<lambda>e. owner_bench e = i \<and> c \<in> set (composeProjects e)) (entries_of l)"
  have "(owned_procs (releaseComposeProjectFromLedger i c l), owned_composes (releaseComposeProjectFromLedger i c l))
      = (owned_procs l, owned_composes l - (\<lambda>e. (owner_plugin e, i, c)) ` set ?es)"
    using run_ledgers_spec [OF assms, of "map (\<lambda>e. Remove_compose (owner_plugin e) i c) ?es"]
    by (simp add: release_run owned_of_def spec_removes)
  then show ?thesis by (auto simp: composes_in_def)
qed

subsection \<open>Properties\<close>


definition sample_disk :: disk where
  "sample_disk = \<lparr>realpath_of = (\<lambda>p. Some p), cwd_of_server = ''/'', dir_names = (\<lambda>p. None), text_of = (\<lambda>p. None),
     exists_on_disk = (\<lambda>p. False), rm_error = (\<lambda>p. None),
     git_run = (\<lambda>args. \<lparr>cmd_code = (if hd args = ''branch'' then 1 else 0), cmd_stdout = [], cmd_stderr = ''locked''\<rparr>)\<rparr>"

definition sample_teardown :: teardown_env where
  "sample_teardown = \<lparr>td_stop = sample_stop, td_disk = sample_disk, terminals_error = None, fresh_id = ''n'', now_of = ''t''\<rparr>"


text \<open>
  Removing a bench's worktree deletes by hand only the workspace itself, or, when git would not remove
  it and the caller does not insist on git, an admin directory whose own record names the workspace.
  With a caller that insists, the workspace is deleted by hand only if git lists no worktree there.
\<close>

theorem removal_touches_only_its_own:
  assumes "removeBenchWorktree d checked ws = (es, r)" and "Removed_tree p \<in> set es"
  shows "(p = ws \<or> \<not> checked \<and> (\<exists>c a w. a \<in> set (listAdminDirs d c) \<and> admin_path a = p \<and> admin_worktree a = Some w
        \<and> canonicalPath d w = canonicalPath d ws))
    \<and> (checked \<longrightarrow> p = ws \<and> cmd_code (git_run d worktree_list_args) = 0 \<and> registered_at d ws = None)"
  using assms(1)
proof (cases rule: removeBenchWorktree_cases)
  case none
  with assms(2) show ?thesis by (auto split: if_splits)
next
  case (thrown target es1 m)
  with assms(2) removeThroughGit_removed [OF thrown(1)] show ?thesis by auto
next
  case (git target es1 g)
  have "checked \<Longrightarrow> g" using git(1) removeThroughGit_checked by metis
  with git assms(2) removeThroughGit_removed [OF git(1)] show ?thesis by (auto split: if_splits)
qed

definition orphan_disk :: disk where
  "orphan_disk = sample_disk\<lparr>exists_on_disk := (\<lambda>p. True)\<rparr>"

theorem removal_touches_only_its_own_witness:
  "\<exists>es r. removeBenchWorktree orphan_disk True ''/w/a'' = (es, r) \<and> Removed_tree ''/w/a'' \<in> set es
     \<and> registered_at orphan_disk ''/w/a'' = None"
proof -
  obtain es r where e: "removeBenchWorktree orphan_disk True ''/w/a'' = (es, r)" "Removed_tree ''/w/a'' \<in> set es"
    by (simp add: removeBenchWorktree_def orphan_disk_def sample_disk_def worktree_list_args_def parseWorktreeList_def
        findWorktreeEntry_def worktree_line_def starts_with_def Let_def)
  from removal_touches_only_its_own [OF e] e show ?thesis by blast
qed

text \<open>
  A forced unregister drops the bench's compose project from the ledger whatever docker answers, and
  nothing else: a failed \<open>compose down\<close> is not noticed, so its containers stay up with no row that
  the startup sweep could find them by.
\<close>

theorem unregister_forgets_failed_down:
  assumes "ledger_wf (entries_of l)"
    and "stopBenchForUnregister env projectId i ws names l = (es, l')"
  shows "(\<forall>p. (p, i, getComposeProjectName projectId i) \<notin> owned_composes l')
    \<and> owned_procs l' = owned_procs l
    \<and> (\<forall>p b x. (b, x) \<noteq> (i, getComposeProjectName projectId i) \<longrightarrow>
         ((p, b, x) \<in> owned_composes l' \<longleftrightarrow> (p, b, x) \<in> owned_composes l))"
proof -
  have "l' = releaseComposeProjectFromLedger i (getComposeProjectName projectId i) l"
    using assms(2) by (simp add: stopBenchForUnregister_def Let_def down_outcome_def list_ex_iff)
  with release_owned [OF assms(1), of i "getComposeProjectName projectId i"] show ?thesis by auto
qed

definition failing_docker :: unregister_env where
  "failing_docker = \<lparr>un_teardown = sample_teardown, docker_run = (\<lambda>c. \<lparr>cmd_code = 1, cmd_stdout = [], cmd_stderr = ''no daemon''\<rparr>)\<rparr>"

theorem unregister_forgets_failed_down_witness:
  "(''docker'', 1, getComposeProjectName ''a'' 1)
     \<notin> owned_composes (snd (stopBenchForUnregister failing_docker ''a'' 1 ''/w/a'' [''db'']
          (recordComposeProject ''docker'' 1 (getComposeProjectName ''a'' 1) None)))"
proof -
  let ?l = "recordComposeProject ''docker'' 1 (getComposeProjectName ''a'' 1) None"
  obtain es l' where r: "stopBenchForUnregister failing_docker ''a'' 1 ''/w/a'' [''db''] ?l = (es, l')"
    by (cases "stopBenchForUnregister failing_docker ''a'' 1 ''/w/a'' [''db''] ?l")
  have "ledger_wf (entries_of None)" by (simp add: entries_of_def loadState_def)
  then have "ledger_wf (entries_of ?l)" using run_ledger_wf [of None "Record_compose _ _ _"] by simp
  from unregister_forgets_failed_down [OF this r, THEN conjunct1] r show ?thesis by simp
qed

end
