(* ===== verification/ComponentLogs.thy ===== *)
theory ComponentLogs
  imports Processes Canonical
begin

section \<open>The log store of components\<close>

text \<open>
  \<open>server/services/component-log-store.ts\<close>: the lines pushed for a component, kept per project, bench
  and component with a non-decreasing time stamp, no repeat of the last line, and a cap. Time stamps
  are compared as strings, as the source does.
\<close>

type_synonym log_store = "log_line list jmap"

definition log_key :: "string \<Rightarrow> int \<Rightarrow> string \<Rightarrow> string" where
  "log_key projectId benchId name = projectId @ '':'' @ int_str benchId @ '':'' @ name"

definition append_line :: "log_line \<Rightarrow> log_line list \<Rightarrow> log_line list" where
  "append_line line ls =
     (if ls = [] then [line]
      else
        (let ts = (if line_ts (last ls) > line_ts line then line_ts (last ls) else line_ts line) in
         if line_source (last ls) = line_source line \<and> line_text (last ls) = line_text line \<and> line_ts (last ls) = ts
         then ls
         else (let ls' = ls @ [line\<lparr>line_ts := ts\<rparr>] in if length ls' > MAX_LOG_LINES then tl ls' else ls')))"

definition appendComponentLog :: "string \<Rightarrow> int \<Rightarrow> string \<Rightarrow> log_line \<Rightarrow> log_store \<Rightarrow> log_store" where
  "appendComponentLog projectId benchId name line m =
     (let k = log_key projectId benchId name in jput k (append_line line (coalesce (map_of m k) [])) m)"

definition getComponentLogLines :: "string \<Rightarrow> int \<Rightarrow> string \<Rightarrow> nat \<Rightarrow> log_store \<Rightarrow> log_line list" where
  "getComponentLogLines projectId benchId name tail m =
     (case map_of m (log_key projectId benchId name) of None \<Rightarrow> [] | Some ls \<Rightarrow> slice_tail tail ls)"

definition hasComponentLogs :: "string \<Rightarrow> int \<Rightarrow> string \<Rightarrow> log_store \<Rightarrow> bool" where
  "hasComponentLogs projectId benchId name m = jhas m (log_key projectId benchId name)"

definition clearComponentLogs :: "string \<Rightarrow> int \<Rightarrow> string \<Rightarrow> log_store \<Rightarrow> log_store" where
  "clearComponentLogs projectId benchId name m = jdel (log_key projectId benchId name) m"

definition clearComponentLogsForBench :: "string \<Rightarrow> int \<Rightarrow> log_store \<Rightarrow> log_store" where
  "clearComponentLogsForBench projectId benchId m =
     filter (\<lambda>(k, ls). \<not> starts_with (projectId @ '':'' @ int_str benchId @ '':'') k) m"

subsection \<open>Runs\<close>

datatype log_op =
    Append_log string int string log_line
  | Clear_log string int string
  | Clear_bench_logs string int

fun run_log :: "log_op \<Rightarrow> log_store \<Rightarrow> log_store" where
  "run_log (Append_log p i n l) m = appendComponentLog p i n l m"
| "run_log (Clear_log p i n) m = clearComponentLogs p i n m"
| "run_log (Clear_bench_logs p i) m = clearComponentLogsForBench p i m"

definition log_same :: "log_line \<Rightarrow> log_line \<Rightarrow> bool" where
  "log_same a b \<longleftrightarrow> line_source a = line_source b \<and> line_text a = line_text b \<and> line_ts a = line_ts b"

fun no_repeat :: "log_line list \<Rightarrow> bool" where
  "no_repeat (a # b # ls) = (\<not> log_same a b \<and> no_repeat (b # ls))"
| "no_repeat ls = True"

definition log_ok :: "log_line list \<Rightarrow> bool" where
  "log_ok ls \<longleftrightarrow> length ls \<le> MAX_LOG_LINES \<and> sorted (map line_ts ls) \<and> no_repeat ls"

lemma no_repeat_snoc: "no_repeat ls \<Longrightarrow> (ls \<noteq> [] \<Longrightarrow> \<not> log_same (last ls) l) \<Longrightarrow> no_repeat (ls @ [l])"
  by (induction ls rule: no_repeat.induct) auto

lemma no_repeat_tl: "no_repeat ls \<Longrightarrow> no_repeat (tl ls)"
  by (cases ls rule: no_repeat.cases) auto

lemma sorted_le_last: "sorted ts \<Longrightarrow> x \<in> set ts \<Longrightarrow> x \<le> last ts"
  for ts :: "string list"
  by (induction ts) (auto split: if_splits)

lemma sorted_snoc: "sorted ts \<Longrightarrow> (ts \<noteq> [] \<Longrightarrow> last ts \<le> t) \<Longrightarrow> sorted (ts @ [t])"
  for ts :: "string list"
  using sorted_le_last [of ts] by (cases "ts = []") (auto simp: sorted_append intro: order_trans [of _ "last ts" t])

lemma append_line_ok: "log_ok ls \<Longrightarrow> log_ok (append_line l ls)"
proof (cases "ls = []")
  case True
  then show ?thesis by (simp add: append_line_def log_ok_def MAX_LOG_LINES_def)
next
  case False
  assume ok: "log_ok ls"
  define ts where "ts = (if line_ts (last ls) > line_ts l then line_ts (last ls) else line_ts l)"
  have le: "line_ts (last ls) \<le> ts" by (auto simp: ts_def)
  let ?l = "l\<lparr>line_ts := ts\<rparr>"
  have eq: "append_line l ls = (if log_same (last ls) ?l then ls
      else if length (ls @ [?l]) > MAX_LOG_LINES then tl (ls @ [?l]) else ls @ [?l])"
    using False unfolding append_line_def Let_def ts_def [symmetric] log_same_def by simp
  show ?thesis
  proof (cases "log_same (last ls) ?l")
    case True
    with ok eq show ?thesis by simp
  next
    case new: False
    then have a: "append_line l ls = (if length (ls @ [?l]) > MAX_LOG_LINES then tl (ls @ [?l]) else ls @ [?l])"
      using eq by simp
    have s: "sorted (map line_ts (ls @ [?l]))"
      using ok le False sorted_snoc [of "map line_ts ls" ts] by (simp add: log_ok_def last_map)
    moreover have n: "no_repeat (ls @ [?l])" using ok new by (intro no_repeat_snoc) (simp_all add: log_ok_def)
    moreover have "sorted (map line_ts (tl (ls @ [?l])))" using s sorted_tl [of "map line_ts (ls @ [?l])"] by (simp add: map_tl)
    ultimately show ?thesis unfolding a using ok no_repeat_tl [OF n] by (simp add: log_ok_def)
  qed
qed

definition log_store_ok :: "log_store \<Rightarrow> bool" where
  "log_store_ok m \<longleftrightarrow> jwf m \<and> (\<forall>k ls. map_of m k = Some ls \<longrightarrow> log_ok ls)"

lemma log_store_ok_op: "log_store_ok m \<Longrightarrow> log_store_ok (run_log op m)"
proof (cases op)
  case (Append_log p i n l)
  assume m: "log_store_ok m"
  have "log_ok (coalesce (map_of m k) [])" for k using m by (cases "map_of m k") (simp_all add: log_store_ok_def log_ok_def)
  with m show ?thesis by (simp add: Append_log appendComponentLog_def Let_def log_store_ok_def append_line_ok)
next
  case (Clear_log p i n)
  assume "log_store_ok m"
  then show ?thesis by (auto simp: Clear_log clearComponentLogs_def log_store_ok_def jm.ok_del jm.get_del split: if_splits)
next
  case (Clear_bench_logs p i)
  assume m: "log_store_ok m"
  have "jwf (filter q m)" for q using m by (simp add: log_store_ok_def distinct_map_filter)
  moreover have "map_of (filter q m) k = Some ls \<Longrightarrow> map_of m k = Some ls" for q k ls
    using m by (metis (no_types, lifting) log_store_ok_def filter_is_subset map_of_SomeD map_of_is_SomeI subsetD)
  ultimately have "log_store_ok (filter q m)" for q using m unfolding log_store_ok_def by blast
  then show ?thesis unfolding Clear_bench_logs run_log.simps clearComponentLogsForBench_def .
qed

lemma no_repeat_drop: "no_repeat ls \<Longrightarrow> no_repeat (drop k ls)"
  by (induction k arbitrary: ls) (simp_all add: drop_Suc no_repeat_tl)

interpretation component_logs: step_system run_log log_store_ok
  by unfold_locales (rule log_store_ok_op)

subsection \<open>Properties\<close>

text \<open>
  However lines are pushed and logs are cleared, what is read for a component is at most the cap of
  lines, in an order in which time stamps never decrease, and no line repeats the one before it;
  and nothing is read for a component of a bench whose logs were just cleared.
\<close>

theorem component_logs_bounded:
  shows "length (getComponentLogLines p i n tail (fold run_log ops [])) \<le> MAX_LOG_LINES
    \<and> sorted (map line_ts (getComponentLogLines p i n tail (fold run_log ops [])))
    \<and> no_repeat (getComponentLogLines p i n tail (fold run_log ops []))
    \<and> getComponentLogLines p i n tail (clearComponentLogsForBench p i (fold run_log ops [])) = []"
proof -
  have m: "log_store_ok (fold run_log ops [])" by (rule component_logs.inv_run) (simp add: log_store_ok_def)
  have "map_of (clearComponentLogsForBench p i m) (log_key p i n) = None" for m
    by (auto simp: map_of_eq_None_iff clearComponentLogsForBench_def log_key_def starts_with_def)
  moreover have "log_ok ls \<Longrightarrow> length (slice_tail tail ls) \<le> MAX_LOG_LINES \<and> sorted (map line_ts (slice_tail tail ls))
      \<and> no_repeat (slice_tail tail ls)" for ls
    by (auto simp: slice_tail_def log_ok_def drop_map [symmetric] sorted_wrt_drop no_repeat_drop)
  ultimately show ?thesis using m
    by (auto simp: getComponentLogLines_def log_store_ok_def split: option.split)
qed

end
