(* ===== verification/BenchWatch.thy ===== *)
theory BenchWatch
  imports Teardown ComponentLogs
begin

section \<open>Watching benches: refresh, plugin crashes, assigned containers\<close>

text \<open>
  The parts of \<open>server/services/bench-manager.ts\<close> that act on many benches or outside a start and a
  stop: the reconciliation at boot and the periodic refresh of component states, the three hooks of
  a crashed component plugin, the startup sweep, the assignment of an external container, the focused
  spec of a TestBench and the logs of a component. What docker, the processes and a plugin's health
  hook answer, and the descriptor of a component, are parameters.
\<close>

record watch_env =
  w_project :: "string \<Rightarrow> registered_project option"
  w_stop :: "string \<Rightarrow> stop_env"
  w_descriptor :: "string \<Rightarrow> int \<Rightarrow> string \<Rightarrow> provision_descriptor option"
  w_containers :: "container list option"
  w_processes :: process_state
  w_health :: "string \<Rightarrow> int \<Rightarrow> string \<Rightarrow> json option"
  w_disk :: disk
  w_worktrees :: "string \<Rightarrow> command_result"
  w_url :: url_parser

definition w_config :: "watch_env \<Rightarrow> bench \<Rightarrow> roubo_config option" where
  "w_config env b = Option.bind (w_project env (bench_project b)) config"

definition plugin_of :: "watch_env \<Rightarrow> bench \<Rightarrow> string \<Rightarrow> string option" where
  "plugin_of env b name = bound_plugin (w_stop env (bench_project b)) name"

definition imperative_component :: "watch_env \<Rightarrow> bench \<Rightarrow> string \<Rightarrow> bool" where
  "imperative_component env b name =
     (case plugin_of env b name of None \<Rightarrow> False | Some p \<Rightarrow> is_imperative (w_stop env (bench_project b)) p)"

subsection \<open>Refreshing component states\<close>

definition docker_queries ::
    "watch_env \<Rightarrow> (bench \<Rightarrow> string \<Rightarrow> bool) \<Rightarrow> bench list \<Rightarrow> (string \<times> string) list" where
  "docker_queries env wanted bs =
     concat (map (\<lambda>b. case w_config env b of
         None \<Rightarrow> []
       | Some c \<Rightarrow> List.map_filter (\<lambda>name.
           if wanted b name
           then map_option (\<lambda>d. (getComposeProjectName (bench_project b) (bench_id b), service d))
                  (docker_of (w_descriptor env (bench_project b) (bench_id b) name))
           else None) (jkeys (cfg_components c))) bs)"

definition container_entry ::
    "(container_status \<times> string option) jmap \<Rightarrow> bench \<Rightarrow> docker_descriptor \<Rightarrow> container_status \<times> string option" where
  "container_entry statuses b d =
     coalesce (map_of statuses (query_key (getComposeProjectName (bench_project b) (bench_id b), service d))) (C_not_found, None)"

definition refresh_docker :: "container_status \<times> string option \<Rightarrow> component_status \<Rightarrow> component_status" where
  "refresh_docker entry c =
     (case fst entry of
        C_running \<Rightarrow> c\<lparr>comp_status := Running, containerId := snd entry\<rparr>
      | C_starting \<Rightarrow> c\<lparr>comp_status := Starting\<rparr>
      | C_unhealthy \<Rightarrow> c\<lparr>comp_status := Stopped, containerId := None, comp_error := Some ''Container health check failed''\<rparr>
      | _ \<Rightarrow> if comp_status c = Running then c\<lparr>comp_status := Stopped, containerId := None\<rparr> else c)"

definition refresh_process :: "bool \<times> int option \<Rightarrow> component_status \<Rightarrow> component_status" where
  "refresh_process p c =
     (if fst p \<and> comp_status c = Starting then c\<lparr>comp_status := Running\<rparr>
      else if \<not> fst p \<and> (comp_status c = Running \<or> comp_status c = Starting)
      then c\<lparr>comp_status := Stopped,
             comp_error := (case snd p of Some code \<Rightarrow> if code \<noteq> 0 then Some (''Exited with code '' @ int_str code) else None
                            | None \<Rightarrow> None)\<rparr>
      else c)"

definition component_state_of :: "string \<Rightarrow> component_state option" where
  "component_state_of s =
     map_of [(''stopped'', Stopped), (''starting'', Starting), (''running'', Running), (''error'', Errored),
             (''stopping'', Stopping), (''completed'', Completed)] s"

definition refresh_health :: "json option \<Rightarrow> component_status \<Rightarrow> component_status" where
  "refresh_health answer c =
     (case answer of
        Some (JObj ob) \<Rightarrow>
          (case map_of ob ''status'' of
             Some (JStr s) \<Rightarrow>
               (case component_state_of s of
                  Some st \<Rightarrow> c\<lparr>comp_status := st, comp_error := (if st = Errored then comp_error c else None)\<rparr>
                | None \<Rightarrow> c)
           | _ \<Rightarrow> c)
      | _ \<Rightarrow> c)"

text \<open>Errors, stops and launches in progress are left alone.\<close>

definition refresh_component ::
    "watch_env \<Rightarrow> (container_status \<times> string option) jmap \<Rightarrow> string \<Rightarrow> bench \<Rightarrow> bench" where
  "refresh_component env statuses name b =
     (case map_of (bench_components b) name of
        None \<Rightarrow> b
      | Some c \<Rightarrow>
          if comp_status c = Errored \<or> comp_status c = Stopping \<or> truthy (startedAt c) then b
          else (case docker_of (w_descriptor env (bench_project b) (bench_id b) name) of
                  Some d \<Rightarrow> on_component name (refresh_docker (container_entry statuses b d)) b
                | None \<Rightarrow>
                    (case plugin_of env b name of
                       None \<Rightarrow> b
                     | Some p \<Rightarrow>
                         if imperative_component env b name
                         then on_component name (refresh_health (w_health env (bench_project b) (bench_id b) name)) b
                         else on_component name
                           (refresh_process (getProcessStatus (engine_process_id p (bench_id b) name) (w_processes env))) b)))"

definition refreshComponentStatuses :: "watch_env \<Rightarrow> bench_map \<Rightarrow> bench_map" where
  "refreshComponentStatuses env bm =
     (let queries = docker_queries env
            (\<lambda>b name. \<not> imperative_component env b name \<and> map_of (bench_components b) name \<noteq> None) (jvals bm);
          statuses = (if queries \<noteq> [] then getContainerStatuses (w_containers env) queries else [])
      in map (\<lambda>(k, b). (k, case w_config env b of
             None \<Rightarrow> b
           | Some c \<Rightarrow> updateBenchStatus (fold (refresh_component env statuses) (jkeys (cfg_components c)) b))) bm)"

subsection \<open>Reconciling at boot\<close>

text \<open>The error of a bench whose workspace is missing or not tracked by git.\<close>

definition workspace_problem :: "watch_env \<Rightarrow> bench \<Rightarrow> string option" where
  "workspace_problem env b =
     (if \<not> exists_on_disk (w_disk env) (workspacePath b) then Some ''Workspace directory not found''
      else
        (case w_project env (bench_project b) of
           None \<Rightarrow> None
         | Some p \<Rightarrow>
             (let listed = w_worktrees env (repoPath p);
                  out = (if cmd_code listed = 0 then cmd_stdout listed else [])
              in if config p \<noteq> None \<and> out \<noteq> [] \<and> findWorktreeEntry (w_disk env) (parseWorktreeList out) (workspacePath b) = None
                 then Some ''Worktree directory exists but is not tracked by git: use Cleanup & Retry to fix''
                 else None)))"

definition fresh_status :: "string \<Rightarrow> component_state \<Rightarrow> component_status" where
  "fresh_status name st = \<lparr>comp_name = name, comp_status = st, pid = None, containerId = None, comp_error = None,
     statusDetail = None, statusDetailStartedAt = None, startedAt = None, comp_phases = None, comp_url = None,
     setupComplete = True\<rparr>"

definition put_component :: "string \<Rightarrow> component_state \<Rightarrow> (component_status \<Rightarrow> component_status) \<Rightarrow> bench \<Rightarrow> bench" where
  "put_component name st f b =
     (case map_of (bench_components b) name of
        Some c \<Rightarrow> on_component name (\<lambda>c. f (c\<lparr>comp_status := st\<rparr>)) b
      | None \<Rightarrow> b\<lparr>bench_components := jput name (f (fresh_status name st)) (bench_components b)\<rparr>)"

definition reconcile_component ::
    "watch_env \<Rightarrow> (container_status \<times> string option) jmap \<Rightarrow> string \<Rightarrow> bench \<Rightarrow> bench" where
  "reconcile_component env statuses name b =
     (case docker_of (w_descriptor env (bench_project b) (bench_id b) name) of
        Some d \<Rightarrow>
          (let (st, cid) = container_entry statuses b d;
               new_status = (if st = C_running then Running else if st = C_starting then Starting else Stopped)
           in put_component name new_status (\<lambda>c. c\<lparr>containerId := (if new_status = Running then cid else None)\<rparr>) b)
      | None \<Rightarrow>
          (case plugin_of env b name of
             None \<Rightarrow> b
           | Some p \<Rightarrow>
               (let i = engine_process_id p (bench_id b) name in
                if fst (getProcessStatus i (w_processes env))
                then put_component name Running (\<lambda>c. c\<lparr>pid := getProcessPid i (w_processes env)\<rparr>) b
                else b)))"

definition reconcile_bench ::
    "watch_env \<Rightarrow> (container_status \<times> string option) jmap \<Rightarrow> bench \<Rightarrow> bench" where
  "reconcile_bench env statuses b =
     (if \<not> isBenchOperable b then b
      else case workspace_problem env b of
        Some message \<Rightarrow> b\<lparr>bench_status := Bench_error, bench_error := Some message\<rparr>
      | None \<Rightarrow>
          (case w_config env b of
             None \<Rightarrow> b
           | Some c \<Rightarrow> updateBenchStatus (fold (reconcile_component env statuses) (jkeys (cfg_components c)) b)))"

definition reconcileBenches :: "watch_env \<Rightarrow> bench_map \<Rightarrow> bench_map" where
  "reconcileBenches env bm =
     (let valid = filter (\<lambda>b. isBenchOperable b \<and> workspace_problem env b = None) (jvals bm);
          queries = docker_queries env (\<lambda>b name. True) valid;
          statuses = (if queries \<noteq> [] then getContainerStatuses (w_containers env) queries else [])
      in map (\<lambda>(k, b). (k, reconcile_bench env statuses b)) bm)"

subsection \<open>A crashed component plugin\<close>

text \<open>
  Handles of components to recover are kept per plugin; a handle is the bench number and the component
  name.
\<close>

definition recoveryHandle :: "int \<Rightarrow> string \<Rightarrow> string" where
  "recoveryHandle benchId name = int_str benchId @ '':'' @ name"

definition binds_plugin :: "string \<Rightarrow> component_config \<Rightarrow> bool" where
  "binds_plugin pluginId cc = (map_option plugin_id (plugin cc) = Some pluginId)"

text \<open>The components a crash of the plugin concerns, and those it can restart: not of a busy bench.\<close>

definition plugin_components :: "watch_env \<Rightarrow> string \<Rightarrow> bench \<Rightarrow> string list" where
  "plugin_components env pluginId b =
     (if bench_status b = Clearing \<or> bench_status b = Preparing then []
      else case w_config env b of
        None \<Rightarrow> [] | Some c \<Rightarrow> map fst (filter (\<lambda>(name, cc). binds_plugin pluginId cc) (cfg_components c)))"

definition was_up :: "bench \<Rightarrow> string \<Rightarrow> bool" where
  "was_up b name = (case map_of (bench_components b) name of
     None \<Rightarrow> False | Some c \<Rightarrow> comp_status c = Running \<or> comp_status c = Starting)"

text \<open>A push of an error: the fields it leaves out keep what the component had.\<close>

definition error_push :: "string \<Rightarrow> component_status \<Rightarrow> string \<Rightarrow> string option \<Rightarrow> component_status" where
  "error_push name cur err detail =
     \<lparr>comp_name = name, comp_status = Errored, pid = None, containerId = None, comp_error = Some err,
      statusDetail = (case detail of None \<Rightarrow> statusDetail cur | Some d \<Rightarrow> Some d), statusDetailStartedAt = None,
      startedAt = None, comp_phases = comp_phases cur, comp_url = None, setupComplete = setupComplete cur\<rparr>"

definition crash_component ::
    "watch_env \<Rightarrow> string \<Rightarrow> string list \<times> bench_state \<Rightarrow> string list \<times> bench_state" where
  "crash_component env name s =
     (let (recovery, b, file) = s in
      case map_of (bench_components b) name of
        None \<Rightarrow> s
      | Some c \<Rightarrow>
          if comp_status c = Running \<or> comp_status c = Starting
          then (recovery @ [recoveryHandle (bench_id b) name],
                reportStatus (w_url env) (error_push name c ''Component plugin crashed'' None) (b, file))
          else s)"

text \<open>One pass over the benches, with what it accumulates and the state file threaded through.\<close>

fun each_bench :: "('a \<times> bench_state \<Rightarrow> 'a \<times> bench_state) \<Rightarrow> bench_map \<Rightarrow> 'a \<Rightarrow> persisted_state option
    \<Rightarrow> 'a \<times> bench_map \<times> persisted_state option" where
  "each_bench f [] acc file = (acc, [], file)"
| "each_bench f ((k, b) # bm) acc file =
     (let (acc1, b1, file1) = f (acc, b, file); (acc2, bm2, file2) = each_bench f bm acc1 file1
      in (acc2, (k, b1) # bm2, file2))"

definition reap_entry :: "watch_env \<Rightarrow> ledger_entry \<Rightarrow> stop_event list" where
  "reap_entry env e = map Stopped_process (processIds e)
     @ map (\<lambda>c. Ran_docker (composeDownByProject (cwd_of_server (w_disk env)) c)) (composeProjects e)"

definition handleComponentPluginPreRestart ::
    "watch_env \<Rightarrow> string \<Rightarrow> string list \<Rightarrow> bench_map \<Rightarrow> persisted_state option
      \<Rightarrow> string list \<times> stop_event list \<times> bench_map \<times> persisted_state option" where
  "handleComponentPluginPreRestart env pluginId pending bm file =
     (let (recovery, bm1, file1) = each_bench
            (\<lambda>s. fold (crash_component env) (plugin_components env pluginId (fst (snd s))) s) bm pending file;
          entries = filter (\<lambda>e. owner_plugin e = pluginId) (getAllEntries file1)
      in (recovery, concat (map (reap_entry env) entries), bm1,
          fold (\<lambda>e. clearEntry (owner_plugin e) (owner_bench e)) entries file1))"

definition relaunch ::
    "(bench \<Rightarrow> string \<Rightarrow> bench_state \<Rightarrow> (string + unit) \<times> bench_state) \<Rightarrow> string list \<Rightarrow> string
      \<Rightarrow> (string \<times> int \<times> string) list \<times> bench_state \<Rightarrow> (string \<times> int \<times> string) list \<times> bench_state" where
  "relaunch launch pending name s =
     (let (done_list, b, file) = s in
      if was_up b name \<or> recoveryHandle (bench_id b) name \<in> set pending
      then (done_list @ [(bench_project b, bench_id b, name)], snd (launch b name (b, file)))
      else s)"

definition handleComponentPluginRestarted ::
    "watch_env \<Rightarrow> (bench \<Rightarrow> string \<Rightarrow> bench_state \<Rightarrow> (string + unit) \<times> bench_state) \<Rightarrow> string \<Rightarrow> string list
      \<Rightarrow> bench_map \<Rightarrow> persisted_state option \<Rightarrow> (string \<times> int \<times> string) list \<times> bench_map \<times> persisted_state option" where
  "handleComponentPluginRestarted env launch pluginId pending bm file =
     each_bench (\<lambda>s. fold (relaunch launch pending) (plugin_components env pluginId (fst (snd s))) s) bm [] file"

definition exhaust_component ::
    "watch_env \<Rightarrow> string \<Rightarrow> string \<Rightarrow> string \<Rightarrow> unit \<times> bench_state \<Rightarrow> unit \<times> bench_state" where
  "exhaust_component env nid now name s =
     (let (u, b, file) = s in
      case map_of (bench_components b) name of
        None \<Rightarrow> s
      | Some c \<Rightarrow>
          if comp_status c = Running \<or> comp_status c = Starting \<or> comp_status c = Errored
          then (u, createNotification True nid now ''component-error'' None
                  \<lparr>pl_metadata = None, pl_failure = None, pl_exit = None\<rparr>
                  (reportStatus (w_url env) (error_push name c (coalesce (comp_error c) ''restart-budget-exhausted'')
                     (Some ''Component plugin exceeded its restart budget; auto-restart disabled. Click Restart to retry.''))
                     (b, file)))
          else s)"

definition handleComponentPluginBudgetExhausted ::
    "watch_env \<Rightarrow> string \<Rightarrow> string \<Rightarrow> string \<Rightarrow> bench_map \<Rightarrow> persisted_state option \<Rightarrow> bench_map \<times> persisted_state option" where
  "handleComponentPluginBudgetExhausted env nid now pluginId bm file =
     snd (each_bench (\<lambda>s. fold (exhaust_component env nid now) (plugin_components env pluginId (fst (snd s))) s) bm () file)"

definition sweep_commands :: "disk \<Rightarrow> ledger_entry list \<Rightarrow> docker_command list" where
  "sweep_commands d es =
     map (composeDownByProject (cwd_of_server d)) (filter (starts_with ''roubo-'') (concat (map composeProjects es)))"

definition sweepOrphanedComposeProjects ::
    "disk \<Rightarrow> persisted_state option \<Rightarrow> docker_command list \<times> persisted_state option" where
  "sweepOrphanedComposeProjects d file =
     (sweep_commands d (getAllEntries file),
      fold (\<lambda>e. clearEntry (owner_plugin e) (owner_bench e)) (getAllEntries file) file)"

subsection \<open>Assigned containers, the focused spec, logs\<close>

text \<open>The benches and the state file after an update of the bench under its key.\<close>

definition assigned_json :: "container_info \<Rightarrow> int \<Rightarrow> json" where
  "assigned_json i p = JObj [(''containerId'', JStr (info_id i)), (''containerName'', JStr (info_name i)), (''port'', JNum p)]"

definition assign_to :: "string \<Rightarrow> container_info \<Rightarrow> int \<Rightarrow> bench \<Rightarrow> bench" where
  "assign_to name i p b =
     on_component name (\<lambda>c. c\<lparr>comp_status := (if info_status i = ''running'' then Running else Stopped)\<rparr>)
       (b\<lparr>assignedContainers := Some (jput name (assigned_json i p) (coalesce (assignedContainers b) [])),
          bench_ports := jput name p (bench_ports b)\<rparr>)"

definition assignContainer ::
    "watch_env \<Rightarrow> bench option \<Rightarrow> string \<Rightarrow> string \<Rightarrow> persisted_state option \<Rightarrow> bench_failure + bench_state" where
  "assignContainer env found name cid file =
     (if name \<in> set PROTOTYPE_POLLUTING_KEYS then fail INVALID_COMPONENT (''Invalid component name '' @ quoted name)
      else case found of
        None \<Rightarrow> fail NOT_FOUND ''Bench not found''
      | Some b \<Rightarrow>
          (case w_config env b of
             None \<Rightarrow> fail PROJECT_NOT_FOUND ''Project config not found''
           | Some c \<Rightarrow>
               if js_get (cfg_components c) name = Absent
               then fail COMPONENT_NOT_FOUND (''Component '' @ quoted name @ '' not defined'')
               else
                 (case getContainerInfoById (w_containers env) cid of
                    None \<Rightarrow> fail CONTAINER_NOT_FOUND (''Container '' @ quoted cid @ '' not found'')
                  | Some i \<Rightarrow>
                      (case info_port i of
                         None \<Rightarrow> fail NO_PORT (''Container '' @ quoted cid @ '' has no published port'')
                       | Some p \<Rightarrow>
                           if p = 0 then fail NO_PORT (''Container '' @ quoted cid @ '' has no published port'')
                           else (let st = persist (assign_to name i p b, file) in Inr (updateBenchStatus (fst st), snd st))))))"

text \<open>A component without an allocated port gets \<open>undefined\<close>, which is not written.\<close>

definition unassign_from :: "string \<Rightarrow> int jmap \<Rightarrow> bench \<Rightarrow> bench" where
  "unassign_from name ports b =
     (let remaining = jdel name (coalesce (assignedContainers b) []) in
      on_component name set_stopped
        (b\<lparr>assignedContainers := (if remaining \<noteq> [] then Some remaining else None),
           bench_ports := (case map_of ports name of Some p \<Rightarrow> jput name p (bench_ports b) | None \<Rightarrow> jdel name (bench_ports b))\<rparr>))"

definition unassignContainer ::
    "watch_env \<Rightarrow> bench option \<Rightarrow> string \<Rightarrow> persisted_state option \<Rightarrow> bench_failure + bench_state" where
  "unassignContainer env found name file =
     (if name \<in> set PROTOTYPE_POLLUTING_KEYS then fail INVALID_COMPONENT (''Invalid component name '' @ quoted name)
      else case found of
        None \<Rightarrow> fail NOT_FOUND ''Bench not found''
      | Some b \<Rightarrow>
          (case w_config env b of
             None \<Rightarrow> fail PROJECT_NOT_FOUND ''Project config not found''
           | Some c \<Rightarrow>
               if \<not> has_assigned b name
               then fail NOT_ASSIGNED (''No container assigned to component '' @ quoted name)
               else (let st = persist (unassign_from name (allocatePorts c (bench_id b)) b, file)
                     in Inr (updateBenchStatus (fst st), snd st))))"

definition setFocusedSpecPath ::
    "manager_env \<Rightarrow> bench option \<Rightarrow> string \<Rightarrow> persisted_state option \<Rightarrow> bench_failure + bench_state" where
  "setFocusedSpecPath env found path file =
     (case found of
        None \<Rightarrow> fail NOT_FOUND ''Bench not found''
      | Some b \<Rightarrow>
          if variant b \<noteq> Some ''testbench'' then fail NOT_TESTBENCH ''Bench is not a testbench variant''
          else
            (case projects_of env (bench_project b) of
               None \<Rightarrow> fail PROJECT_NOT_FOUND (''Project '' @ quoted (bench_project b) @ '' not found'')
             | Some p \<Rightarrow>
                 if config p = None then fail PROJECT_NOT_FOUND (''Project '' @ quoted (bench_project b) @ '' not found'')
                 else (case resolveFocusedSpec env (repoPath p) path of
                         Inl why \<Rightarrow> fail INVALID_FOCUS (''Invalid focusedSpecPath: '' @ why)
                       | Inr r \<Rightarrow> Inr (persist (b\<lparr>focusedSpecPath := Some r\<rparr>, file)))))"

definition getComponentLogs ::
    "stop_env \<Rightarrow> log_store \<Rightarrow> process_state \<Rightarrow> string \<Rightarrow> int \<Rightarrow> string \<Rightarrow> nat \<Rightarrow> log_line list" where
  "getComponentLogs env logs procs projectId benchId name tail =
     (if hasComponentLogs projectId benchId name logs then getComponentLogLines projectId benchId name tail logs
      else getProcessLogLines (case bound_plugin env name of
             None \<Rightarrow> processId projectId benchId name | Some p \<Rightarrow> engine_process_id p benchId name) tail procs)"

subsection \<open>What a crash leaves\<close>

lemma report_without_url: "comp_url s = None \<Longrightarrow> snd (reportStatus p s st) = snd st"
  by (simp add: reportStatus_def Let_def)

lemma report_status_get: "map_of (bench_components (fst (reportStatus p s st))) k =
    (if k = comp_name s then map_of (bench_components (fst (reportStatus p s st))) k else map_of (bench_components (fst st)) k)"
  by (simp add: reportStatus_def Let_def)

definition bench_key_pair :: "bench \<Rightarrow> string \<times> int" where
  "bench_key_pair b = (bench_project b, bench_id b)"

lemma key_pair_kept [simp]:
  "bench_key_pair (updateBenchStatus b) = bench_key_pair b"
  "bench_key_pair (on_component n f b) = bench_key_pair b"
  "bench_key_pair (on_held ps n f b) = bench_key_pair b"
  "bench_key_pair (fst (persist st)) = bench_key_pair (fst st)"
  by (simp_all add: bench_key_pair_def on_held_def persist_def updateBenchStatus_def on_component_def Let_def)

lemma key_pair_report [simp]: "bench_key_pair (fst (reportStatus p s st)) = bench_key_pair (fst st)"
  by (simp add: reportStatus_def Let_def) (simp add: bench_key_pair_def persist_def)

lemma key_pair_pushes [simp]: "bench_key_pair (fst (fold (reportStatus p) ss st)) = bench_key_pair (fst st)"
  by (induction ss arbitrary: st) simp_all

lemma key_pair_engine [simp]: "bench_key_pair (fst (fold (engine_effect p) es st)) = bench_key_pair (fst st)"
proof (induction es arbitrary: st)
  case (Cons ev es)
  then show ?case by (cases ev) simp_all
qed simp

lemma key_pair_settle [simp]: "bench_key_pair (fst (settle_launch failed n st)) = bench_key_pair (fst st)"
  by (simp add: settle_launch_def Let_def split: option.split)

lemma key_pair_launch: "bench_key_pair (fst (snd (launchComponent env n st))) = bench_key_pair (fst st)"
  by (simp add: launchComponent_def provisionComponent_def provisionImperativeComponent_def Let_def case_prod_unfold
      split: sum.split option.split)

definition busy :: "bench \<Rightarrow> bool" where
  "busy b \<longleftrightarrow> bench_status b = Clearing \<or> bench_status b = Preparing"

lemma busy_report: "busy (fst (reportStatus p s st)) \<longleftrightarrow> busy (fst st)"
  by (auto simp: reportStatus_def busy_def updateBenchStatus_def persist_def Let_def)

lemma plugin_components_cong:
  "bench_key_pair b' = bench_key_pair b \<Longrightarrow> busy b' = busy b \<Longrightarrow> plugin_components env pl b' = plugin_components env pl b"
  by (auto simp: plugin_components_def bench_key_pair_def busy_def w_config_def)

lemma crash_component_facts:
  assumes "crash_component env name (recovery, b, l) = (recovery', b', l')"
  shows "l' = l \<and> bench_key_pair b' = bench_key_pair b \<and> busy b' = busy b \<and> set recovery \<subseteq> set recovery'
    \<and> (was_up b name \<longrightarrow> recoveryHandle (bench_id b) name \<in> set recovery') \<and> \<not> was_up b' name
    \<and> (\<forall>n. n \<noteq> name \<longrightarrow> was_up b' n = was_up b n)"
proof (cases "was_up b name")
  case True
  then obtain c where c: "map_of (bench_components b) name = Some c" "comp_status c = Running \<or> comp_status c = Starting"
    by (auto simp: was_up_def split: option.splits)
  let ?s = "error_push name c ''Component plugin crashed'' None"
  have e: "recovery' = recovery @ [recoveryHandle (bench_id b) name]" "(b', l') = reportStatus (w_url env) ?s (b, l)"
    using assms c by (auto simp: crash_component_def)
  then have r: "b' = fst (reportStatus (w_url env) ?s (b, l))" "l' = snd (reportStatus (w_url env) ?s (b, l))"
    by (metis fst_conv) (metis e(2) snd_conv)
  have n: "comp_name ?s = name" "comp_status ?s = Errored" "comp_url ?s = None" by (simp_all add: error_push_def)
  have "\<not> was_up b' name" using reportStatus_get [of "w_url env" ?s "(b, l)"] n by (auto simp: r(1) was_up_def)
  moreover have "was_up b' k = was_up b k" if "k \<noteq> name" for k
    using report_status_get [of "w_url env" ?s "(b, l)" k] n that by (simp add: r(1) was_up_def)
  ultimately show ?thesis using e(1) r report_without_url [OF n(3)] by (auto simp: busy_report)
next
  case False
  then have "(recovery', b', l') = (recovery, b, l)"
    using assms by (auto simp: crash_component_def was_up_def split: option.splits if_splits)
  with False show ?thesis by simp
qed

lemma crash_components_facts:
  "fold (crash_component env) names (recovery, b, l) = (recovery', b', l') \<Longrightarrow>
    l' = l \<and> bench_key_pair b' = bench_key_pair b \<and> busy b' = busy b \<and> set recovery \<subseteq> set recovery'
    \<and> (\<forall>n \<in> set names. (was_up b n \<longrightarrow> recoveryHandle (bench_id b) n \<in> set recovery') \<and> \<not> was_up b' n)
    \<and> (\<forall>n. was_up b' n \<longrightarrow> was_up b n)"
proof (induction names arbitrary: recovery b l)
  case (Cons name names)
  obtain r1 b1 l1 where one: "crash_component env name (recovery, b, l) = (r1, b1, l1)"
    by (cases "crash_component env name (recovery, b, l)")
  note f = crash_component_facts [OF one]
  from Cons.prems one have "fold (crash_component env) names (r1, b1, l1) = (recovery', b', l')" by simp
  from Cons.IH [OF this] f show ?case
    by (simp add: bench_key_pair_def) (metis subset_eq)
qed simp

definition crash_pass :: "watch_env \<Rightarrow> string \<Rightarrow> string list \<times> bench_state \<Rightarrow> string list \<times> bench_state" where
  "crash_pass env pl s = fold (crash_component env) (plugin_components env pl (fst (snd s))) s"

definition crashed_as :: "watch_env \<Rightarrow> string \<Rightarrow> string list \<Rightarrow> string \<times> bench \<Rightarrow> string \<times> bench \<Rightarrow> bool" where
  "crashed_as env pl recovery x y \<longleftrightarrow> fst y = fst x \<and> bench_key_pair (snd y) = bench_key_pair (snd x) \<and> busy (snd y) = busy (snd x)
     \<and> (\<forall>n \<in> set (plugin_components env pl (snd x)).
          (was_up (snd x) n \<longrightarrow> recoveryHandle (bench_id (snd x)) n \<in> set recovery) \<and> \<not> was_up (snd y) n)"

lemma crashed_as_mono: "crashed_as env pl r x y \<Longrightarrow> set r \<subseteq> set r' \<Longrightarrow> crashed_as env pl r' x y"
  by (auto simp: crashed_as_def)

lemma each_crash:
  "each_bench (crash_pass env pl) bm acc l = (acc', bm', l') \<Longrightarrow>
    l' = l \<and> set acc \<subseteq> set acc' \<and> list_all2 (crashed_as env pl acc') bm bm'"
proof (induction bm arbitrary: acc bm')
  case (Cons x bm)
  obtain k b where x: "x = (k, b)" by (cases x)
  obtain acc1 b1 l1 where one: "crash_pass env pl (acc, b, l) = (acc1, b1, l1)" by (cases "crash_pass env pl (acc, b, l)")
  from crash_components_facts [OF one [unfolded crash_pass_def fst_conv snd_conv]]
  have f: "l1 = l" "set acc \<subseteq> set acc1" "crashed_as env pl acc1 (k, b) (k, b1)" by (auto simp: crashed_as_def)
  obtain bm2 where tail: "each_bench (crash_pass env pl) bm acc1 l = (acc', bm2, l')" "bm' = (k, b1) # bm2"
    using Cons.prems one f(1) by (auto simp: x split: prod.splits)
  from Cons.IH [OF tail(1)] f(2,3) crashed_as_mono show ?case by (auto simp: x tail(2))
qed simp

lemma pre_restart_parts:
  assumes "handleComponentPluginPreRestart env pl pending bm l = (recovery, es, bm', l')"
  shows "list_all2 (crashed_as env pl recovery) bm bm'" and "set pending \<subseteq> set recovery"
    and "es = concat (map (reap_entry env) (filter (\<lambda>e. owner_plugin e = pl) (entries_of l)))"
    and "l' = fold run_ledger (map (\<lambda>e. Clear_entry (owner_plugin e) (owner_bench e)) (filter (\<lambda>e. owner_plugin e = pl) (entries_of l))) l"
proof -
  have pass: "(\<lambda>s. fold (crash_component env) (plugin_components env pl (fst (snd s))) s) = crash_pass env pl"
    by (rule ext) (simp add: crash_pass_def)
  obtain l1 where e: "each_bench (crash_pass env pl) bm pending l = (recovery, bm', l1)"
    and es: "es = concat (map (reap_entry env) (filter (\<lambda>e. owner_plugin e = pl) (entries_of l1)))"
    and l': "l' = fold (\<lambda>e. clearEntry (owner_plugin e) (owner_bench e)) (filter (\<lambda>e. owner_plugin e = pl) (entries_of l1)) l1"
    using assms unfolding handleComponentPluginPreRestart_def pass
    by (auto simp: getAllEntries_def Let_def split: prod.splits)
  from each_crash [OF e] show "list_all2 (crashed_as env pl recovery) bm bm'" "set pending \<subseteq> set recovery"
    "es = concat (map (reap_entry env) (filter (\<lambda>e. owner_plugin e = pl) (entries_of l)))" by (simp_all add: es)
  have "fold (\<lambda>e. clearEntry (owner_plugin e) (owner_bench e)) xs t
      = fold run_ledger (map (\<lambda>e. Clear_entry (owner_plugin e) (owner_bench e)) xs) t" for xs t
    by (induction xs arbitrary: t) simp_all
  with l' each_crash [OF e] show "l' = fold run_ledger (map (\<lambda>e. Clear_entry (owner_plugin e) (owner_bench e))
      (filter (\<lambda>e. owner_plugin e = pl) (entries_of l))) l" by simp
qed

definition relaunch_pass ::
    "watch_env \<Rightarrow> (bench \<Rightarrow> provision_env) \<Rightarrow> string \<Rightarrow> string list
      \<Rightarrow> (string \<times> int \<times> string) list \<times> bench_state \<Rightarrow> (string \<times> int \<times> string) list \<times> bench_state" where
  "relaunch_pass env penv pl pending s =
     fold (relaunch (\<lambda>b. launchComponent (penv b)) pending) (plugin_components env pl (fst (snd s))) s"

lemma relaunch_facts:
  assumes "relaunch (\<lambda>b. launchComponent (penv b)) pending name (acc, b, l) = (acc', b', l')"
  shows "bench_key_pair b' = bench_key_pair b \<and> set acc \<subseteq> set acc'
    \<and> (recoveryHandle (bench_id b) name \<in> set pending \<longrightarrow> (bench_project b, bench_id b, name) \<in> set acc')"
proof (cases "was_up b name \<or> recoveryHandle (bench_id b) name \<in> set pending")
  case True
  then have "acc' = acc @ [(bench_project b, bench_id b, name)]" "(b', l') = snd (launchComponent (penv b) name (b, l))"
    using assms by (simp_all add: relaunch_def)
  moreover from this have "b' = fst (snd (launchComponent (penv b) name (b, l)))" by (metis fst_conv)
  ultimately show ?thesis using key_pair_launch [of "penv b" name "(b, l)"] by auto
next
  case False
  with assms show ?thesis by (auto simp: relaunch_def)
qed

lemma relaunches_facts:
  "fold (relaunch (\<lambda>b. launchComponent (penv b)) pending) names (acc, b, l) = (acc', b', l') \<Longrightarrow>
    bench_key_pair b' = bench_key_pair b \<and> set acc \<subseteq> set acc'
    \<and> (\<forall>n \<in> set names. recoveryHandle (bench_id b) n \<in> set pending \<longrightarrow> (bench_project b, bench_id b, n) \<in> set acc')"
proof (induction names arbitrary: acc b l)
  case (Cons name names)
  obtain a1 b1 l1 where one: "relaunch (\<lambda>b. launchComponent (penv b)) pending name (acc, b, l) = (a1, b1, l1)"
    by (cases "relaunch (\<lambda>b. launchComponent (penv b)) pending name (acc, b, l)")
  from Cons.prems one have "fold (relaunch (\<lambda>b. launchComponent (penv b)) pending) names (a1, b1, l1) = (acc', b', l')" by simp
  from Cons.IH [OF this] relaunch_facts [OF one] show ?case by (auto simp: bench_key_pair_def)
qed simp

lemma each_relaunch:
  "each_bench (relaunch_pass env penv pl pending) bm acc l = (acc', bm', l') \<Longrightarrow>
    set acc \<subseteq> set acc' \<and> (\<forall>(k, b) \<in> set bm. \<forall>n \<in> set (plugin_components env pl b).
      recoveryHandle (bench_id b) n \<in> set pending \<longrightarrow> (bench_project b, bench_id b, n) \<in> set acc')"
proof (induction bm arbitrary: acc l bm')
  case (Cons x bm)
  obtain k b where x: "x = (k, b)" by (cases x)
  obtain acc1 b1 l1 where one: "relaunch_pass env penv pl pending (acc, b, l) = (acc1, b1, l1)"
    by (cases "relaunch_pass env penv pl pending (acc, b, l)")
  from relaunches_facts [OF one [unfolded relaunch_pass_def fst_conv snd_conv]]
  have f: "set acc \<subseteq> set acc1" "\<forall>n \<in> set (plugin_components env pl b).
      recoveryHandle (bench_id b) n \<in> set pending \<longrightarrow> (bench_project b, bench_id b, n) \<in> set acc1" by auto
  obtain bm2 where tail: "each_bench (relaunch_pass env penv pl pending) bm acc1 l1 = (acc', bm2, l')"
    using Cons.prems one by (auto simp: x split: prod.splits)
  from Cons.IH [OF tail] f show ?case by (auto simp: x)
qed simp

subsection \<open>The refresh of one component\<close>

lemma batch_results:
  "map_of (fold (\<lambda>q. jput (query_key q) (f q)) qs m) k = Some v \<Longrightarrow>
    (\<exists>q \<in> set qs. query_key q = k \<and> v = f q) \<or> map_of m k = Some v"
proof (induction qs arbitrary: m)
  case (Cons q qs)
  from Cons.IH [OF Cons.prems [simplified]] show ?case by (auto split: if_splits)
qed simp

lemma refresh_other: "n \<noteq> name \<Longrightarrow>
    map_of (bench_components (refresh_component env st name b)) n = map_of (bench_components b) n"
  by (auto simp: refresh_component_def on_component_get split: option.split)

lemma refresh_key [simp]: "bench_key_pair (refresh_component env st name b) = bench_key_pair b"
  by (simp add: refresh_component_def split: option.split)

lemma refresh_cong:
  "bench_key_pair b' = bench_key_pair b \<Longrightarrow> map_of (bench_components b') name = map_of (bench_components b) name \<Longrightarrow>
    map_of (bench_components (refresh_component env st name b')) name = map_of (bench_components (refresh_component env st name b)) name"
  by (auto simp: refresh_component_def on_component_get container_entry_def plugin_of_def imperative_component_def
      bench_key_pair_def split: option.split)

lemma refreshes_get:
  "distinct names \<Longrightarrow> map_of (bench_components (fold (refresh_component env st) names b)) n =
    (if n \<in> set names then map_of (bench_components (refresh_component env st n b)) n else map_of (bench_components b) n)"
proof (induction names arbitrary: b)
  case (Cons name names)
  have "map_of (bench_components (refresh_component env st n (refresh_component env st name b))) n
      = map_of (bench_components (refresh_component env st n b)) n" if "n \<noteq> name"
    using that by (intro refresh_cong) (simp_all add: refresh_other)
  with Cons show ?case by (auto simp: refresh_other)
qed simp

subsection \<open>Properties\<close>


definition bound_config :: roubo_config where
  "bound_config = web_config\<lparr>cfg_components := [(''web'', \<lparr>plugin = Some \<lparr>plugin_id = ''process'', plugin_source = None\<rparr>,
     config_block = None, dependsOn = None, legacy_setup = None, legacy_connection = None\<rparr>)]\<rparr>"

definition sample_watch :: watch_env where
  "sample_watch = \<lparr>w_project = (\<lambda>p. Some (sample_project p bound_config)), w_stop = (\<lambda>p. sample_stop),
     w_descriptor = (\<lambda>p i n. None), w_containers = None, w_processes = no_processes, w_health = (\<lambda>p i n. None),
     w_disk = sample_disk, w_worktrees = (\<lambda>p. \<lparr>cmd_code = 1, cmd_stdout = [], cmd_stderr = []\<rparr>), w_url = sample_parser\<rparr>"

definition up_bench :: bench where
  "up_bench = on_component ''web'' (\<lambda>c. c\<lparr>comp_status := Running\<rparr>) sample_bench"

definition down_bench :: bench where
  "down_bench = (on_component ''web'' stopped_status sample_bench)\<lparr>bench_project := ''b''\<rparr>"

lemma sample_watch_components: "plugin_components sample_watch ''process'' up_bench = [''web'']"
  "plugin_components sample_watch ''process'' down_bench = [''web'']"
  by (simp_all add: plugin_components_def up_bench_def down_bench_def on_component_def sample_bench_def w_config_def
      sample_watch_def sample_project_def bound_config_def binds_plugin_def)


text \<open>
  The handles of components to recover do not name the project: when a plugin that two projects use
  crashes and comes back, a component that was up in one bench makes the component of the same
  name in a bench with the same number of the other project start too, although it was stopped.
\<close>

theorem recovery_crosses_projects:
  assumes "handleComponentPluginPreRestart env pl pending bm l = (recovery, es, bm', l')"
    and "handleComponentPluginRestarted env (\<lambda>b. launchComponent (penv b)) pl recovery bm' l' = (relaunched, bm'', l'')"
    and "(k1, b1) \<in> set bm" and "(k2, b2) \<in> set bm" and "bench_id b2 = bench_id b1"
    and "n \<in> set (plugin_components env pl b1)" and "n \<in> set (plugin_components env pl b2)" and "was_up b1 n"
  shows "(bench_project b2, bench_id b2, n) \<in> set relaunched"
proof -
  note parts = pre_restart_parts [OF assms(1)]
  from list_all2_memD [OF parts(1) assms(3)] obtain y1 where "crashed_as env pl recovery (k1, b1) y1" by blast
  with assms(5,6,8) have pending: "recoveryHandle (bench_id b2) n \<in> set recovery" by (simp add: crashed_as_def)
  from list_all2_memD [OF parts(1) assms(4)] obtain y2 where y: "y2 \<in> set bm'" "crashed_as env pl recovery (k2, b2) y2"
    by blast
  obtain b2' where b2': "y2 = (k2, b2')" "bench_key_pair b2' = bench_key_pair b2" "busy b2' = busy b2"
    using y(2) by (cases y2) (auto simp: crashed_as_def)
  have "n \<in> set (plugin_components env pl b2')" using plugin_components_cong [OF b2'(2,3)] assms(7) by simp
  moreover have "(\<lambda>s. fold (relaunch (\<lambda>b. launchComponent (penv b)) recovery) (plugin_components env pl (fst (snd s))) s)
      = relaunch_pass env penv pl recovery" by (rule ext) (simp add: relaunch_pass_def)
  with assms(2) have "each_bench (relaunch_pass env penv pl recovery) bm' [] l' = (relaunched, bm'', l'')"
    by (simp add: handleComponentPluginRestarted_def)
  from each_relaunch [OF this, THEN conjunct2] y(1) b2'(1) have "n \<in> set (plugin_components env pl b2') \<Longrightarrow>
      recoveryHandle (bench_id b2') n \<in> set recovery \<Longrightarrow> (bench_project b2', bench_id b2', n) \<in> set relaunched" by blast
  ultimately show ?thesis using pending b2'(2) by (simp add: bench_key_pair_def)
qed

theorem recovery_crosses_projects_witness:
  "\<exists>recovery es bm' l' relaunched bm'' l''.
     handleComponentPluginPreRestart sample_watch ''process'' [] [(''1'', up_bench), (''2'', down_bench)] None = (recovery, es, bm', l')
     \<and> handleComponentPluginRestarted sample_watch (\<lambda>b. launchComponent sample_provision) ''process'' recovery bm' l'
         = (relaunched, bm'', l'')
     \<and> (''b'', 1, ''web'') \<in> set relaunched \<and> \<not> was_up down_bench ''web''"
proof -
  obtain recovery es bm' l' where r: "handleComponentPluginPreRestart sample_watch ''process'' []
      [(''1'', up_bench), (''2'', down_bench)] None = (recovery, es, bm', l')" by (metis prod.collapse)
  obtain relaunched bm'' l'' where s: "handleComponentPluginRestarted sample_watch (\<lambda>b. launchComponent sample_provision) ''process'' recovery bm' l'
      = (relaunched, bm'', l'')" by (metis prod.collapse)
  have up: "was_up up_bench ''web''" "\<not> was_up down_bench ''web''"
    by (simp_all add: was_up_def up_bench_def down_bench_def on_component_def sample_bench_def jupd_def stopped_status_def)
  have b: "bench_id down_bench = bench_id up_bench" "bench_id down_bench = 1" "bench_project down_bench = ''b''"
    by (simp_all add: up_bench_def down_bench_def on_component_def sample_bench_def)
  have "(bench_project down_bench, bench_id down_bench, ''web'') \<in> set relaunched"
    by (rule recovery_crosses_projects [OF r s, of "''1''" up_bench "''2''" down_bench "''web''"])
      (simp_all add: b sample_watch_components up)
  with r s up b show ?thesis by auto
qed

end
