(* ===== verification/Flow.thy ===== *)
theory Flow
  imports Prelude
begin

section \<open>Effects in order, then an error or a result\<close>

text \<open>
  An asynchronous function that acts on the world and may throw is the list of what it did, in
  order, and then the thrown value or the result; \<open>and_then\<close> sequences two of them as \<open>await\<close> does.
\<close>

type_synonym ('ev, 'er, 'a) action = "'ev list \<times> ('er + 'a)"

definition and_then :: "('ev, 'er, 'a) action \<Rightarrow> ('a \<Rightarrow> ('ev, 'er, 'b) action) \<Rightarrow> ('ev, 'er, 'b) action" where
  "and_then m f = (case m of (es, Inl e) \<Rightarrow> (es, Inl e) | (es, Inr x) \<Rightarrow> (es @ fst (f x), snd (f x)))"

definition pass :: "'a \<Rightarrow> ('ev, 'er, 'a) action" where
  "pass x = ([], Inr x)"

definition act :: "'ev list \<Rightarrow> ('ev, 'er, unit) action" where
  "act es = (es, Inr ())"

definition raise :: "'er \<Rightarrow> ('ev, 'er, 'a) action" where
  "raise e = ([], Inl e)"

text \<open>A call: its event, then its answer.\<close>

definition ask :: "'ev \<Rightarrow> 'er + 'a \<Rightarrow> ('ev, 'er, 'a) action" where
  "ask e answer = ([e], answer)"

definition each_of :: "('a \<Rightarrow> ('ev, 'er, unit) action) \<Rightarrow> 'a list \<Rightarrow> ('ev, 'er, unit) action" where
  "each_of f xs = foldr (\<lambda>x rest. and_then (f x) (\<lambda>_. rest)) xs (pass ())"

lemma each_of_simps [simp]: "each_of f [] = pass ()" "each_of f (x # xs) = and_then (f x) (\<lambda>_. each_of f xs)"
  by (simp_all add: each_of_def)

text \<open>Every event of a flow satisfies \<open>Q\<close>.\<close>

definition only :: "('ev \<Rightarrow> bool) \<Rightarrow> ('ev, 'er, 'a) action \<Rightarrow> bool" where
  "only Q flow \<longleftrightarrow> (\<forall>e \<in> set (fst flow). Q e)"

named_theorems flow_rules \<open>what the pieces of a flow may do\<close>

lemma only_and_then [flow_rules]: "only Q m \<Longrightarrow> (\<And>x. only Q (f x)) \<Longrightarrow> only Q (and_then m f)"
  by (auto simp: only_def and_then_def split: prod.splits sum.splits)

lemma only_basic [flow_rules]: "only Q (pass x)" "only Q (raise e)" "list_all Q es \<Longrightarrow> only Q (act es)" "Q ev \<Longrightarrow> only Q (ask ev a)"
  by (auto simp: only_def pass_def raise_def act_def ask_def list_all_iff)

lemma only_each [flow_rules]: "(\<And>x. x \<in> set xs \<Longrightarrow> only Q (f x)) \<Longrightarrow> only Q (each_of f xs)"
  by (induction xs) (simp_all add: only_and_then only_basic)

lemma onlyD: "only Q (xs @ e # ys, r) \<Longrightarrow> Q e"
  by (simp add: only_def)

lemma only_mono: "only Q m \<Longrightarrow> (\<And>e. Q e \<Longrightarrow> R e) \<Longrightarrow> only R m"
  by (auto simp: only_def)

lemmas flow_defs = and_then_def pass_def act_def raise_def ask_def

lemma and_then_Inr: "and_then m f = (es, Inr y) \<longleftrightarrow> (\<exists>es1 x es2. m = (es1, Inr x) \<and> f x = (es2, Inr y) \<and> es = es1 @ es2)"
  by (auto simp: and_then_def prod_eq_iff split: prod.split sum.split)

lemma and_then_Inl: "and_then m f = (es, Inl e) \<longleftrightarrow> m = (es, Inl e) \<or> (\<exists>es1 x es2. m = (es1, Inr x) \<and> f x = (es2, Inl e) \<and> es = es1 @ es2)"
  by (auto simp: and_then_def prod_eq_iff split: prod.split sum.split)

lemma flow_results [simp]:
  "pass x = (es, Inr y) \<longleftrightarrow> es = [] \<and> y = x" "pass x = (es, Inl e) \<longleftrightarrow> False"
  "raise e = (es, Inl e') \<longleftrightarrow> es = [] \<and> e' = e" "raise e = (es, Inr y) \<longleftrightarrow> False"
  "act fs = (es, Inr u) \<longleftrightarrow> es = fs" "act fs = (es, Inl e) \<longleftrightarrow> False"
  "ask ev a = (es, r) \<longleftrightarrow> es = [ev] \<and> r = a"
  by (auto simp: flow_defs)

end
