(* ===== verification/TestDomain.thy ===== *)
theory TestDomain
  imports Canonical
begin

section \<open>Derived status and reconciliation\<close>

text \<open>
  \<open>shared/testbench-domain.ts\<close>: the status a case derives from its observation marks, the
  reconciliation of recorded results with a changed plan, and the separate purge of orphaned
  results. \<open>deriveStatus\<close> reads \<open>marks[id]\<close> on a plain object, so the model reads it with
  \<open>js_get\<close>. The id \<open>__proto__\<close> as a key of \<open>caseResults\<close> is outside the model: an assignment
  under it does not create a property.
\<close>

subsection \<open>Operations\<close>

fun scan_marks :: "observation_mark jmap \<Rightarrow> string list \<Rightarrow> nat \<Rightarrow> bool \<Rightarrow> nat \<times> bool" where
  "scan_marks marks [] markedCount anyFail = (markedCount, anyFail)"
| "scan_marks marks (i # ids) markedCount anyFail =
     (case js_get marks i of
        Absent \<Rightarrow> scan_marks marks ids markedCount anyFail
      | Inherited \<Rightarrow> scan_marks marks ids (markedCount + 1) anyFail
      | Own mark \<Rightarrow> scan_marks marks ids (markedCount + 1) (anyFail \<or> mark_result mark = Fail))"

definition deriveStatus :: "string list \<Rightarrow> observation_mark jmap \<Rightarrow> case_status" where
  "deriveStatus observationIds marks =
     (let total = length observationIds in
      if total = 0 then Not_started
      else let (markedCount, anyFail) = scan_marks marks observationIds 0 False in
        if anyFail then Failed
        else if markedCount = 0 then Not_started
        else if markedCount < total then In_progress
        else Passed)"

record classification =
  added :: "string list"
  unchanged :: "string list"
  changed :: "string list"
  removed :: "string list"

record reconcile_result =
  classification :: classification
  nextResults :: bench_results

definition planCaseObservationIds :: "test_cases_plan \<Rightarrow> string \<Rightarrow> string list" where
  "planCaseObservationIds plan caseId =
     (case find (\<lambda>c. tc_id c = caseId) (cases_of plan) of
        None \<Rightarrow> []
      | Some planCase \<Rightarrow> concat (map (\<lambda>st. map obs_id (observations st)) (steps planCase)))"

definition copyCaseResult :: "case_result \<Rightarrow> case_result" where
  "copyCaseResult r =
     \<lparr>observationMarks = observationMarks r, derivedStatus = derivedStatus r,
      statusOverride = statusOverride r, case_notes = case_notes r, verification_of = None,
      orphaned = orphaned r, caseCanon = caseCanon r\<rparr>"

definition plan_canon :: "test_cases_plan \<Rightarrow> string jmap" where
  "plan_canon plan = fold (\<lambda>c. jput (tc_id c) (canonicalizeCase c)) (cases_of plan) []"

definition same_snapshot :: "string jmap \<Rightarrow> case_result jmap \<Rightarrow> string \<Rightarrow> bool" where
  "same_snapshot canon results i =
     (case Option.bind (map_of results i) caseCanon of
        None \<Rightarrow> False
      | Some stored \<Rightarrow> Some stored = map_of canon i)"

definition classify :: "string jmap \<Rightarrow> case_result jmap \<Rightarrow> classification" where
  "classify canon results =
     \<lparr>added = filter (\<lambda>i. \<not> jhas results i) (jkeys canon),
      unchanged = filter (\<lambda>i. jhas results i \<and> same_snapshot canon results i) (jkeys canon),
      changed = filter (\<lambda>i. jhas results i \<and> \<not> same_snapshot canon results i) (jkeys canon),
      removed = filter (\<lambda>i. \<not> jhas canon i) (jkeys results)\<rparr>"

definition refresh :: "test_cases_plan \<Rightarrow> string jmap \<Rightarrow> string \<Rightarrow> case_result \<Rightarrow> case_result" where
  "refresh plan canon i r =
     r\<lparr>caseCanon := map_of canon i,
       derivedStatus := deriveStatus (planCaseObservationIds plan i) (observationMarks r)\<rparr>"

definition reconcile :: "test_cases_plan \<Rightarrow> bench_results \<Rightarrow> reconcile_result" where
  "reconcile plan results =
     (let canon = plan_canon plan;
          cls = classify canon (caseResults results);
          copied = map (\<lambda>(i, r). (i, copyCaseResult r)) (caseResults results);
          refreshed = fold (\<lambda>i. jupd i (refresh plan canon i)) (changed cls) copied;
          flagged = fold (\<lambda>i. jupd i (\<lambda>r. r\<lparr>orphaned := Some True\<rparr>)) (removed cls) refreshed
      in \<lparr>classification = cls,
          nextResults = \<lparr>caseResults = flagged, updatedAt = updatedAt results\<rparr>\<rparr>)"

definition purgeOrphans :: "bench_results \<Rightarrow> bench_results" where
  "purgeOrphans results =
     \<lparr>caseResults = map (\<lambda>(i, r). (i, copyCaseResult r))
        (filter (\<lambda>(i, r). orphaned r \<noteq> Some True) (caseResults results)),
      updatedAt = updatedAt results\<rparr>"

subsection \<open>Derived status\<close>

lemma scan_marks_eq:
  "scan_marks marks ids n f =
     (n + length (filter (\<lambda>i. js_get marks i \<noteq> Absent) ids),
      f \<or> (\<exists>i \<in> set ids. \<exists>m. map_of marks i = Some m \<and> mark_result m = Fail))"
proof (induction ids arbitrary: n f)
  case (Cons i ids)
  show ?case by (cases "js_get marks i") (auto simp: Cons.IH js_get_def split: option.splits if_splits)
qed simp

lemma filter_full: "length (filter p xs) < length xs \<longleftrightarrow> (\<exists>x \<in> set xs. \<not> p x)"
  by (metis filter_id_conv length_filter_less less_irrefl)

definition status_spec :: "string list \<Rightarrow> observation_mark jmap \<Rightarrow> case_status" where
  "status_spec ids marks =
     (let marked = (\<lambda>i. jhas marks i); failed = (\<lambda>i. map_option mark_result (map_of marks i) = Some Fail) in
      if list_ex failed ids then Failed
      else if \<not> list_ex marked ids then Not_started
      else if list_all marked ids then Passed
      else In_progress)"

subsection \<open>Reconciliation\<close>

lemma jwf_plan_canon [simp]: "jwf (plan_canon p)"
proof -
  have "jwf m \<Longrightarrow> jwf (fold (\<lambda>c. jput (tc_id c) (canonicalizeCase c)) cs m)" for cs and m :: "string jmap"
    by (induction cs arbitrary: m) auto
  then show ?thesis by (simp add: plan_canon_def)
qed

lemma jkeys_plan_canon: "fst ` set (plan_canon p) = tc_id ` set (cases_of p)"
proof -
  have "fst ` set (fold (\<lambda>c. jput (tc_id c) (canonicalizeCase c)) cs m) = fst ` set m \<union> tc_id ` set cs"
    for cs and m :: "string jmap"
    by (induction cs arbitrary: m) auto
  then show ?thesis by (simp add: plan_canon_def)
qed

lemma reconcile_lookup:
  assumes "jwf (caseResults rs)"
  shows "map_of (caseResults (nextResults (reconcile p rs))) i =
    map_option (\<lambda>r. let r1 = copyCaseResult r;
                      r2 = (if i \<in> set (changed (classification (reconcile p rs)))
                            then refresh p (plan_canon p) i r1 else r1)
                  in if i \<in> set (removed (classification (reconcile p rs)))
                     then r2\<lparr>orphaned := Some True\<rparr> else r2)
      (map_of (caseResults rs) i)"
proof -
  let ?c = "classify (plan_canon p) (caseResults rs)"
  have "distinct (changed ?c)" "distinct (removed ?c)"
    using assms by (simp_all add: classify_def)
  then show ?thesis
    by (simp add: reconcile_def Let_def map_of_jupds map_of_map_snd option.map_comp comp_def)
qed

lemma reconcile_keys: "jkeys (caseResults (nextResults (reconcile p rs))) = jkeys (caseResults rs)"
  by (simp add: reconcile_def Let_def comp_def case_prod_unfold)

lemmas reconcile_class = reconcile_def Let_def classify_def

lemma class_sets:
  "set (added (classification (reconcile p rs))) = tc_id ` set (cases_of p) - set (jkeys (caseResults rs))"
  "set (removed (classification (reconcile p rs))) = set (jkeys (caseResults rs)) - tc_id ` set (cases_of p)"
  "set (unchanged (classification (reconcile p rs))) \<union> set (changed (classification (reconcile p rs)))
     = tc_id ` set (cases_of p) \<inter> set (jkeys (caseResults rs))"
  "set (unchanged (classification (reconcile p rs))) \<inter> set (changed (classification (reconcile p rs))) = {}"
  by (auto simp: reconcile_class jhas_def simp flip: jkeys_plan_canon)

lemma jmap_eqI: "jwf m \<Longrightarrow> jkeys m = jkeys n \<Longrightarrow> (\<And>k. map_of m k = map_of n k) \<Longrightarrow> m = n"
proof (induction m arbitrary: n)
  case Nil
  then show ?case by simp
next
  case (Cons e m)
  obtain k v where e: "e = (k, v)" by (cases e)
  from Cons.prems(2) e obtain w n' where n: "n = (k, w) # n'" "jkeys m = jkeys n'"
    by (cases n) auto
  have "v = w" using Cons.prems(3) [of k] e n by simp
  moreover have "m = n'"
  proof (rule Cons.IH)
    show "jwf m" using Cons.prems(1) by simp
    show "jkeys m = jkeys n'" by (rule n)
    fix k'
    show "map_of m k' = map_of n' k'"
    proof (cases "k' = k")
      case True
      have "k \<notin> fst ` set m" using Cons.prems(1) e by simp
      moreover have "k \<notin> fst ` set n'" using calculation n(2) by (metis image_set)
      ultimately show ?thesis using True by (simp add: map_of_eq_None_iff [symmetric])
    next
      case False
      then show ?thesis using Cons.prems(3) [of k'] e n by simp
    qed
  qed
  ultimately show ?case using e n by simp
qed

lemma reconcile_orphaned:
  assumes "jwf (caseResults rs)" and "map_of (caseResults rs) i = Some r"
  shows "\<exists>r'. map_of (caseResults (nextResults (reconcile p rs))) i = Some r'
    \<and> observationMarks r' = observationMarks r \<and> statusOverride r' = statusOverride r
    \<and> case_notes r' = case_notes r
    \<and> (orphaned r' = Some True \<longleftrightarrow> i \<notin> tc_id ` set (cases_of p) \<or> orphaned r = Some True)
    \<and> verification_of r' = None"
proof -
  have "i \<in> set (jkeys (caseResults rs))" using assms(2) by (metis map_of_eq_None_iff option.distinct(1) set_map)
  then have "i \<in> set (removed (classification (reconcile p rs))) \<longleftrightarrow> i \<notin> tc_id ` set (cases_of p)"
    by (simp add: class_sets(2))
  then show ?thesis
    using assms by (auto simp: reconcile_lookup Let_def copyCaseResult_def refresh_def)
qed

lemma map_of_purge:
  assumes "jwf (caseResults rs)"
  shows "map_of (caseResults (purgeOrphans rs)) i =
    (case map_of (caseResults rs) i of None \<Rightarrow> None
     | Some r \<Rightarrow> if orphaned r \<noteq> Some True then Some (copyCaseResult r) else None)"
  using map_of_filter_keys [OF assms, of "\<lambda>r. orphaned r \<noteq> Some True" i]
  by (simp add: purgeOrphans_def map_of_map_snd split: option.splits)

lemma reconcile_snapshot:
  assumes "jwf (caseResults rs)" and "map_of (caseResults (nextResults (reconcile p rs))) i = Some r'"
    and "map_of (plan_canon p) i = Some cn"
  shows "caseCanon r' = Some cn"
proof -
  obtain r where r: "map_of (caseResults rs) i = Some r"
    using assms(2) reconcile_lookup [OF assms(1), of p i] by auto
  have ik: "jhas (caseResults rs) i" "jhas (plan_canon p) i" using r assms(3) by (simp_all add: jhas_iff)
  show ?thesis
  proof (cases "i \<in> set (changed (classification (reconcile p rs)))")
    case True
    with assms r show ?thesis by (auto simp: reconcile_lookup Let_def refresh_def)
  next
    case False
    with ik have "same_snapshot (plan_canon p) (caseResults rs) i"
      by (auto simp: reconcile_class jhas_def)
    then have "caseCanon r = Some cn"
      using r assms(3) by (auto simp: same_snapshot_def split: option.splits)
    with False assms(1,2) r show ?thesis by (auto simp: reconcile_lookup Let_def copyCaseResult_def)
  qed
qed

lemma reconcile_again_unchanged:
  assumes "jwf (caseResults rs)"
  shows "changed (classification (reconcile p (nextResults (reconcile p rs)))) = []"
proof -
  have "same_snapshot (plan_canon p) (caseResults (nextResults (reconcile p rs))) i"
    if h: "i \<in> set (jkeys (plan_canon p))" "jhas (caseResults (nextResults (reconcile p rs))) i" for i
  proof -
    obtain r' where r': "map_of (caseResults (nextResults (reconcile p rs))) i = Some r'"
      using h(2) by (auto simp: jhas_iff)
    obtain cn where cn: "map_of (plan_canon p) i = Some cn"
      using h(1) by (metis map_of_eq_None_iff not_None_eq set_map)
    from reconcile_snapshot [OF assms r' cn] r' cn show ?thesis by (simp add: same_snapshot_def)
  qed
  then show ?thesis
    unfolding reconcile_def [of p "nextResults (reconcile p rs)"] by (auto simp: Let_def classify_def filter_empty_conv)
qed

lemma reconcile_idempotent:
  assumes "jwf (caseResults rs)"
  shows "nextResults (reconcile p (nextResults (reconcile p rs))) = nextResults (reconcile p rs)"
proof -
  let ?n = "nextResults (reconcile p rs)"
  have wf: "jwf (caseResults ?n)" using assms by (simp add: reconcile_keys)
  have "map_of (caseResults (nextResults (reconcile p ?n))) i = map_of (caseResults ?n) i" for i
  proof (cases "map_of (caseResults ?n) i")
    case None
    then show ?thesis using reconcile_lookup [OF wf] by simp
  next
    case (Some r')
    then obtain r where r: "map_of (caseResults rs) i = Some r"
      using reconcile_lookup [OF assms, of p i] by auto
    have rm: "set (removed (classification (reconcile p ?n))) = set (removed (classification (reconcile p rs)))"
      by (simp only: class_sets(2) reconcile_keys)
    have "copyCaseResult r' = r'" "i \<in> set (removed (classification (reconcile p rs))) \<Longrightarrow> orphaned r' = Some True"
      using Some r by (auto simp: reconcile_lookup [OF assms] Let_def copyCaseResult_def refresh_def)
    then show ?thesis
      using Some reconcile_again_unchanged [OF assms, of p] rm
      by (simp add: reconcile_lookup [OF wf] Let_def)
  qed
  then have "caseResults (nextResults (reconcile p ?n)) = caseResults ?n"
    using wf by (intro jmap_eqI) (simp_all only: reconcile_keys)
  moreover have "updatedAt (nextResults (reconcile p ?n)) = updatedAt ?n"
    by (simp add: reconcile_def Let_def)
  ultimately show ?thesis by simp
qed

subsection \<open>Properties\<close>

definition sample_result :: "observation_mark jmap \<Rightarrow> case_status \<Rightarrow> bool option \<Rightarrow> case_result" where
  "sample_result ms st orph = \<lparr>observationMarks = ms, derivedStatus = st, statusOverride = None,
     case_notes = [], verification_of = Some \<lparr>v_tier = Tier_a, v_confidence = High, v_evidence = [],
       v_author = \<lparr>author_name = ''ci'', author_email = '''', isSentinel = None\<rparr>, v_timestamp = ''t''\<rparr>,
     orphaned = orph, caseCanon = None\<rparr>"

definition sample_mark :: "mark_value \<Rightarrow> observation_mark" where
  "sample_mark v = \<lparr>mark_result = v,
     mark_author = \<lparr>author_name = ''Ann'', author_email = '''', isSentinel = None\<rparr>, mark_timestamp = ''t''\<rparr>"

definition sample_results :: "case_result jmap \<Rightarrow> bench_results" where
  "sample_results rs = \<lparr>caseResults = rs, updatedAt = ''t''\<rparr>"

text \<open>
  For observation ids that are not members of \<open>Object.prototype\<close>, the derived status is the
  truth table: failed as soon as one observation is marked fail, not started when none is marked,
  passed when all are marked, and in progress otherwise; it does not depend on the order of the
  observations or on marks of other observations.
\<close>

theorem deriveStatus_spec:
  assumes "set ids \<inter> set object_prototype_members = {}"
  shows "deriveStatus ids marks = status_spec ids marks"
proof -
  have plain: "js_get marks i \<noteq> Absent \<longleftrightarrow> jhas marks i" if "i \<in> set ids" for i
    using that assms by (auto simp: js_get_Absent_iff jhas_iff)
  have n: "length (filter (\<lambda>i. js_get marks i \<noteq> Absent) ids) = length (filter (jhas marks) ids)"
    using plain by (intro arg_cong [of _ _ length] filter_cong) auto
  have fail: "(\<exists>i \<in> set ids. \<exists>m. map_of marks i = Some m \<and> mark_result m = Fail)
      \<longleftrightarrow> list_ex (\<lambda>i. map_option mark_result (map_of marks i) = Some Fail) ids"
    by (auto simp: list_ex_iff)
  show ?thesis
    unfolding deriveStatus_def status_spec_def scan_marks_eq Let_def prod.case n fail
    using filter_full [of "jhas marks" ids]
    by (auto simp: list_ex_iff list_all_iff filter_empty_conv)
qed

theorem deriveStatus_spec_witness:
  "deriveStatus [''O1'', ''O2''] [(''O2'', sample_mark Fail)] = Failed"
  by (subst deriveStatus_spec)
     (simp_all add: object_prototype_members_def status_spec_def sample_mark_def)

text \<open>
  An observation whose id is the name of a member of \<open>Object.prototype\<close> is read as marked when
  no mark was ever recorded: a case with that single observation derives to passed.
\<close>

theorem inherited_id_derives_passed:
  assumes "i \<in> set object_prototype_members"
  shows "deriveStatus [i] [] = Passed"
  using assms by (simp add: deriveStatus_def js_get_def)

theorem inherited_id_derives_passed_witness: "deriveStatus [''constructor''] [] = Passed"
  by (rule inherited_id_derives_passed) (simp add: object_prototype_members_def)



text \<open>
  Reconciliation is idempotent: reconciling its own output with the same plan classifies no
  case as changed and writes the same results again.
\<close>

theorem reconcile_stable:
  assumes "jwf (caseResults rs)"
  shows "changed (classification (reconcile p (nextResults (reconcile p rs)))) = []
    \<and> nextResults (reconcile p (nextResults (reconcile p rs))) = nextResults (reconcile p rs)"
  using reconcile_again_unchanged [OF assms] reconcile_idempotent [OF assms] by simp

theorem reconcile_stable_witness:
  "nextResults (reconcile (sample_plan [sample_tc ''T1'' 1 ''ui'' []]) (nextResults (reconcile
      (sample_plan [sample_tc ''T1'' 1 ''ui'' []]) (sample_results [(''T1'', sample_result [] Passed None)]))))
   = nextResults (reconcile (sample_plan [sample_tc ''T1'' 1 ''ui'' []])
       (sample_results [(''T1'', sample_result [] Passed None)]))"
  by (rule reconcile_stable [THEN conjunct2]) (simp add: sample_results_def)

text \<open>
  The orphan flag is never taken back: a case that left the plan and returned keeps its result
  flagged through reconciliation, and the purge of orphans then deletes the result of a case that
  is in the plan.
\<close>

theorem returned_case_is_purged:
  assumes "jwf (caseResults rs)" and "map_of (caseResults rs) i = Some r" and "orphaned r = Some True"
  shows "map_of (caseResults (purgeOrphans (nextResults (reconcile p rs)))) i = None"
proof -
  have wf: "jwf (caseResults (nextResults (reconcile p rs)))" using assms(1) by (simp add: reconcile_keys)
  from reconcile_orphaned [OF assms(1,2), of p] assms(3) show ?thesis by (auto simp: map_of_purge [OF wf])
qed

theorem returned_case_is_purged_witness:
  "map_of (caseResults (purgeOrphans (nextResults (reconcile (sample_plan [sample_tc ''T1'' 1 ''ui'' []])
      (sample_results [(''T1'', sample_result [] Passed (Some True))]))))) ''T1'' = None"
  by (rule returned_case_is_purged [where r = "sample_result [] Passed (Some True)"])
     (simp_all add: sample_results_def sample_result_def)

end
