(* ===== verification/VerifyGate.thy ===== *)
theory VerifyGate
  imports TestDomain
begin

section \<open>Verify gates\<close>

text \<open>
  \<open>server/lib/gate-evaluator.ts\<close>: the state of a verify gate from the recorded results of its
  gating cases. A gate is a work unit (\<open>shared/work-units-contract.ts\<close>) of kind \<open>verify\<close>. The walk
  over the declared case ids is \<open>narrow\<close>, the loop that reads statuses is \<open>scan_gate\<close>, and
  \<open>evaluateGate\<close> is the precedence ladder. Recorded results are read as \<open>caseResults[id]\<close> on a
  plain object, so through \<open>js_get\<close>: an inherited member is neither undefined nor orphaned, has no
  status, and falls through every test of the loop.
\<close>

subsection \<open>Work units\<close>

datatype tracker_system = Github | Ghe | Jira

record tracker =
  tracker_system_of :: tracker_system
  tracker_ref :: string
  tracker_url :: string
  node_id :: "string option"
  db_id :: "int option"
  blocked_by_refs :: "string list"

record implements_block =
  requirement_ids :: "string list"
  user_story_ids :: "string list"
  test_case_ids :: "string list"

datatype unit_type = Feature | Task | Spike | Bug

datatype unit_kind = E2e | Doc | Verify

record work_unit =
  unit_id :: string
  unit_title :: string
  unit_type_of :: unit_type
  unit_kind_of :: "unit_kind option"
  description :: string
  acceptance_criteria :: "string list"
  milestone :: "string option"
  labels :: "string list option"
  estimate :: "json option"
  depends_on :: "string list"
  implements_of :: implements_block
  covers :: "string list option"
  target_path :: "string option"
  trigger_reason :: "string option"
  tracker_of :: "tracker option"

subsection \<open>The evaluator\<close>

datatype gate_status = Gate_passed | Gate_failed | Gate_pending | Gate_stale | No_gating_cases

datatype empty_reason = By_policy | By_lifecycle | By_both

record gate_state =
  gate_status :: gate_status
  unresolvedCaseIds :: "string list"
  gatingCaseIds :: "string list"
  coveringUnitIds :: "string list"
  emptyReason :: "empty_reason option"
  lifecycleExcludedCaseIds :: "string list"

record gate_results = bench_results +
  planHash :: string

record gate_lifecycle =
  resolutions :: "resolution list"
  resultsBySlug :: "bench_results jmap option"

definition GATING_LEVELS :: "int list" where
  "GATING_LEVELS = [1, 2]"

definition GATING_CATEGORY :: string where
  "GATING_CATEGORY = ''e2e_flow''"

definition caseGatesByDefaultPolicy :: "int \<Rightarrow> string \<Rightarrow> bool" where
  "caseGatesByDefaultPolicy level category = (level \<in> set GATING_LEVELS \<or> category = GATING_CATEGORY)"

text \<open>The first resolution about an id.\<close>

definition resolution_of :: "gate_lifecycle option \<Rightarrow> string \<Rightarrow> resolution option" where
  "resolution_of lc i =
     (case lc of None \<Rightarrow> None | Some l \<Rightarrow> find (\<lambda>r. ref_case (res_origin r) = i) (resolutions l))"

text \<open>The last case with an id: the map is built from the list in order.\<close>

definition plan_case :: "test_cases_plan \<Rightarrow> string \<Rightarrow> test_case option" where
  "plan_case p i = find (\<lambda>c. tc_id c = i) (rev (cases_of p))"

fun narrow ::
    "gate_lifecycle option \<Rightarrow> test_cases_plan option \<Rightarrow> string list
      \<Rightarrow> string list \<times> string list \<times> bool" where
  "narrow lc plan [] = ([], [], False)"
| "narrow lc plan (i # ids) =
     (let (gating, excluded, droppedByPolicy) = narrow lc plan ids in
      if map_option res_status (resolution_of lc i) = Some Res_retired
      then (gating, i # excluded, droppedByPolicy)
      else case Option.bind plan (\<lambda>p. plan_case p i) of
             Some planCase \<Rightarrow>
               if \<not> caseGatesByDefaultPolicy (tc_level planCase) (tc_type planCase)
               then (gating, excluded, True)
               else (i # gating, excluded, droppedByPolicy)
           | None \<Rightarrow> (i # gating, excluded, droppedByPolicy))"

text \<open>
  Where the status of a gating case is read from; \<open>None\<close> when the case degrades to unresolved
  without a read.
\<close>

definition result_of ::
    "gate_lifecycle option \<Rightarrow> case_result jmap \<Rightarrow> string \<Rightarrow> case_result propval option" where
  "result_of lc results i =
     (case resolution_of lc i of
        None \<Rightarrow> Some (js_get results i)
      | Some r \<Rightarrow>
          (case res_status r of
             Res_unresolved \<Rightarrow> None
           | Res_resolved \<Rightarrow>
               (case resolvedTo r of
                  None \<Rightarrow> None
                | Some tgt \<Rightarrow>
                    if ref_slug tgt = ref_slug (res_origin r) then Some (js_get results (ref_case tgt))
                    else (case Option.bind (Option.bind lc resultsBySlug) (\<lambda>m. map_of m (ref_slug tgt)) of
                            None \<Rightarrow> None
                          | Some foreign \<Rightarrow> Some (js_get (caseResults foreign) (ref_case tgt))))
           | _ \<Rightarrow> Some (js_get results i)))"

datatype verdict = Ok_verdict | Pending_verdict | Failed_verdict

fun verdict_of :: "case_result propval option \<Rightarrow> verdict" where
  "verdict_of None = Pending_verdict"
| "verdict_of (Some Absent) = Pending_verdict"
| "verdict_of (Some Inherited) = Ok_verdict"
| "verdict_of (Some (Own r)) =
     (if orphaned r = Some True then Pending_verdict
      else case effectiveStatus r of
             Failed \<Rightarrow> Failed_verdict
           | Blocked \<Rightarrow> Failed_verdict
           | Not_started \<Rightarrow> Pending_verdict
           | In_progress \<Rightarrow> Pending_verdict
           | Passed \<Rightarrow> Ok_verdict)"

fun scan_gate ::
    "gate_lifecycle option \<Rightarrow> case_result jmap \<Rightarrow> string list \<Rightarrow> bool \<times> bool \<times> string list" where
  "scan_gate lc results [] = (False, False, [])"
| "scan_gate lc results (i # ids) =
     (let (anyFailed, anyPending, unresolvedIds) = scan_gate lc results ids in
      case verdict_of (result_of lc results i) of
        Ok_verdict \<Rightarrow> (anyFailed, anyPending, unresolvedIds)
      | Pending_verdict \<Rightarrow> (anyFailed, True, i # unresolvedIds)
      | Failed_verdict \<Rightarrow> (True, anyPending, i # unresolvedIds))"

definition evaluateGate ::
    "work_unit \<Rightarrow> gate_results option \<Rightarrow> string \<Rightarrow> test_cases_plan option \<Rightarrow> gate_lifecycle option
      \<Rightarrow> gate_state" where
  "evaluateGate gate results currentPlanHash plan lc =
     (let covering = coalesce (covers gate) [];
          (gating, excluded, droppedByPolicy) = narrow lc plan (test_case_ids (implements_of gate))
      in
      if gating = [] then
        \<lparr>gate_status = No_gating_cases, unresolvedCaseIds = [], gatingCaseIds = [], coveringUnitIds = [],
         emptyReason =
           (if excluded \<noteq> [] \<and> droppedByPolicy then Some By_both
            else if excluded \<noteq> [] then Some By_lifecycle
            else if droppedByPolicy then Some By_policy
            else None),
         lifecycleExcludedCaseIds = excluded\<rparr>
      else case results of
        None \<Rightarrow>
          \<lparr>gate_status = Gate_stale, unresolvedCaseIds = gating, gatingCaseIds = gating,
           coveringUnitIds = covering, emptyReason = None, lifecycleExcludedCaseIds = excluded\<rparr>
      | Some rs \<Rightarrow>
          if planHash rs \<noteq> currentPlanHash then
            \<lparr>gate_status = Gate_stale, unresolvedCaseIds = gating, gatingCaseIds = gating,
             coveringUnitIds = covering, emptyReason = None, lifecycleExcludedCaseIds = excluded\<rparr>
          else
            (let (anyFailed, anyPending, unresolvedIds) = scan_gate lc (caseResults rs) gating in
             if anyFailed then
               \<lparr>gate_status = Gate_failed, unresolvedCaseIds = unresolvedIds, gatingCaseIds = gating,
                coveringUnitIds = covering, emptyReason = None, lifecycleExcludedCaseIds = excluded\<rparr>
             else if anyPending then
               \<lparr>gate_status = Gate_pending, unresolvedCaseIds = unresolvedIds, gatingCaseIds = gating,
                coveringUnitIds = covering, emptyReason = None, lifecycleExcludedCaseIds = excluded\<rparr>
             else
               \<lparr>gate_status = Gate_passed, unresolvedCaseIds = [], gatingCaseIds = gating,
                coveringUnitIds = [], emptyReason = None, lifecycleExcludedCaseIds = excluded\<rparr>))"

subsection \<open>Specification\<close>

definition retired_in :: "gate_lifecycle option \<Rightarrow> string \<Rightarrow> bool" where
  "retired_in lc i = (map_option res_status (resolution_of lc i) = Some Res_retired)"

definition policy_drops :: "test_cases_plan option \<Rightarrow> string \<Rightarrow> bool" where
  "policy_drops plan i = (case Option.bind plan (\<lambda>p. plan_case p i) of None \<Rightarrow> False
     | Some c \<Rightarrow> \<not> (tc_level c = 1 \<or> tc_level c = 2 \<or> tc_type c = ''e2e_flow''))"

text \<open>A case verified by a result of its own: recorded, not orphaned, effectively passed.\<close>

definition verified :: "gate_lifecycle option \<Rightarrow> case_result jmap \<Rightarrow> string \<Rightarrow> bool" where
  "verified lc results i \<longleftrightarrow> (\<exists>r. result_of lc results i = Some (Own r) \<and> orphaned r \<noteq> Some True
     \<and> effectiveStatus r = Passed)"

definition plain_ids :: "gate_lifecycle option \<Rightarrow> case_result jmap \<Rightarrow> string list \<Rightarrow> bool" where
  "plain_ids lc results ids = list_all (\<lambda>i. result_of lc results i \<noteq> Some Inherited) ids"

lemma narrow_eq:
  "narrow lc plan ids =
     (filter (\<lambda>i. \<not> retired_in lc i \<and> \<not> policy_drops plan i) ids,
      filter (retired_in lc) ids,
      list_ex (\<lambda>i. \<not> retired_in lc i \<and> policy_drops plan i) ids)"
  by (induction ids)
     (auto simp: retired_in_def policy_drops_def caseGatesByDefaultPolicy_def GATING_LEVELS_def
        GATING_CATEGORY_def split: option.splits)

lemma scan_gate_eq:
  "scan_gate lc rs ids =
     (list_ex (\<lambda>i. verdict_of (result_of lc rs i) = Failed_verdict) ids,
      list_ex (\<lambda>i. verdict_of (result_of lc rs i) = Pending_verdict) ids,
      filter (\<lambda>i. verdict_of (result_of lc rs i) \<noteq> Ok_verdict) ids)"
  by (induction ids) (auto split: verdict.split)

lemma verdict_Ok: "verdict_of x = Ok_verdict \<longleftrightarrow> x = Some Inherited \<or>
    (\<exists>r. x = Some (Own r) \<and> orphaned r \<noteq> Some True \<and> effectiveStatus r = Passed)"
  by (cases x rule: verdict_of.cases) (auto split: case_status.splits)

lemma verdict_verified: "result_of lc rs i \<noteq> Some Inherited \<Longrightarrow>
    verdict_of (result_of lc rs i) = Ok_verdict \<longleftrightarrow> verified lc rs i"
  by (simp add: verdict_Ok verified_def)

lemmas evaluateGate_eq = evaluateGate_def narrow_eq scan_gate_eq

text \<open>The caller's lifecycle view: what the resolver returns for the gate's own plan.\<close>

definition to_rplan :: "test_cases_plan \<Rightarrow> rplan" where
  "to_rplan p = \<lparr>plan_slug = specSlug p,
     plan_cases = map (\<lambda>c. \<lparr>case_id = tc_id c, lifecycle = tc_lifecycle c\<rparr>) (cases_of p)\<rparr>"

lemma resolvePlan_find:
  assumes "distinct (map case_id (plan_cases pl))" and "c \<in> set (plan_cases pl)"
  shows "\<exists>inp'. find (\<lambda>r. ref_case (res_origin r) = case_id c) (resolvePlan pl inp)
           = Some (resolveCase (plan_slug pl) c inp')
         \<and> spec_lifecycles inp' = spec_lifecycles inp
         \<and> map_of (plans inp') = (map_of (plans inp))(plan_slug pl \<mapsto> pl)"
proof -
  let ?inp = "\<lparr>plans = (if map_of (plans inp) (plan_slug pl) \<noteq> Some pl
      then jput (plan_slug pl) pl (plans inp) else plans inp), spec_lifecycles = spec_lifecycles inp\<rparr>"
  have "find (\<lambda>r. ref_case (res_origin r) = case_id c) (map (\<lambda>d. resolveCase (plan_slug pl) d ?inp) ds)
      = Some (resolveCase (plan_slug pl) c ?inp)" if "distinct (map case_id ds)" "c \<in> set ds" for ds
    using that by (induction ds) (auto simp: resolve_origin)
  from this [OF assms] show ?thesis
    by (intro exI [of _ ?inp]) (auto simp: resolvePlan_def Let_def fun_eq_iff)
qed

definition covered_by :: "case_result jmap \<Rightarrow> bench_results jmap option \<Rightarrow> string \<Rightarrow> pointer_ref \<Rightarrow> case_result \<Rightarrow> bool"
  where "covered_by own foreign s p r =
     (if ref_slug p = s then map_of own (ref_case p) = Some r
      else case Option.bind foreign (\<lambda>m. map_of m (ref_slug p)) of
             None \<Rightarrow> False | Some f \<Rightarrow> map_of (caseResults f) (ref_case p) = Some r)"

lemma resolution_of_Some [simp]:
  "resolution_of (Some l) i = find (\<lambda>r. ref_case (res_origin r) = i) (resolutions l)"
  by (simp add: resolution_of_def)

lemma verified_superseded:
  assumes "verified (Some \<lparr>resolutions = resolvePlan pl inp, resultsBySlug = foreign\<rparr>) own (case_id c)"
    and "distinct (map case_id (plan_cases pl))" and "c \<in> set (plan_cases pl)"
    and "state_of c = Superseded_state"
  shows "\<exists>inp' n t r. 1 \<le> n \<and> n \<le> 10 \<and> (hop inp' ^^ n) (plan_slug pl, c) t \<and> lifecycle (snd t) = None
    \<and> map_of (plans inp') = (map_of (plans inp))(plan_slug pl \<mapsto> pl)
    \<and> covered_by own foreign (plan_slug pl) (node_ref t) r \<and> orphaned r \<noteq> Some True
    \<and> effectiveStatus r = Passed"
proof -
  obtain inp' where res: "find (\<lambda>r. ref_case (res_origin r) = case_id c) (resolvePlan pl inp)
      = Some (resolveCase (plan_slug pl) c inp')"
    and inp': "map_of (plans inp') = (map_of (plans inp))(plan_slug pl \<mapsto> pl)"
    using resolvePlan_find [OF assms(2,3)] by blast
  let ?r = "resolveCase (plan_slug pl) c inp'"
  have "res_status ?r \<noteq> Res_live" "res_status ?r \<noteq> Res_retired"
    using resolve_superseded_status [OF assms(4), of "plan_slug pl" inp'] by auto
  then obtain p r where p: "resolvedTo ?r = Some p" and r: "orphaned r \<noteq> Some True" "effectiveStatus r = Passed"
    and cov: "covered_by own foreign (plan_slug pl) p r"
    using assms(1)
    by (cases "res_status ?r")
       (auto simp: verified_def result_of_def res resolve_origin covered_by_def split: option.splits if_splits)
  from resolve_sound [OF assms(4) p] obtain n t where "1 \<le> n" "n \<le> 10"
    "(hop inp' ^^ n) (plan_slug pl, c) t" "lifecycle (snd t) = None" "p = node_ref t" by blast
  with r cov inp' show ?thesis by blast
qed

lemma gatingCaseIds_eq: "gatingCaseIds (evaluateGate g results h plan lc) =
    filter (\<lambda>i. \<not> retired_in lc i \<and> \<not> policy_drops plan i) (test_case_ids (implements_of g))"
  by (auto simp: evaluateGate_eq Let_def split: option.split)

lemma gate_passed_eq:
  assumes "plain_ids lc (caseResults rs) (test_case_ids (implements_of g))"
  shows "gate_status (evaluateGate g (Some rs) h plan lc) = Gate_passed \<longleftrightarrow>
    gatingCaseIds (evaluateGate g (Some rs) h plan lc) \<noteq> [] \<and> planHash rs = h
    \<and> list_all (verified lc (caseResults rs)) (gatingCaseIds (evaluateGate g (Some rs) h plan lc))"
proof -
  let ?ids = "filter (\<lambda>i. \<not> retired_in lc i \<and> \<not> policy_drops plan i) (test_case_ids (implements_of g))"
  have v: "verdict_of (result_of lc (caseResults rs) i) = Ok_verdict \<longleftrightarrow> verified lc (caseResults rs) i"
    if "i \<in> set ?ids" for i
    using that assms by (intro verdict_verified) (auto simp: plain_ids_def list_all_iff)
  have "(\<not> list_ex (\<lambda>i. verdict_of (result_of lc (caseResults rs) i) = Failed_verdict) ?ids
      \<and> \<not> list_ex (\<lambda>i. verdict_of (result_of lc (caseResults rs) i) = Pending_verdict) ?ids)
      \<longleftrightarrow> list_all (verified lc (caseResults rs)) ?ids"
    using v by (auto simp: list_ex_iff list_all_iff) (metis verdict.exhaust)
  then show ?thesis by (auto simp: evaluateGate_eq Let_def)
qed

subsection \<open>Properties\<close>

definition sample_gate :: "string list \<Rightarrow> work_unit" where
  "sample_gate ids = \<lparr>unit_id = ''VG-1'', unit_title = ''Gate'', unit_type_of = Task,
     unit_kind_of = Some Verify, description = '''', acceptance_criteria = [], milestone = None,
     labels = None, estimate = None, depends_on = [],
     implements_of = \<lparr>requirement_ids = [], user_story_ids = [], test_case_ids = ids\<rparr>,
     covers = Some [''WU-1''], target_path = None, trigger_reason = None, tracker_of = None\<rparr>"

definition sample_gate_results :: "case_result jmap \<Rightarrow> string \<Rightarrow> gate_results" where
  "sample_gate_results rs h = \<lparr>caseResults = rs, updatedAt = ''t'', planHash = h\<rparr>"



text \<open>
  The narrowed gating set is the declared ids, in order, without those that lifecycle retires
  and those the default policy excludes (level one, two or an end-to-end flow gates; a case that is
  not in the plan stays in); an empty set is reported as such before any other state, with the rule
  that emptied it, and the retired ids are listed on every rung.
\<close>

theorem gate_narrowing:
  "let st = evaluateGate g results h plan lc; ids = test_case_ids (implements_of g) in
     gatingCaseIds st = filter (\<lambda>i. \<not> retired_in lc i \<and> \<not> policy_drops plan i) ids
   \<and> lifecycleExcludedCaseIds st = filter (retired_in lc) ids
   \<and> (gate_status st = No_gating_cases \<longleftrightarrow> gatingCaseIds st = [])
   \<and> emptyReason st =
       (if gatingCaseIds st = []
        then (if ids = [] then None
        else if list_all (retired_in lc) ids then Some By_lifecycle
        else if list_ex (retired_in lc) ids then Some By_both
        else Some By_policy)
        else None)"
  by (auto simp: evaluateGate_eq Let_def filter_empty_conv list_ex_iff list_all_iff split: option.split)

text \<open>
  The unresolved list is exact: on a stale gate it is the whole gating set, and otherwise the
  gating cases that no result of their own verifies, in the declared order. It is empty exactly on
  a passed gate and on one with nothing to gate.
\<close>

theorem unresolved_exact:
  assumes "plain_ids lc (caseResults rs) (test_case_ids (implements_of g))"
  shows "let st = evaluateGate g (Some rs) h plan lc in
     unresolvedCaseIds st =
       (if gate_status st = Gate_stale then gatingCaseIds st
        else filter (\<lambda>i. \<not> verified lc (caseResults rs) i) (gatingCaseIds st))
   \<and> (unresolvedCaseIds st = [] \<longleftrightarrow> gate_status st \<in> {Gate_passed, No_gating_cases})"
proof -
  obtain ids ex dp where nar: "narrow lc plan (test_case_ids (implements_of g)) = (ids, ex, dp)"
    by (metis prod_cases3)
  then have ids: "set ids \<subseteq> set (test_case_ids (implements_of g))" by (auto simp: narrow_eq)
  have v: "verdict_of (result_of lc (caseResults rs) i) = Ok_verdict \<longleftrightarrow> verified lc (caseResults rs) i"
    if "i \<in> set ids" for i
    using that assms ids by (intro verdict_verified) (auto simp: plain_ids_def list_all_iff)
  have un: "filter (\<lambda>i. verdict_of (result_of lc (caseResults rs) i) \<noteq> Ok_verdict) ids
      = filter (\<lambda>i. \<not> verified lc (caseResults rs) i) ids"
    using v by (intro filter_cong) auto
  have none: "filter (\<lambda>i. verdict_of (result_of lc (caseResults rs) i) \<noteq> Ok_verdict) ids = []
     \<longleftrightarrow> \<not> list_ex (\<lambda>i. verdict_of (result_of lc (caseResults rs) i) = Failed_verdict) ids
      \<and> \<not> list_ex (\<lambda>i. verdict_of (result_of lc (caseResults rs) i) = Pending_verdict) ids"
    by (auto simp: list_ex_iff filter_empty_conv) (metis verdict.exhaust)+
  show ?thesis
    using none by (simp add: evaluateGate_def nar scan_gate_eq un Let_def) (auto simp: Let_def)
qed

theorem unresolved_exact_witness:
  "unresolvedCaseIds (evaluateGate (sample_gate [''T1'', ''T2''])
     (Some (sample_gate_results [(''T1'', sample_result [] Passed None)] ''h'')) ''h'' None None) = [''T2'']"
proof -
  let ?rs = "sample_gate_results [(''T1'', sample_result [] Passed None)] ''h''"
  have "plain_ids None (caseResults ?rs) (test_case_ids (implements_of (sample_gate [''T1'', ''T2''])))"
    by (simp add: plain_ids_def sample_gate_def sample_gate_results_def result_of_def resolution_of_def
        js_get_def object_prototype_members_def)
  from unresolved_exact [OF this, of "''h''" None] show ?thesis
    by (simp add: Let_def evaluateGate_eq sample_gate_def sample_gate_results_def sample_result_def
       result_of_def resolution_of_def js_get_def object_prototype_members_def retired_in_def
       policy_drops_def verified_def effectiveStatus_def)
qed

text \<open>
  The exception the two properties above exclude is real: a gate that declares a case id such
  as \<open>constructor\<close> or \<open>toString\<close> passes on an empty result set, because the read finds an
  inherited member with no status.
\<close>

theorem inherited_id_passes_gate:
  assumes "i \<in> set object_prototype_members"
  shows "gate_status (evaluateGate (sample_gate [i]) (Some (sample_gate_results [] h)) h None None) = Gate_passed"
  using assms by (simp add: evaluateGate_eq sample_gate_def sample_gate_results_def result_of_def
      resolution_of_def js_get_def retired_in_def policy_drops_def Let_def)

theorem inherited_id_passes_gate_witness:
  "gate_status (evaluateGate (sample_gate [''toString'']) (Some (sample_gate_results [] ''h'')) ''h'' None None)
   = Gate_passed"
  by (rule inherited_id_passes_gate) (simp add: object_prototype_members_def)

text \<open>
  A gate that passes has really covered its superseded cases: for each of them there is a
  chain of one to ten replacement pointers to a live case, and that case has a result recorded
  under the spec the chain reached, not orphaned and effectively passed.
\<close>

theorem passed_gate_covers_superseded:
  assumes "lc = Some \<lparr>resolutions = resolvePlan pl inp, resultsBySlug = foreign\<rparr>"
    and "plain_ids lc (caseResults rs) (test_case_ids (implements_of g))"
    and "gate_status (evaluateGate g (Some rs) h plan lc) = Gate_passed"
    and "case_id c \<in> set (gatingCaseIds (evaluateGate g (Some rs) h plan lc))"
    and "distinct (map case_id (plan_cases pl))" and "c \<in> set (plan_cases pl)"
    and "state_of c = Superseded_state"
  shows "\<exists>inp' n t r. 1 \<le> n \<and> n \<le> 10 \<and> (hop inp' ^^ n) (plan_slug pl, c) t \<and> lifecycle (snd t) = None
    \<and> map_of (plans inp') = (map_of (plans inp))(plan_slug pl \<mapsto> pl)
    \<and> covered_by (caseResults rs) foreign (plan_slug pl) (node_ref t) r \<and> orphaned r \<noteq> Some True
    \<and> effectiveStatus r = Passed"
proof -
  have "verified lc (caseResults rs) (case_id c)"
    using assms(3,4) gate_passed_eq [OF assms(2), of h plan] by (simp add: list_all_iff)
  with assms(1,5-7) show ?thesis by (intro verified_superseded) auto
qed

theorem passed_gate_covers_superseded_witness:
  "\<exists>inp' n t r. 1 \<le> n \<and> n \<le> 10
    \<and> (hop inp' ^^ n) (''a'', sample_case ''T1'' (Some (Superseded ''T2'' None))) t \<and> lifecycle (snd t) = None
    \<and> covered_by [(''T2'', sample_result [] Passed None)] None ''a'' (node_ref t) r
    \<and> orphaned r \<noteq> Some True \<and> effectiveStatus r = Passed"
proof -
  let ?c = "sample_case ''T1'' (Some (Superseded ''T2'' None))"
  let ?pl = "\<lparr>plan_slug = ''a'', plan_cases = [?c, sample_case ''T2'' None]\<rparr>"
  let ?inp = "\<lparr>plans = [(''a'', ?pl)], spec_lifecycles = None\<rparr>"
  let ?lc = "Some \<lparr>resolutions = resolvePlan ?pl ?inp, resultsBySlug = None\<rparr>"
  let ?rs = "sample_gate_results [(''T2'', sample_result [] Passed None)] ''h''"
  let ?g = "sample_gate [''T1'']"
  have r: "resolutions (the ?lc) = [resolveCase ''a'' ?c ?inp, resolveCase ''a'' (sample_case ''T2'' None) ?inp]"
    by (simp add: resolvePlan_def Let_def)
  have res: "resolveCase ''a'' ?c ?inp = \<lparr>res_origin = \<lparr>ref_slug = ''a'', ref_case = ''T1''\<rparr>,
      originState = Superseded_state, res_status = Res_resolved,
      res_chain = [\<lparr>ref_slug = ''a'', ref_case = ''T1''\<rparr>, \<lparr>ref_slug = ''a'', ref_case = ''T2''\<rparr>],
      resolvedTo = Some \<lparr>ref_slug = ''a'', ref_case = ''T2''\<rparr>, res_reason = None,
      targetCaseState = Some Live, targetSpecState = Spec_live, res_supersededBy = None\<rparr>"
    by (simp add: sample_resolver resolveCase_def walk.simps Let_def)
  have read: "result_of ?lc (caseResults ?rs) ''T1'' = Some (Own (sample_result [] Passed None))"
    using r by (simp add: result_of_def res sample_gate_results_def js_get_def)
  have ret: "\<not> retired_in ?lc ''T1''" using r by (simp add: retired_in_def res)
  have plain: "plain_ids ?lc (caseResults ?rs) (test_case_ids (implements_of ?g))"
    using read by (simp add: plain_ids_def sample_gate_def)
  have gating: "gatingCaseIds (evaluateGate ?g (Some ?rs) ''h'' None ?lc) = [''T1'']"
    using ret by (simp add: gatingCaseIds_eq sample_gate_def policy_drops_def)
  have "verified ?lc (caseResults ?rs) ''T1''"
    unfolding verified_def read by (simp add: sample_result_def effectiveStatus_def)
  then have "gate_status (evaluateGate ?g (Some ?rs) ''h'' None ?lc) = Gate_passed"
    unfolding gate_passed_eq [OF plain] gating by (simp add: sample_gate_results_def)
  note passed = this
  have c: "case_id ?c \<in> set (gatingCaseIds (evaluateGate ?g (Some ?rs) ''h'' None ?lc))"
    "distinct (map case_id (plan_cases ?pl))" "?c \<in> set (plan_cases ?pl)" "state_of ?c = Superseded_state"
    using gating by (simp_all add: sample_case_def state_of_eq)
  obtain inp' n t r where "1 \<le> n \<and> n \<le> 10 \<and> (hop inp' ^^ n) (plan_slug ?pl, ?c) t \<and> lifecycle (snd t) = None
      \<and> covered_by (caseResults ?rs) None (plan_slug ?pl) (node_ref t) r \<and> orphaned r \<noteq> Some True
      \<and> effectiveStatus r = Passed"
    using passed_gate_covers_superseded [OF refl plain passed c] by blast
  then show ?thesis
    by (intro exI [of _ inp'] exI [of _ n] exI [of _ t] exI [of _ r]) (simp add: sample_gate_results_def)
qed

end
