(* ===== verification/GateOverrides.thy ===== *)
theory GateOverrides
  imports VerifyGate
begin

section \<open>Merged and split gates\<close>

text \<open>
  \<open>server/lib/gate-overrides.ts\<close> with the document of \<open>shared/gate-overrides-contract.ts\<close>: the
  operator's merges and splits, applied in order over the loaded gates. The working map
  \<open>byId\<close> and the list of dropped operations are the state; \<open>apply_op\<close> is one iteration of the
  source's loop. The final order uses \<open>localeCompare\<close>, whose collation depends on the host, so
  the comparison of two strings is a parameter.
\<close>

subsection \<open>The document\<close>

record split_part =
  part_label :: string
  coversWorkUnitIds :: "string list"

datatype override_op =
    Merge_op "string list"
  | Split_op string "split_part list"

record overrides_file =
  ov_schema :: string
  ov_schemaVersion :: string
  ops :: "override_op list"

definition GATE_OVERRIDES_SCHEMA_ID :: string where
  "GATE_OVERRIDES_SCHEMA_ID = ''https://roubo.dev/schema/gate-overrides/v1.0.0.json''"

definition GATE_OVERRIDES_SCHEMA_VERSION :: string where
  "GATE_OVERRIDES_SCHEMA_VERSION = ''1.0.0''"

definition emptyGateOverrides :: overrides_file where
  "emptyGateOverrides = \<lparr>ov_schema = GATE_OVERRIDES_SCHEMA_ID,
     ov_schemaVersion = GATE_OVERRIDES_SCHEMA_VERSION, ops = []\<rparr>"

record loaded_unit =
  lu_slug :: string
  lu_unit :: work_unit
  mergedFrom :: "work_unit list option"

record dropped_op =
  dropped_of :: override_op
  drop_reason :: string

record apply_result =
  gates :: "loaded_unit list"
  dropped_ops :: "dropped_op list"

abbreviation tcs_of :: "work_unit \<Rightarrow> string list" where
  "tcs_of u \<equiv> test_case_ids (implements_of u)"

abbreviation covers_of :: "work_unit \<Rightarrow> string list" where
  "covers_of u \<equiv> coalesce (covers u) []"

subsection \<open>Synthetic gates\<close>

definition mintMergeGateId :: "string list \<Rightarrow> string" where
  "mintMergeGateId sourceGateIds = ''MERGED:'' @ join_with ''+'' (sort sourceGateIds)"

definition mintSplitGateId :: "string \<Rightarrow> string \<Rightarrow> string" where
  "mintSplitGateId sourceGateId label = ''SPLIT:'' @ sourceGateId @ '':'' @ label"

definition buildMergedUnit :: "string \<Rightarrow> work_unit list \<Rightarrow> work_unit" where
  "buildMergedUnit i sources =
     \<lparr>unit_id = i, unit_title = ''Merged gate ('' @ join_with '', '' (map unit_id sources) @ '')'',
      unit_type_of = Task, unit_kind_of = Some Verify,
      description = ''Operator-merged gate spanning '' @ nat_str (length sources) @ '' phase gates.'',
      acceptance_criteria = [], milestone = None, labels = None, estimate = None, depends_on = [],
      implements_of =
        \<lparr>requirement_ids = dedupe (concat (map (\<lambda>u. requirement_ids (implements_of u)) sources)),
         user_story_ids = dedupe (concat (map (\<lambda>u. user_story_ids (implements_of u)) sources)),
         test_case_ids = dedupe (concat (map tcs_of sources))\<rparr>,
      covers = Some (dedupe (concat (map covers_of sources))),
      target_path = None, trigger_reason = None, tracker_of = None\<rparr>"

definition buildSplitUnit ::
    "string \<Rightarrow> string \<Rightarrow> string \<Rightarrow> string list \<Rightarrow> string list jmap \<Rightarrow> work_unit" where
  "buildSplitUnit i label sourceId wus caseMap =
     \<lparr>unit_id = i, unit_title = ''Split gate '' @ label @ '' (from '' @ sourceId @ '')'',
      unit_type_of = Task, unit_kind_of = Some Verify,
      description = ''Operator-split gate part '' @ [dquote] @ label @ [dquote] @ '' of '' @ sourceId @ ''.'',
      acceptance_criteria = [], milestone = None, labels = None, estimate = None, depends_on = [],
      implements_of =
        \<lparr>requirement_ids = [], user_story_ids = [],
         test_case_ids = dedupe (concat (map (\<lambda>wu. coalesce (map_of caseMap wu) []) wus))\<rparr>,
      covers = Some wus, target_path = None, trigger_reason = None, tracker_of = None\<rparr>"

subsection \<open>Partition checks\<close>

text \<open>The assigned ids so far, or the reason the parts are rejected.\<close>

fun assign_covers :: "string list \<Rightarrow> string list \<Rightarrow> string list \<Rightarrow> string + string list" where
  "assign_covers allowed assigned [] = Inr assigned"
| "assign_covers allowed assigned (wu # rest) =
     (if wu \<notin> set allowed
      then Inl (''WU- id '' @ [dquote] @ wu @ [dquote] @ '' is not in the source gate's covers'')
      else if wu \<in> set assigned
      then Inl (''WU- id '' @ [dquote] @ wu @ [dquote] @ '' is assigned to more than one part'')
      else assign_covers allowed (wu # assigned) rest)"

definition validateCoversPartition :: "string list \<Rightarrow> string list list \<Rightarrow> string option" where
  "validateCoversPartition sourceCovers partsCovers =
     (case assign_covers sourceCovers [] (concat partsCovers) of
        Inl reason \<Rightarrow> Some reason
      | Inr assigned \<Rightarrow>
          (let unassigned = filter (\<lambda>wu. wu \<notin> set assigned) sourceCovers
           in if unassigned \<noteq> []
              then Some (''WU- id(s) not assigned to any part: '' @ join_with '', '' (dedupe unassigned))
              else None))"

fun assign_cases :: "string list \<Rightarrow> string list \<Rightarrow> string + string list" where
  "assign_cases assigned [] = Inr assigned"
| "assign_cases assigned (tc # rest) =
     (if tc \<in> set assigned
      then Inl (''gating case '' @ [dquote] @ tc @ [dquote] @ '' appears in more than one split part (duplication)'')
      else assign_cases (assigned @ [tc]) rest)"

definition validateGatingSetPartition :: "string list \<Rightarrow> string list list \<Rightarrow> string option" where
  "validateGatingSetPartition sourceGatingSet partsTestCaseIds =
     (case assign_cases [] (concat partsTestCaseIds) of
        Inl reason \<Rightarrow> Some reason
      | Inr assigned \<Rightarrow>
          (let lost = filter (\<lambda>tc. tc \<notin> set assigned) (dedupe sourceGatingSet);
               extra = filter (\<lambda>tc. tc \<notin> set sourceGatingSet) assigned
           in if lost \<noteq> []
              then Some (''split would lose gating case(s) from the original gate: '' @ join_with '', '' (dedupe lost))
              else if extra \<noteq> []
              then Some (''split would introduce gating case(s) not in the original gate: '' @ join_with '', '' (dedupe extra))
              else None))"

subsection \<open>Applying the operations\<close>

type_synonym gate_ops_state = "loaded_unit jmap \<times> dropped_op list"

definition leaves :: "loaded_unit \<Rightarrow> work_unit list" where
  "leaves s = coalesce (mergedFrom s) [lu_unit s]"

definition merge_gates :: "loaded_unit jmap \<Rightarrow> string list \<Rightarrow> string + loaded_unit jmap" where
  "merge_gates byId gateIds =
     (let sourceIds = dedupe gateIds;
          missing = filter (\<lambda>g. map_of byId g = None) sourceIds in
      if missing \<noteq> [] then Inl (''unknown gate id(s): '' @ join_with '', '' missing)
      else
        (let present = map (\<lambda>g. the (map_of byId g)) sourceIds;
             slugs = dedupe (map lu_slug present) in
         if length slugs > 1
         then Inl (''cannot merge gates across specs ('' @ join_with '', '' slugs @ '')'')
         else
           (let i = mintMergeGateId sourceIds in
            Inr (jput i \<lparr>lu_slug = lu_slug (hd present), lu_unit = buildMergedUnit i (map lu_unit present),
                         mergedFrom = Some (concat (map leaves present))\<rparr>
                   (fold jdel sourceIds byId)))))"

definition split_units :: "string list jmap \<Rightarrow> string \<Rightarrow> split_part list \<Rightarrow> work_unit list" where
  "split_units caseMap gateId parts =
     map (\<lambda>p. buildSplitUnit (mintSplitGateId gateId (part_label p)) (part_label p) gateId
                (coversWorkUnitIds p) caseMap) parts"

definition split_gate ::
    "string list jmap \<Rightarrow> loaded_unit jmap \<Rightarrow> string \<Rightarrow> split_part list \<Rightarrow> string + loaded_unit jmap" where
  "split_gate caseMap byId gateId parts =
     (case map_of byId gateId of
        None \<Rightarrow> Inl (''unknown gate id: '' @ gateId)
      | Some source \<Rightarrow>
         (case validateCoversPartition (covers_of (lu_unit source)) (map coversWorkUnitIds parts) of
            Some reason \<Rightarrow> Inl reason
          | None \<Rightarrow>
             (let partUnits = split_units caseMap gateId parts in
              case validateGatingSetPartition (tcs_of (lu_unit source)) (map tcs_of partUnits) of
                Some reason \<Rightarrow> Inl reason
              | None \<Rightarrow>
                  Inr (fold (\<lambda>u. jput (unit_id u)
                              \<lparr>lu_slug = lu_slug source, lu_unit = u, mergedFrom = Some (leaves source)\<rparr>)
                         partUnits (jdel gateId byId)))))"

definition rewrite_gates ::
    "string list jmap \<Rightarrow> loaded_unit jmap \<Rightarrow> override_op \<Rightarrow> string + loaded_unit jmap" where
  "rewrite_gates caseMap byId op =
     (case op of Merge_op ids \<Rightarrow> merge_gates byId ids
      | Split_op gateId parts \<Rightarrow> split_gate caseMap byId gateId parts)"

definition apply_op :: "string list jmap \<Rightarrow> override_op \<Rightarrow> gate_ops_state \<Rightarrow> gate_ops_state" where
  "apply_op caseMap op st =
     (case rewrite_gates caseMap (fst st) op of
        Inl reason \<Rightarrow> (fst st, snd st @ [\<lparr>dropped_of = op, drop_reason = reason\<rparr>])
      | Inr byId \<Rightarrow> (byId, snd st))"

definition index_gates :: "loaded_unit list \<Rightarrow> loaded_unit jmap" where
  "index_gates loaded = fold (\<lambda>e. jput (unit_id (lu_unit e)) e) loaded []"

definition compare_gates :: "(string \<Rightarrow> string \<Rightarrow> int) \<Rightarrow> loaded_unit \<Rightarrow> loaded_unit \<Rightarrow> int" where
  "compare_gates localeCompare a b =
     (let s = localeCompare (lu_slug a) (lu_slug b)
      in if s \<noteq> 0 then s else localeCompare (unit_id (lu_unit a)) (unit_id (lu_unit b)))"

definition applyGateOverrides ::
    "(string \<Rightarrow> string \<Rightarrow> int) \<Rightarrow> loaded_unit list \<Rightarrow> overrides_file \<Rightarrow> string list jmap \<Rightarrow> apply_result" where
  "applyGateOverrides localeCompare loaded overrides caseMap =
     (let (byId, drops) = fold (apply_op caseMap) (ops overrides) (index_gates loaded, [])
      in \<lparr>gates = sort_by (compare_gates localeCompare) (jvals byId), dropped_ops = drops\<rparr>)"

subsection \<open>The checks are exact\<close>

lemma assign_covers_iff: "assign_covers allowed a xs = Inr r \<longleftrightarrow>
    set xs \<subseteq> set allowed \<and> distinct xs \<and> set xs \<inter> set a = {} \<and> r = rev xs @ a"
  by (induction xs arbitrary: a) auto

lemma assign_cases_iff: "assign_cases a xs = Inr r \<longleftrightarrow> distinct xs \<and> set xs \<inter> set a = {} \<and> r = a @ xs"
  by (induction xs arbitrary: a) auto

lemma validateCovers_None: "validateCoversPartition src parts = None \<longleftrightarrow>
    distinct (concat parts) \<and> set (concat parts) = set src"
proof (cases "assign_covers src [] (concat parts)")
  case (Inl reason)
  then have "\<not> (set (concat parts) \<subseteq> set src \<and> distinct (concat parts))"
    using assign_covers_iff [of src "[]" "concat parts" "rev (concat parts)"] by auto
  with Inl show ?thesis by (auto simp: validateCoversPartition_def)
next
  case (Inr r)
  then show ?thesis
    using assign_covers_iff [of src "[]" "concat parts" r]
    by (auto simp: validateCoversPartition_def Let_def filter_empty_conv)
qed

lemma validateGating_None: "validateGatingSetPartition src parts = None \<longleftrightarrow>
    distinct (concat parts) \<and> set (concat parts) = set src"
proof (cases "assign_cases [] (concat parts)")
  case (Inl reason)
  then have "\<not> distinct (concat parts)"
    using assign_cases_iff [of "[]" "concat parts" "concat parts"] by auto
  with Inl show ?thesis by (auto simp: validateGatingSetPartition_def)
next
  case (Inr r)
  then show ?thesis
    using assign_cases_iff [of "[]" "concat parts" r]
    by (auto simp: validateGatingSetPartition_def Let_def filter_empty_conv)
qed

subsection \<open>Coverage\<close>

text \<open>The cases, with their spec, that some gate of the working map gates on.\<close>

definition coverage :: "loaded_unit jmap \<Rightarrow> (string \<times> string) set" where
  "coverage m = {(s, t). \<exists>k e. map_of m k = Some e \<and> lu_slug e = s \<and> t \<in> set (tcs_of (lu_unit e))}"

definition gates_cover :: "loaded_unit list \<Rightarrow> (string \<times> string) set" where
  "gates_cover gs = {(s, t). \<exists>e \<in> set gs. lu_slug e = s \<and> t \<in> set (tcs_of (lu_unit e))}"

lemma coverage_vals: "jwf m \<Longrightarrow> gates_cover (jvals m) = coverage m"
  by (force simp: gates_cover_def coverage_def dest: map_of_SomeD intro: map_of_is_SomeI)

lemma map_of_jdels: "map_of (fold jdel ks m) k = (if k \<in> set ks then None else map_of m k)"
  by (induction ks arbitrary: m) auto

lemma jwf_jdels: "jwf m \<Longrightarrow> jwf (fold jdel ks m)"
  by (induction ks arbitrary: m) auto

definition synth :: "loaded_unit \<Rightarrow> work_unit \<Rightarrow> loaded_unit" where
  "synth s u = \<lparr>lu_slug = lu_slug s, lu_unit = u, mergedFrom = Some (leaves s)\<rparr>"

lemma fold_jput_pairs:
  "fold (\<lambda>u. jput (unit_id u) (synth s u)) us m
     = fold (\<lambda>(k, v). jput k v) (map (\<lambda>u. (unit_id u, synth s u)) us) m"
  by (simp add: fold_map comp_def)

lemma map_of_rev_pairs_Some: "map_of (rev (map (\<lambda>u. (f u, g u)) us)) k = Some v \<Longrightarrow>
    \<exists>u \<in> set us. f u = k \<and> v = g u"
  by (drule map_of_SomeD) auto

lemma map_of_rev_pairs_distinct: "distinct (map f us) \<Longrightarrow> u \<in> set us \<Longrightarrow>
    map_of (rev (map (\<lambda>u. (f u, g u)) us)) (f u) = Some (g u)"
  by (rule map_of_is_SomeI) (auto simp: comp_def rev_map [symmetric])

text \<open>What one rewrite does to the map, by kind of operation.\<close>

lemma merge_gates_Inr:
  assumes "merge_gates byId ids = Inr m"
  obtains i sl u where "i = mintMergeGateId (dedupe ids)"
    "\<forall>g \<in> set ids. \<exists>e. map_of byId g = Some e"
    "\<forall>g \<in> set ids. \<forall>e. map_of byId g = Some e \<longrightarrow> lu_slug e = sl"
    "set (tcs_of u) = (\<Union>g \<in> set ids. set (tcs_of (lu_unit (the (map_of byId g)))))"
    "map_of m = (\<lambda>k. if k = i then Some \<lparr>lu_slug = sl, lu_unit = u,
        mergedFrom = Some (concat (map (\<lambda>g. leaves (the (map_of byId g))) (dedupe ids)))\<rparr>
       else if k \<in> set ids then None else map_of byId k)"
    "unit_id u = i" "jwf byId \<longrightarrow> jwf m"
proof -
  let ?ps = "map (\<lambda>g. the (map_of byId g)) (dedupe ids)"
  have known: "filter (\<lambda>g. map_of byId g = None) (dedupe ids) = []"
    and one: "\<not> length (dedupe (map lu_slug ?ps)) > 1"
    using assms by (auto simp: merge_gates_def Let_def split: if_splits)
  have m: "m = jput (mintMergeGateId (dedupe ids))
      \<lparr>lu_slug = lu_slug (hd ?ps),
       lu_unit = buildMergedUnit (mintMergeGateId (dedupe ids)) (map lu_unit ?ps),
       mergedFrom = Some (concat (map leaves ?ps))\<rparr> (fold jdel (dedupe ids) byId)"
    using assms by (simp add: merge_gates_def Let_def split: if_splits)
  have all: "\<forall>g \<in> set ids. \<exists>e. map_of byId g = Some e"
    using known by (auto simp: filter_empty_conv)
  have "lu_slug e = lu_slug (hd ?ps)" if "g \<in> set ids" "map_of byId g = Some e" for g e
  proof -
    have "?ps \<noteq> []" using that(1) by (metis empty_iff empty_set map_is_Nil_conv set_dedupe)
    then have "lu_slug (hd ?ps) \<in> set (map lu_slug ?ps)" by (metis hd_in_set imageI set_map)
    moreover have "lu_slug e \<in> set (map lu_slug ?ps)" using that by force
    ultimately show ?thesis using one by (intro dedupe_single [of "map lu_slug ?ps"]) auto
  qed
  then have sl: "\<forall>g \<in> set ids. \<forall>e. map_of byId g = Some e \<longrightarrow> lu_slug e = lu_slug (hd ?ps)" by blast
  let ?i = "mintMergeGateId (dedupe ids)"
  let ?u = "buildMergedUnit ?i (map lu_unit ?ps)"
  have tcs: "set (tcs_of ?u) = (\<Union>g \<in> set ids. set (tcs_of (lu_unit (the (map_of byId g)))))"
    by (simp add: buildMergedUnit_def)
  have leaves: "concat (map leaves ?ps) = concat (map (\<lambda>g. leaves (the (map_of byId g))) (dedupe ids))"
    by (simp add: comp_def)
  have "map_of m = (\<lambda>k. if k = ?i then Some \<lparr>lu_slug = lu_slug (hd ?ps), lu_unit = ?u,
        mergedFrom = Some (concat (map (\<lambda>g. leaves (the (map_of byId g))) (dedupe ids)))\<rparr>
       else if k \<in> set ids then None else map_of byId k)"
    unfolding m leaves map_of_jput by (rule ext) (simp add: map_of_jdels)
  moreover have "unit_id ?u = ?i" by (simp add: buildMergedUnit_def)
  moreover have "jwf byId \<longrightarrow> jwf m" unfolding m by (intro impI jwf_jput jwf_jdels)
  ultimately show ?thesis using that [OF refl all sl tcs] by blast
qed

lemma split_gate_Inr:
  assumes "split_gate cm byId g parts = Inr m"
  obtains src where "map_of byId g = Some src"
    "distinct (concat (map coversWorkUnitIds parts))"
    "set (concat (map coversWorkUnitIds parts)) = set (covers_of (lu_unit src))"
    "distinct (concat (map tcs_of (split_units cm g parts)))"
    "set (concat (map tcs_of (split_units cm g parts))) = set (tcs_of (lu_unit src))"
    "m = fold (\<lambda>(k, v). jput k v)
       (map (\<lambda>u. (unit_id u, synth src u)) (split_units cm g parts)) (jdel g byId)"
  using assms
  by (auto simp: split_gate_def Let_def validateCovers_None validateGating_None
      fold_jput_pairs [unfolded synth_def] synth_def split: option.splits)

lemma split_units_unit: "u \<in> set (split_units cm g parts) \<Longrightarrow>
    \<exists>p \<in> set parts. unit_id u = mintSplitGateId g (part_label p)"
  by (auto simp: split_units_def buildSplitUnit_def)

lemma map_of_split:
  assumes "jwf byId"
  shows "map_of (fold (\<lambda>(k, v). jput k v) (map (\<lambda>u. (unit_id u, synth src u)) us) (jdel g byId)) k =
    (case map_of (rev (map (\<lambda>u. (unit_id u, synth src u)) us)) k of
       Some v \<Rightarrow> Some v | None \<Rightarrow> if k = g then None else map_of byId k)"
  by (subst jm.get_puts) (use assms in \<open>auto split: option.split\<close>)

text \<open>The invariant of the working map: keyed by unit id, with only loaded gates as leaves.\<close>

definition ops_inv :: "work_unit set \<Rightarrow> loaded_unit jmap \<Rightarrow> bool" where
  "ops_inv U m \<longleftrightarrow> jwf m \<and> (\<forall>k e. map_of m k = Some e \<longrightarrow> unit_id (lu_unit e) = k \<and> set (leaves e) \<subseteq> U)"

lemma ops_invD: "ops_inv U m \<Longrightarrow> map_of m k = Some e \<Longrightarrow> unit_id (lu_unit e) = k \<and> set (leaves e) \<subseteq> U"
  unfolding ops_inv_def by blast

lemma ops_inv_jwf: "ops_inv U m \<Longrightarrow> jwf m"
  unfolding ops_inv_def by blast

lemma leaves_synth [simp]: "leaves (synth s u) = leaves s" "leaves \<lparr>lu_slug = a, lu_unit = b, mergedFrom = Some c\<rparr> = c"
  by (simp_all add: leaves_def synth_def)

lemma synth_simps [simp]: "lu_slug (synth s u) = lu_slug s" "lu_unit (synth s u) = u"
  by (simp_all add: synth_def)

lemma ops_inv_merge: "ops_inv U byId \<Longrightarrow> merge_gates byId ids = Inr m \<Longrightarrow> ops_inv U m"
proof (erule merge_gates_Inr)
  fix i sl u
  assume inv: "ops_inv U byId" and all: "\<forall>g \<in> set ids. \<exists>e. map_of byId g = Some e"
    and m: "map_of m = (\<lambda>k. if k = i then Some \<lparr>lu_slug = sl, lu_unit = u,
        mergedFrom = Some (concat (map (\<lambda>g. leaves (the (map_of byId g))) (dedupe ids)))\<rparr>
       else if k \<in> set ids then None else map_of byId k)"
    and u: "unit_id u = i" and wf: "jwf byId \<longrightarrow> jwf m"
  have "set (leaves (the (map_of byId g))) \<subseteq> U" if "g \<in> set ids" for g
    using all that ops_invD [OF inv] by (metis option.sel)
  then have "set (concat (map (\<lambda>g. leaves (the (map_of byId g))) (dedupe ids))) \<subseteq> U" by auto
  then have "unit_id (lu_unit e) = k \<and> set (leaves e) \<subseteq> U" if "map_of m k = Some e" for k e
    using that ops_invD [OF inv, of k e] u unfolding m by (auto split: if_splits)
  moreover have "jwf m" using wf ops_inv_jwf [OF inv] by blast
  ultimately show "ops_inv U m" unfolding ops_inv_def by blast
qed

lemma ops_inv_split: "ops_inv U byId \<Longrightarrow> split_gate cm byId g parts = Inr m \<Longrightarrow> ops_inv U m"
proof (erule split_gate_Inr)
  fix src
  let ?kvs = "map (\<lambda>u. (unit_id u, synth src u)) (split_units cm g parts)"
  assume inv: "ops_inv U byId" and src: "map_of byId g = Some src"
    and m: "m = fold (\<lambda>(k, v). jput k v) ?kvs (jdel g byId)"
  have wf: "jwf byId" using inv by (simp add: ops_inv_def)
  have "jwf m" unfolding m by (rule jm.ok_puts) (simp add: wf)
  moreover have "unit_id (lu_unit e) = k \<and> set (leaves e) \<subseteq> U" if e: "map_of m k = Some e" for k e
  proof (cases "map_of (rev ?kvs) k")
    case None
    with e have "map_of byId k = Some e" unfolding m map_of_split [OF wf] by (simp split: if_splits)
    then show ?thesis by (rule ops_invD [OF inv])
  next
    case (Some v)
    with e have "e = v" unfolding m map_of_split [OF wf] by simp
    with map_of_rev_pairs_Some [OF Some] ops_invD [OF inv src] show ?thesis by auto
  qed
  ultimately show "ops_inv U m" unfolding ops_inv_def by blast
qed

lemma ops_inv_apply: "ops_inv U (fst st) \<Longrightarrow> ops_inv U (fst (apply_op cm op st))"
  by (cases op; cases "rewrite_gates cm (fst st) op")
     (auto simp: apply_op_def rewrite_gates_def intro: ops_inv_merge ops_inv_split)

interpretation gate_ops: step_system "apply_op cm" "\<lambda>st. ops_inv U (fst st)" for cm U
  by unfold_locales (rule ops_inv_apply)

lemma ops_inv_index:
  assumes "\<forall>e \<in> set loaded. mergedFrom e = None"
  shows "ops_inv (lu_unit ` set loaded) (index_gates loaded)"
proof -
  have put: "ops_inv U (jput (unit_id (lu_unit e)) e m)" if "ops_inv U m" "set (leaves e) \<subseteq> U" for U e m
  proof -
    have "unit_id (lu_unit e') = k \<and> set (leaves e') \<subseteq> U"
      if "map_of (jput (unit_id (lu_unit e)) e m) k = Some e'" for k e'
      using that \<open>set (leaves e) \<subseteq> U\<close> ops_invD [OF \<open>ops_inv U m\<close>, of k e'] by (simp split: if_splits)
    moreover have "jwf (jput (unit_id (lu_unit e)) e m)" by (rule jwf_jput) (rule ops_inv_jwf [OF that(1)])
    ultimately show ?thesis unfolding ops_inv_def by blast
  qed
  have "ops_inv U m \<Longrightarrow> \<forall>e \<in> set es. set (leaves e) \<subseteq> U \<Longrightarrow>
      ops_inv U (fold (\<lambda>e. jput (unit_id (lu_unit e)) e) es m)" for U es m
    by (induction es arbitrary: m) (simp_all add: put)
  moreover have "ops_inv (lu_unit ` set loaded) []" by (simp add: ops_inv_def)
  moreover have "\<forall>e \<in> set loaded. set (leaves e) \<subseteq> lu_unit ` set loaded"
    using assms by (auto simp: leaves_def)
  ultimately show ?thesis unfolding index_gates_def by blast
qed

lemma coverage_merge_sub: "merge_gates byId ids = Inr m \<Longrightarrow> coverage m \<subseteq> coverage byId"
proof (erule merge_gates_Inr)
  fix i sl u
  assume all: "\<forall>g \<in> set ids. \<exists>e. map_of byId g = Some e"
    and sl: "\<forall>g \<in> set ids. \<forall>e. map_of byId g = Some e \<longrightarrow> lu_slug e = sl"
    and tcs: "set (tcs_of u) = (\<Union>g \<in> set ids. set (tcs_of (lu_unit (the (map_of byId g)))))"
    and m: "map_of m = (\<lambda>k. if k = i then Some \<lparr>lu_slug = sl, lu_unit = u,
        mergedFrom = Some (concat (map (\<lambda>g. leaves (the (map_of byId g))) (dedupe ids)))\<rparr>
       else if k \<in> set ids then None else map_of byId k)"
  have "(sl, t) \<in> coverage byId" if h: "t \<in> set (tcs_of u)" for t
  proof -
    obtain g where g: "g \<in> set ids" "t \<in> set (tcs_of (lu_unit (the (map_of byId g))))"
      using h unfolding tcs by blast
    then obtain e where "map_of byId g = Some e" using all by blast
    with g sl show ?thesis by (auto simp: coverage_def)
  qed
  then show "coverage m \<subseteq> coverage byId"
    unfolding coverage_def [of m] m by (auto split: if_splits) (auto simp: coverage_def)
qed

lemma coverage_merge_sup:
  assumes "merge_gates byId ids = Inr m"
    and "mintMergeGateId (dedupe ids) \<in> set ids \<or> map_of byId (mintMergeGateId (dedupe ids)) = None"
  shows "coverage byId \<subseteq> coverage m"
  using assms(1)
proof (rule merge_gates_Inr)
  fix i sl u
  assume i: "i = mintMergeGateId (dedupe ids)"
    and sl: "\<forall>g \<in> set ids. \<forall>e. map_of byId g = Some e \<longrightarrow> lu_slug e = sl"
    and tcs: "set (tcs_of u) = (\<Union>g \<in> set ids. set (tcs_of (lu_unit (the (map_of byId g)))))"
    and m: "map_of m = (\<lambda>k. if k = i then Some \<lparr>lu_slug = sl, lu_unit = u,
        mergedFrom = Some (concat (map (\<lambda>g. leaves (the (map_of byId g))) (dedupe ids)))\<rparr>
       else if k \<in> set ids then None else map_of byId k)"
  have "(lu_slug e, t) \<in> coverage m" if e: "map_of byId k = Some e" "t \<in> set (tcs_of (lu_unit e))" for k e t
  proof (cases "k \<in> set ids")
    case True
    then have "t \<in> set (tcs_of u)" "lu_slug e = sl" using tcs sl e by force+
    then show ?thesis unfolding coverage_def m by auto
  next
    case False
    then have "k \<noteq> i" using assms(2) e(1) i by auto
    with False e m show ?thesis unfolding coverage_def by (auto intro!: exI [of _ k])
  qed
  then show ?thesis by (auto simp: coverage_def [of byId])
qed

lemma tcs_concat: "t \<in> set (concat (map tcs_of us)) \<longleftrightarrow> (\<exists>u \<in> set us. t \<in> set (tcs_of u))"
  by auto

lemma coverage_split_sub:
  assumes "jwf byId" and "split_gate cm byId g parts = Inr m"
  shows "coverage m \<subseteq> coverage byId"
  using assms(2)
proof (rule split_gate_Inr)
  fix src
  let ?us = "split_units cm g parts"
  let ?kvs = "map (\<lambda>u. (unit_id u, synth src u)) ?us"
  assume src: "map_of byId g = Some src"
    and tcs: "set (concat (map tcs_of ?us)) = set (tcs_of (lu_unit src))"
    and m: "m = fold (\<lambda>(k, v). jput k v) ?kvs (jdel g byId)"
  have "(lu_slug e, t) \<in> coverage byId" if e: "map_of m k = Some e" "t \<in> set (tcs_of (lu_unit e))" for k e t
  proof (cases "map_of (rev ?kvs) k")
    case None
    with e(1) have "map_of byId k = Some e" unfolding m map_of_split [OF assms(1)] by (simp split: if_splits)
    with e(2) show ?thesis unfolding coverage_def by blast
  next
    case (Some v)
    with e(1) have "e = v" unfolding m map_of_split [OF assms(1)] by simp
    with map_of_rev_pairs_Some [OF Some] obtain u where u: "u \<in> set ?us" "e = synth src u" by auto
    with e(2) have "t \<in> set (concat (map tcs_of ?us))" unfolding tcs_concat by auto
    then have "t \<in> set (tcs_of (lu_unit src))" by (simp only: tcs)
    with src u(2) show ?thesis unfolding coverage_def by auto
  qed
  then show ?thesis unfolding coverage_def [of m] by blast
qed

lemma mintSplitGateId_inj: "mintSplitGateId g a = mintSplitGateId g b \<longleftrightarrow> a = b"
  by (simp add: mintSplitGateId_def)

lemma distinct_split_ids:
  "distinct (map unit_id (split_units cm g parts)) \<longleftrightarrow> distinct (map part_label parts)"
  by (simp add: split_units_def buildSplitUnit_def comp_def distinct_map inj_on_def mintSplitGateId_inj)

lemma coverage_split_sup:
  assumes "jwf byId" and "split_gate cm byId g parts = Inr m" and "distinct (map part_label parts)"
    and "\<forall>p \<in> set parts. mintSplitGateId g (part_label p) = g \<or> map_of byId (mintSplitGateId g (part_label p)) = None"
  shows "coverage byId \<subseteq> coverage m"
  using assms(2)
proof (rule split_gate_Inr)
  fix src
  let ?us = "split_units cm g parts"
  let ?kvs = "map (\<lambda>u. (unit_id u, synth src u)) ?us"
  assume src: "map_of byId g = Some src"
    and tcs: "set (concat (map tcs_of ?us)) = set (tcs_of (lu_unit src))"
    and m: "m = fold (\<lambda>(k, v). jput k v) ?kvs (jdel g byId)"
  have "(lu_slug e, t) \<in> coverage m" if e: "map_of byId k = Some e" "t \<in> set (tcs_of (lu_unit e))" for k e t
  proof (cases "k = g")
    case True
    with e src have "e = src" by simp
    with e(2) have "t \<in> set (concat (map tcs_of ?us))" by (simp only: tcs)
    then obtain u where u: "u \<in> set ?us" "t \<in> set (tcs_of u)" unfolding tcs_concat by blast
    have "map_of (rev ?kvs) (unit_id u) = Some (synth src u)"
      using assms(3) u(1) by (intro map_of_rev_pairs_distinct) (simp add: distinct_split_ids)
    then have "map_of m (unit_id u) = Some (synth src u)" unfolding m map_of_split [OF assms(1)] by simp
    with u(2) \<open>e = src\<close> show ?thesis unfolding coverage_def by fastforce
  next
    case False
    have "map_of (rev ?kvs) k = None"
    proof (rule ccontr)
      assume "map_of (rev ?kvs) k \<noteq> None"
      then obtain v where "map_of (rev ?kvs) k = Some v" by blast
      from map_of_rev_pairs_Some [OF this] obtain u where "u \<in> set ?us" "unit_id u = k" by blast
      with split_units_unit assms(4) False e(1) show False by fastforce
    qed
    with False e(1) have "map_of m k = Some e" unfolding m map_of_split [OF assms(1)] by simp
    with e(2) show ?thesis unfolding coverage_def by blast
  qed
  then show ?thesis unfolding coverage_def [of byId] by blast
qed

text \<open>
  An operation whose synthetic ids clash with nothing: with no other gate of the map, nor, for a
  split, with each other.
\<close>

fun op_fresh :: "loaded_unit jmap \<Rightarrow> override_op \<Rightarrow> bool" where
  "op_fresh byId (Merge_op ids) =
     (mintMergeGateId (dedupe ids) \<in> set ids \<or> map_of byId (mintMergeGateId (dedupe ids)) = None)"
| "op_fresh byId (Split_op g parts) =
     (distinct (map part_label parts)
      \<and> list_all (\<lambda>p. mintSplitGateId g (part_label p) = g
            \<or> map_of byId (mintSplitGateId g (part_label p)) = None) parts)"

fun ops_fresh :: "string list jmap \<Rightarrow> gate_ops_state \<Rightarrow> override_op list \<Rightarrow> bool" where
  "ops_fresh cm st [] = True"
| "ops_fresh cm st (op # rest) = (op_fresh (fst st) op \<and> ops_fresh cm (apply_op cm op st) rest)"

lemma coverage_apply:
  assumes "jwf (fst st)"
  shows "coverage (fst (apply_op cm op st)) \<subseteq> coverage (fst st)"
    and "op_fresh (fst st) op \<Longrightarrow> coverage (fst (apply_op cm op st)) = coverage (fst st)"
proof -
  show sub: "coverage (fst (apply_op cm op st)) \<subseteq> coverage (fst st)"
    using coverage_merge_sub coverage_split_sub [OF assms]
    by (cases op; cases "rewrite_gates cm (fst st) op") (simp_all add: apply_op_def rewrite_gates_def)
  have "coverage (fst st) \<subseteq> coverage (fst (apply_op cm op st))" if "op_fresh (fst st) op"
    using that coverage_merge_sup coverage_split_sup [OF assms]
    by (cases op; cases "rewrite_gates cm (fst st) op")
       (simp_all add: apply_op_def rewrite_gates_def list_all_iff)
  then show "op_fresh (fst st) op \<Longrightarrow> coverage (fst (apply_op cm op st)) = coverage (fst st)"
    using sub by blast
qed

lemma coverage_run:
  assumes "ops_inv U (fst st)"
  shows "coverage (fst (fold (apply_op cm) os st)) \<subseteq> coverage (fst st)"
    and "ops_fresh cm st os \<Longrightarrow> coverage (fst (fold (apply_op cm) os st)) = coverage (fst st)"
proof -
  have "coverage (fst (fold (apply_op cm) os st)) \<subseteq> coverage (fst st)
    \<and> (ops_fresh cm st os \<longrightarrow> coverage (fst (fold (apply_op cm) os st)) = coverage (fst st))"
    using assms
  proof (induction os arbitrary: st)
    case (Cons op os)
    from Cons.IH [OF ops_inv_apply [OF Cons.prems]] coverage_apply [OF ops_inv_jwf [OF Cons.prems]]
    show ?case by (simp, blast)
  qed simp
  then show "coverage (fst (fold (apply_op cm) os st)) \<subseteq> coverage (fst st)"
    "ops_fresh cm st os \<Longrightarrow> coverage (fst (fold (apply_op cm) os st)) = coverage (fst st)" by blast+
qed

lemma coverage_index:
  assumes "distinct (map (\<lambda>e. unit_id (lu_unit e)) loaded)"
  shows "coverage (index_gates loaded) = gates_cover loaded"
proof -
  have "fold (\<lambda>e. jput (unit_id (lu_unit e)) e) es m = m @ map (\<lambda>e. (unit_id (lu_unit e), e)) es"
    if "distinct (map (\<lambda>e. unit_id (lu_unit e)) es)"
      "set (map (\<lambda>e. unit_id (lu_unit e)) es) \<inter> set (jkeys m) = {}" for es m
    using that by (induction es arbitrary: m) (auto simp: jkeys_jput_fresh)
  from this [OF assms, of "[]"] have ix: "index_gates loaded = map (\<lambda>e. (unit_id (lu_unit e), e)) loaded"
    by (simp add: index_gates_def)
  have "jwf (index_gates loaded)" "jvals (index_gates loaded) = loaded"
    using assms by (simp_all add: ix comp_def)
  then show ?thesis using coverage_vals by metis
qed

lemma gates_result_set:
  "set (gates (applyGateOverrides loc loaded ov cm))
     = set (jvals (fst (fold (apply_op cm) (ops ov) (index_gates loaded, []))))"
  by (simp add: applyGateOverrides_def case_prod_unfold Let_def)

lemma gates_result_cover:
  assumes "\<forall>e \<in> set loaded. mergedFrom e = None"
  shows "gates_cover (gates (applyGateOverrides loc loaded ov cm))
     = coverage (fst (fold (apply_op cm) (ops ov) (index_gates loaded, [])))"
proof -
  have "ops_inv (lu_unit ` set loaded) (fst (fold (apply_op cm) (ops ov) (index_gates loaded, [])))"
    by (rule gate_ops.inv_run) (simp add: ops_inv_index [OF assms])
  from coverage_vals [OF ops_inv_jwf [OF this]] show ?thesis
    unfolding gates_cover_def gates_result_set by simp
qed

lemma split_duplicate_label:
  assumes "split_gate cm [(g, src)] g [p, q] = Inr m" and "part_label p = part_label q"
  shows "m = [(mintSplitGateId g (part_label q), synth src (split_units cm g [p, q] ! 1))]"
    and "set (tcs_of (split_units cm g [p, q] ! 0)) \<inter> set (tcs_of (split_units cm g [p, q] ! 1)) = {}"
    and "set (tcs_of (split_units cm g [p, q] ! 0)) \<subseteq> set (tcs_of (lu_unit src))"
proof -
  obtain src' where s: "map_of [(g, src)] g = Some src'"
    "distinct (concat (map tcs_of (split_units cm g [p, q])))"
    "set (concat (map tcs_of (split_units cm g [p, q]))) = set (tcs_of (lu_unit src'))"
    "m = fold (\<lambda>(k, v). jput k v)
       (map (\<lambda>u. (unit_id u, synth src' u)) (split_units cm g [p, q])) (jdel g [(g, src)])"
    using assms(1) by (rule split_gate_Inr)
  have src: "src' = src" using s(1) by simp
  show "m = [(mintSplitGateId g (part_label q), synth src (split_units cm g [p, q] ! 1))]"
    using assms(2) s(4) by (simp add: src split_units_def buildSplitUnit_def jdel_def)
  show "set (tcs_of (split_units cm g [p, q] ! 0)) \<inter> set (tcs_of (split_units cm g [p, q] ! 1)) = {}"
    using s(2) by (simp add: split_units_def)
  show "set (tcs_of (split_units cm g [p, q] ! 0)) \<subseteq> set (tcs_of (lu_unit src))"
    unfolding s(3) [symmetric, unfolded src] by (simp add: split_units_def)
qed

subsection \<open>Properties\<close>

definition sample_loaded :: "string \<Rightarrow> string \<Rightarrow> string list \<Rightarrow> loaded_unit" where
  "sample_loaded s i tcs = \<lparr>lu_slug = s, lu_unit = (sample_gate tcs)\<lparr>unit_id := i,
     covers := Some [''WU-1'', ''WU-2'']\<rparr>, mergedFrom = None\<rparr>"

definition sample_case_map :: "string list jmap" where
  "sample_case_map = [(''WU-1'', [''T1'']), (''WU-2'', [''T2''])]"

definition sample_split :: "string \<Rightarrow> string \<Rightarrow> overrides_file" where
  "sample_split a b = emptyGateOverrides\<lparr>ops := [Split_op ''VG'' [\<lparr>part_label = a, coversWorkUnitIds = [''WU-1'']\<rparr>,
     \<lparr>part_label = b, coversWorkUnitIds = [''WU-2'']\<rparr>]]\<rparr>"

lemmas split_eval = index_gates_def split_gate_def validateCoversPartition_def validateGatingSetPartition_def
  split_units_def buildSplitUnit_def dedupe_def Let_def

lemmas sample_override_defs = sample_loaded_def sample_gate_def sample_case_map_def sample_split_def
  emptyGateOverrides_def

text \<open>
  The two partition checks of a split accept exactly the partitions: every work unit the source
  covers, and every case it gates on, is in exactly one part, and no part names another.
\<close>

theorem partition_checks_exact:
  "(validateCoversPartition src parts = None \<longleftrightarrow> distinct (concat parts) \<and> set (concat parts) = set src)
   \<and> (validateGatingSetPartition src parts = None \<longleftrightarrow>
       distinct (concat parts) \<and> set (concat parts) = set src)"
  using validateCovers_None validateGating_None by blast



text \<open>
  Sign-off only ever reaches real tracker issues: the source gates an effective gate fans out
  to are gates that were loaded, never a synthetic one, however merges and splits are nested.
\<close>

theorem leaves_are_loaded:
  assumes "\<forall>e \<in> set loaded. mergedFrom e = None" and "e \<in> set (gates (applyGateOverrides loc loaded ov cm))"
  shows "set (leaves e) \<subseteq> lu_unit ` set loaded"
proof -
  have inv: "ops_inv (lu_unit ` set loaded) (fst (fold (apply_op cm) (ops ov) (index_gates loaded, [])))"
    by (rule gate_ops.inv_run) (simp add: ops_inv_index [OF assms(1)])
  from assms(2) obtain k where "(k, e) \<in> set (fst (fold (apply_op cm) (ops ov) (index_gates loaded, [])))"
    unfolding gates_result_set by auto
  then have "map_of (fst (fold (apply_op cm) (ops ov) (index_gates loaded, []))) k = Some e"
    by (rule map_of_is_SomeI [OF ops_inv_jwf [OF inv]])
  then show ?thesis using ops_invD [OF inv] by blast
qed

theorem leaves_are_loaded_witness:
  "set (leaves (hd (gates (applyGateOverrides (\<lambda>a b. 0) [sample_loaded ''s'' ''VG'' [''T1'', ''T2'']]
      (sample_split ''a'' ''b'') sample_case_map)))) \<subseteq> lu_unit ` set [sample_loaded ''s'' ''VG'' [''T1'', ''T2'']]"
proof -
  let ?gs = "gates (applyGateOverrides (\<lambda>a b. 0) [sample_loaded ''s'' ''VG'' [''T1'', ''T2'']]
      (sample_split ''a'' ''b'') sample_case_map)"
  have "length ?gs = 2"
    by (simp add: sample_override_defs applyGateOverrides_def apply_op_def rewrite_gates_def split_eval
        mintSplitGateId_def jdel_def)
  then have "?gs \<noteq> []" by auto
  then have "hd ?gs \<in> set ?gs" by simp
  then show ?thesis by (intro leaves_are_loaded) (simp_all add: sample_loaded_def)
qed

text \<open>
  The condition on labels is needed: a split whose two parts carry the same label passes both
  partition checks and is recorded, and every case of the first part then gates nothing, because
  the second part replaces it under the same synthetic id.
\<close>

theorem duplicate_labels_lose_cases:
  assumes "split_gate cm (index_gates [src]) (unit_id (lu_unit src)) [p, q] = Inr m"
    and "part_label p = part_label q"
    and "t \<in> set (tcs_of (split_units cm (unit_id (lu_unit src)) [p, q] ! 0))"
    and "ops ov = [Split_op (unit_id (lu_unit src)) [p, q]]"
  shows "dropped_ops (applyGateOverrides loc [src] ov cm) = []
    \<and> (lu_slug src, t) \<in> gates_cover [src]
    \<and> (lu_slug src, t) \<notin> gates_cover (gates (applyGateOverrides loc [src] ov cm))"
proof -
  have ix: "index_gates [src] = [(unit_id (lu_unit src), src)]" by (simp add: index_gates_def)
  note dup = split_duplicate_label [OF assms(1) [unfolded ix] assms(2)]
  have run: "fold (apply_op cm) (ops ov) (index_gates [src], []) = (m, [])"
    using assms(1,4) by (simp add: apply_op_def rewrite_gates_def)
  have "set (gates (applyGateOverrides loc [src] ov cm))
      = {synth src (split_units cm (unit_id (lu_unit src)) [p, q] ! 1)}"
    unfolding gates_result_set run using dup(1) by simp
  moreover have "t \<notin> set (tcs_of (split_units cm (unit_id (lu_unit src)) [p, q] ! 1))"
    using dup(2) assms(3) by blast
  moreover have "t \<in> set (tcs_of (lu_unit src))" using dup(3) assms(3) by blast
  moreover have "dropped_ops (applyGateOverrides loc [src] ov cm) = []"
    unfolding applyGateOverrides_def run by simp
  ultimately show ?thesis by (simp add: gates_cover_def)
qed

theorem duplicate_labels_lose_cases_witness:
  "(''s'', ''T1'') \<notin> gates_cover (gates (applyGateOverrides (\<lambda>a b. 0)
     [sample_loaded ''s'' ''VG'' [''T1'', ''T2'']] (sample_split ''a'' ''a'') sample_case_map))"
proof -
  let ?src = "sample_loaded ''s'' ''VG'' [''T1'', ''T2'']"
  let ?p = "\<lparr>part_label = ''a'', coversWorkUnitIds = [''WU-1'']\<rparr>"
  let ?q = "\<lparr>part_label = ''a'', coversWorkUnitIds = [''WU-2'']\<rparr>"
  have "\<exists>m. split_gate sample_case_map (index_gates [?src]) (unit_id (lu_unit ?src)) [?p, ?q] = Inr m"
    by (simp add: sample_override_defs split_eval)
  then obtain m where m: "split_gate sample_case_map (index_gates [?src]) (unit_id (lu_unit ?src)) [?p, ?q] = Inr m" ..
  have "''T1'' \<in> set (tcs_of (split_units sample_case_map (unit_id (lu_unit ?src)) [?p, ?q] ! 0))"
    by (simp add: split_units_def buildSplitUnit_def sample_case_map_def)
  from duplicate_labels_lose_cases [OF m _ this, of "sample_split ''a'' ''a''" "\<lambda>a b. 0"] show ?thesis
    by (simp add: sample_loaded_def sample_split_def)
qed

text \<open>
  The working map is keyed by the unit id alone: when two specs define gates with the same id,
  an unscoped load shows only the last one, and the other gate disappears without a report.
\<close>

theorem same_id_gate_disappears:
  assumes "unit_id (lu_unit a) = unit_id (lu_unit b)"
  shows "applyGateOverrides loc [a, b] emptyGateOverrides cm = \<lparr>gates = [b], dropped_ops = []\<rparr>"
  using assms by (simp add: applyGateOverrides_def emptyGateOverrides_def index_gates_def sort_by_def)

theorem same_id_gate_disappears_witness:
  "gates (applyGateOverrides (\<lambda>a b. 0) [sample_loaded ''s1'' ''WU-9'' [''T1''], sample_loaded ''s2'' ''WU-9'' [''T2'']]
     emptyGateOverrides []) = [sample_loaded ''s2'' ''WU-9'' [''T2'']]"
  by (subst same_id_gate_disappears) (simp_all add: sample_loaded_def)

end
