(* ===== verification/TrackerActions.thy ===== *)
theory TrackerActions
  imports Flow GateOverrides
begin

section \<open>Gates and the issue tracker\<close>

text \<open>
  \<open>server/services/gate-lifecycle-coordinator.ts\<close>, \<open>tracker-action-gateway.ts\<close>,
  \<open>gate-external-id.ts\<close>, \<open>fix-issue-filer.ts\<close> and \<open>start-gate.ts\<close>, with the sign-off routes of
  \<open>server/routes/gates.ts\<close> and the guard of \<open>server/routes/benches.ts\<close> and \<open>issues.ts\<close>: closing
  and reopening the tracker issue of a verify gate, filing an issue that blocks it, and refusing to
  start work on an issue that an open gate blocks. What the integration plugin answers is the record
  \<open>tracker_env\<close>, with the path of a parsed URL; time stamps are left out, and the texts of errors are
  shortened to what tells them apart.
\<close>

subsection \<open>Issues and transitions\<close>

record issue =
  currentState :: string
  allowedTransitions :: "string list"
  blockedBy :: "string list"

definition DONE_STATUSES :: "string list" where
  "DONE_STATUSES = [''done'', ''closed'', ''archived'', ''cancelled'']"

definition isDone :: "issue \<Rightarrow> bool" where
  "isDone i \<longleftrightarrow> lower (currentState i) \<in> set DONE_STATUSES"

definition naming :: "string \<Rightarrow> string list \<Rightarrow> string option" where
  "naming verb ts = find (\<lambda>t. str_includes verb (lower t)) ts"

text \<open>A match is used as a condition, so an empty name is no match.\<close>

definition first_naming :: "string list \<Rightarrow> string list \<Rightarrow> string option" where
  "first_naming verbs ts = first_some (\<lambda>verb. if truthy (naming verb ts) then naming verb ts else None) verbs"

definition pickDoneTransition :: "issue \<Rightarrow> string option" where
  "pickDoneTransition i =
     (case first_naming [''close'', ''done'', ''resolve'', ''complete'', ''finish''] (allowedTransitions i) of
        Some t \<Rightarrow> Some t
      | None \<Rightarrow> find (\<lambda>t. lower t \<in> set DONE_STATUSES) (allowedTransitions i))"

definition pickReopenTransition :: "issue \<Rightarrow> string option" where
  "pickReopenTransition i = first_naming [''reopen'', ''open''] (allowedTransitions i)"

subsection \<open>What is done and recorded\<close>

datatype tracker_verb = Create_issue | Add_blocked_by | Close_gate | Reopen_gate

datatype action_outcome = Applied | Skipped | Refused string

record action_audit =
  aa_projectId :: string
  aa_pluginId :: string
  aa_action :: tracker_verb
  aa_outcome :: action_outcome
  aa_refs :: "(string \<times> string) list"

datatype gate_outcome = Closed | Already_done | Reopened | Already_open

record gate_audit =
  ga_projectId :: string
  ga_pluginId :: string
  ga_gateId :: string
  ga_trackerRef :: string
  ga_transition :: "string option"
  ga_outcome :: gate_outcome

datatype tracker_event =
    Get_issue string string
  | Apply_transition string string string
  | Created string string string "string option"
  | Linked string string string
  | Evidence_written string string
  | Note_appended string string
  | Gate_audited gate_audit
  | Action_audited action_audit

datatype tracker_error =
    No_active_integration | Capability_absent string | Not_consented
  | Empty_notes | Tracker_failure string | Route_error int string | Service_error int string string "string list"

type_synonym 'a tracker_flow = "(tracker_event, tracker_error, 'a) action"

record tracker_env =
  te_active :: "string \<Rightarrow> string option"
  te_capabilities :: "string \<Rightarrow> (string \<Rightarrow> bool) option"
  te_consent :: "string \<Rightarrow> bool"
  te_getIssue :: "string \<Rightarrow> string \<Rightarrow> tracker_error + issue"
  te_applyTransition :: "string \<Rightarrow> string \<Rightarrow> string \<Rightarrow> tracker_error + unit"
  te_createIssue :: "string \<Rightarrow> tracker_error + string"
  te_addBlockedBy :: "string \<Rightarrow> string \<Rightarrow> string \<Rightarrow> tracker_error + unit"
  te_writeEvidence :: "string \<Rightarrow> tracker_error + unit"
  te_appendNote :: "tracker_error + unit"
  te_pathname :: "string \<Rightarrow> string option"

subsection \<open>External ids\<close>

definition repoFullNameFromUrl :: "tracker_env \<Rightarrow> string \<Rightarrow> string option" where
  "repoFullNameFromUrl env url = (case te_pathname env url of
       None \<Rightarrow> None
     | Some path \<Rightarrow> (case filter (\<lambda>s. s \<noteq> []) (split_on CHR ''/'' path) of
           a # b # _ \<Rightarrow> Some (a @ ''/'' @ b)
         | _ \<Rightarrow> None))"

definition gateTrackerExternalId :: "tracker_env \<Rightarrow> tracker \<Rightarrow> string tracker_flow" where
  "gateTrackerExternalId env t =
     (if CHR ''#'' \<in> set (tracker_ref t) then pass (tracker_ref t)
      else if tracker_system_of t = Jira then pass (tracker_ref t)
      else case repoFullNameFromUrl env (tracker_url t) of
          None \<Rightarrow> raise (Tracker_failure (''Cannot qualify tracker ref '' @ [dquote] @ tracker_ref t @ [dquote]))
        | Some full \<Rightarrow> pass (full @ ''#'' @ tracker_ref t))"

definition tracker_ref_of :: "work_unit \<Rightarrow> string option" where
  "tracker_ref_of gate = (case tracker_of gate of None \<Rightarrow> None
     | Some t \<Rightarrow> if tracker_ref t = [] then None else Some (tracker_ref t))"

subsection \<open>The coordinator\<close>

definition gate_audit_of :: "string \<Rightarrow> string \<Rightarrow> work_unit \<Rightarrow> string option \<Rightarrow> gate_outcome \<Rightarrow> tracker_event" where
  "gate_audit_of projectId pluginId gate t out =
     Gate_audited \<lparr>ga_projectId = projectId, ga_pluginId = pluginId, ga_gateId = unit_id gate,
       ga_trackerRef = coalesce (tracker_ref_of gate) [], ga_transition = t, ga_outcome = out\<rparr>"

text \<open>Closing and reopening differ in when there is nothing to do, in the transition and in the audit.\<close>

definition move_issue ::
    "tracker_env \<Rightarrow> (issue \<Rightarrow> bool) \<Rightarrow> (issue \<Rightarrow> string option) \<Rightarrow> gate_outcome \<Rightarrow> gate_outcome \<Rightarrow>
     string \<Rightarrow> work_unit \<Rightarrow> string \<Rightarrow> unit tracker_flow" where
  "move_issue env settled pick already moved projectId gate pluginId =
     (case tracker_of gate of
        None \<Rightarrow> pass ()
      | Some t \<Rightarrow>
          if tracker_ref t = [] then pass ()
          else and_then (gateTrackerExternalId env t) (\<lambda>externalId.
            and_then (ask (Get_issue pluginId externalId) (te_getIssue env pluginId externalId)) (\<lambda>i.
              if settled i then act [gate_audit_of projectId pluginId gate None already]
              else case pick i of
                  None \<Rightarrow> raise (Tracker_failure (''Cannot move gate '' @ unit_id gate))
                | Some name \<Rightarrow>
                    if name = [] then raise (Tracker_failure (''Cannot move gate '' @ unit_id gate))
                    else and_then (ask (Apply_transition pluginId externalId name) (te_applyTransition env pluginId externalId name)) (\<lambda>_.
                      act [gate_audit_of projectId pluginId gate (Some name) moved]))))"

definition onGatePassed :: "tracker_env \<Rightarrow> string \<Rightarrow> work_unit \<Rightarrow> string \<Rightarrow> unit tracker_flow" where
  "onGatePassed env = move_issue env isDone pickDoneTransition Already_done Closed"

definition onGateReopened :: "tracker_env \<Rightarrow> string \<Rightarrow> work_unit \<Rightarrow> string \<Rightarrow> unit tracker_flow" where
  "onGateReopened env = move_issue env (\<lambda>i. \<not> isDone i) pickReopenTransition Already_open Reopened"

subsection \<open>The gateway\<close>

definition requireActivePlugin :: "tracker_env \<Rightarrow> string \<Rightarrow> string tracker_flow" where
  "requireActivePlugin env projectId = (case te_active env projectId of
       None \<Rightarrow> raise No_active_integration | Some pluginId \<Rightarrow> pass pluginId)"

definition has_capability :: "tracker_env \<Rightarrow> string \<Rightarrow> string \<Rightarrow> bool" where
  "has_capability env pluginId flag = (case te_capabilities env pluginId of None \<Rightarrow> False | Some c \<Rightarrow> c flag)"

fun REQUIRED_CAPABILITY :: "tracker_verb \<Rightarrow> string option" where
  "REQUIRED_CAPABILITY Create_issue = Some ''supportsCreateIssue''"
| "REQUIRED_CAPABILITY Add_blocked_by = Some ''supportsBlockingLinks''"
| "REQUIRED_CAPABILITY Close_gate = None"
| "REQUIRED_CAPABILITY Reopen_gate = None"

definition audited :: "string \<Rightarrow> string \<Rightarrow> tracker_verb \<Rightarrow> action_outcome \<Rightarrow> (string \<times> string) list \<Rightarrow> tracker_event" where
  "audited projectId pluginId verb out refs = Action_audited
     \<lparr>aa_projectId = projectId, aa_pluginId = pluginId, aa_action = verb, aa_outcome = out, aa_refs = refs\<rparr>"

definition enforceGuards :: "tracker_env \<Rightarrow> string \<Rightarrow> string \<Rightarrow> tracker_verb \<Rightarrow> (string \<times> string) list \<Rightarrow> unit tracker_flow" where
  "enforceGuards env projectId pluginId verb refs =
     (if \<not> te_consent env pluginId
      then and_then (act [audited projectId pluginId verb (Refused ''plugin not consented'') refs]) (\<lambda>_. raise Not_consented)
      else case REQUIRED_CAPABILITY verb of
          None \<Rightarrow> pass ()
        | Some flag \<Rightarrow>
            if has_capability env pluginId flag then pass ()
            else and_then (act [audited projectId pluginId verb (Refused (''capability '' @ flag @ '' not declared'')) refs])
                   (\<lambda>_. raise (Capability_absent flag)))"

definition createIssue :: "tracker_env \<Rightarrow> string \<Rightarrow> string \<Rightarrow> string \<Rightarrow> string option \<Rightarrow> string tracker_flow" where
  "createIssue env projectId repoFullName title body =
     and_then (requireActivePlugin env projectId) (\<lambda>pluginId.
     and_then (enforceGuards env projectId pluginId Create_issue [(''repoFullName'', repoFullName), (''title'', title)]) (\<lambda>_.
     and_then (ask (Created pluginId repoFullName title body) (te_createIssue env pluginId)) (\<lambda>ref.
     and_then (act [audited projectId pluginId Create_issue Applied [(''repoFullName'', repoFullName), (''title'', title), (''ref'', ref)]])
       (\<lambda>_. pass ref))))"

definition addBlockedBy :: "tracker_env \<Rightarrow> string \<Rightarrow> string \<Rightarrow> string \<Rightarrow> unit tracker_flow" where
  "addBlockedBy env projectId blockedRef blockerRef =
     (let refs = [(''blockedRef'', blockedRef), (''blockerRef'', blockerRef)] in
      and_then (requireActivePlugin env projectId) (\<lambda>pluginId.
      and_then (enforceGuards env projectId pluginId Add_blocked_by refs) (\<lambda>_.
      and_then (ask (Linked pluginId blockedRef blockerRef) (te_addBlockedBy env pluginId blockedRef blockerRef)) (\<lambda>_.
      act [audited projectId pluginId Add_blocked_by Applied refs]))))"

definition gate_action ::
    "tracker_env \<Rightarrow> tracker_verb \<Rightarrow> (string \<Rightarrow> work_unit \<Rightarrow> string \<Rightarrow> unit tracker_flow) \<Rightarrow> string \<Rightarrow> work_unit \<Rightarrow> unit tracker_flow" where
  "gate_action env verb move projectId gate =
     (let refs = (''gateId'', unit_id gate) # (case tracker_ref_of gate of None \<Rightarrow> [] | Some r \<Rightarrow> [(''trackerRef'', r)]) in
      and_then (requireActivePlugin env projectId) (\<lambda>pluginId.
      and_then (enforceGuards env projectId pluginId verb refs) (\<lambda>_.
      if tracker_ref_of gate = None then act [audited projectId pluginId verb Skipped refs]
      else and_then (move projectId gate pluginId) (\<lambda>_. act [audited projectId pluginId verb Applied refs]))))"

definition closeGate :: "tracker_env \<Rightarrow> string \<Rightarrow> work_unit \<Rightarrow> unit tracker_flow" where
  "closeGate env = gate_action env Close_gate (onGatePassed env)"

definition reopenGate :: "tracker_env \<Rightarrow> string \<Rightarrow> work_unit \<Rightarrow> unit tracker_flow" where
  "reopenGate env = gate_action env Reopen_gate (onGateReopened env)"

subsection \<open>Filing a fix issue\<close>

datatype link_status = Link_complete | Link_pending

record fix_issue_record =
  fixIssueRef :: string
  fix_gateRef :: string
  failedCaseId :: string
  linkStatus :: link_status

record fix_params =
  fp_repoFullName :: string
  fp_failedCaseId :: string
  fp_gateRef :: string
  fp_additionalGateRefs :: "string list"
  fp_notes :: string
  fp_existingFixRef :: "string option"

definition preflightCapabilities :: "tracker_env \<Rightarrow> string \<Rightarrow> string list \<Rightarrow> unit tracker_flow" where
  "preflightCapabilities env projectId flags =
     and_then (requireActivePlugin env projectId) (\<lambda>pluginId.
       each_of (\<lambda>flag. if has_capability env pluginId flag then pass () else raise (Capability_absent flag)) flags)"

definition link_all :: "tracker_env \<Rightarrow> string \<Rightarrow> string \<Rightarrow> string list \<Rightarrow> unit tracker_flow" where
  "link_all env projectId fixRef blockedRefs = each_of (\<lambda>r. addBlockedBy env projectId r fixRef) blockedRefs"

definition fix_record :: "fix_params \<Rightarrow> string \<Rightarrow> link_status \<Rightarrow> fix_issue_record" where
  "fix_record p ref st = \<lparr>fixIssueRef = ref, fix_gateRef = fp_gateRef p, failedCaseId = fp_failedCaseId p, linkStatus = st\<rparr>"

definition fix_title :: "fix_params \<Rightarrow> string" where
  "fix_title p = ''Fix failed verify case '' @ fp_failedCaseId p @ '' blocking gate '' @ fp_gateRef p"

definition fileFixIssueAndBlock :: "tracker_env \<Rightarrow> string \<Rightarrow> fix_params \<Rightarrow> fix_issue_record tracker_flow" where
  "fileFixIssueAndBlock env projectId p =
     (let blockedRefs = fp_gateRef p # fp_additionalGateRefs p in
      if trim (fp_notes p) = [] then raise Empty_notes
      else if truthy (fp_existingFixRef p)
      then and_then (preflightCapabilities env projectId [''supportsBlockingLinks'']) (\<lambda>_.
           and_then (link_all env projectId (the (fp_existingFixRef p)) blockedRefs) (\<lambda>_.
           pass (fix_record p (the (fp_existingFixRef p)) Link_complete)))
      else and_then (preflightCapabilities env projectId [''supportsCreateIssue'', ''supportsBlockingLinks'']) (\<lambda>_.
           and_then (createIssue env projectId (fp_repoFullName p) (fix_title p) (Some (fp_notes p))) (\<lambda>ref.
           case link_all env projectId ref blockedRefs of
             (es, Inl e) \<Rightarrow> (es, Inr (fix_record p ref Link_pending))
           | (es, Inr _) \<Rightarrow> (es, Inr (fix_record p ref Link_complete)))))"

subsection \<open>The routes of a gate\<close>

definition find_gate :: "string \<Rightarrow> loaded_unit list \<Rightarrow> loaded_unit tracker_flow" where
  "find_gate gateId gs = (case find (\<lambda>g. unit_id (lu_unit g) = gateId) gs of
       None \<Rightarrow> raise (Route_error 404 (''Gate not found: '' @ gateId)) | Some g \<Rightarrow> pass g)"

definition tracked_targets :: "loaded_unit \<Rightarrow> work_unit list tracker_flow" where
  "tracked_targets loaded =
     (let untracked = filter (\<lambda>t. tracker_ref_of t = None) (leaves loaded)
      in if untracked \<noteq> [] then raise (Route_error 409 (join_with '', '' (map unit_id untracked) @ '' have no tracker issue''))
         else pass (leaves loaded))"

definition sign_off :: "tracker_env \<Rightarrow> (loaded_unit \<Rightarrow> gate_status) \<Rightarrow> string \<Rightarrow> loaded_unit list \<Rightarrow> string \<Rightarrow> unit tracker_flow" where
  "sign_off env statusOf projectId gs gateId =
     and_then (find_gate gateId gs) (\<lambda>loaded.
       if statusOf loaded \<noteq> Gate_passed then raise (Route_error 409 ''cannot be signed off'')
       else and_then (tracked_targets loaded) (each_of (closeGate env projectId)))"

definition undo_sign_off :: "tracker_env \<Rightarrow> string \<Rightarrow> loaded_unit list \<Rightarrow> string \<Rightarrow> unit tracker_flow" where
  "undo_sign_off env projectId gs gateId =
     and_then (find_gate gateId gs) (\<lambda>loaded. and_then (tracked_targets loaded) (each_of (reopenGate env projectId)))"

text \<open>\<open>/^([^#\s]+\/[^#\s]+)#\d+$/\<close>.\<close>

definition repoFullNameFromRef :: "string \<Rightarrow> string option" where
  "repoFullNameFromRef ref = (case split_on CHR ''#'' ref of
       [full, number] \<Rightarrow>
         if number \<noteq> [] \<and> list_all (\<lambda>c. CHR ''0'' \<le> c \<and> c \<le> CHR ''9'') number \<and> \<not> list_ex is_ws full
            \<and> CHR ''/'' \<in> set (butlast (tl full))
         then Some full else None
     | _ \<Rightarrow> None)"

fun external_ids :: "tracker_env \<Rightarrow> work_unit list \<Rightarrow> string list tracker_flow" where
  "external_ids env [] = pass []"
| "external_ids env (t # ts) = (case tracker_of t of
       None \<Rightarrow> external_ids env ts
     | Some tr \<Rightarrow> and_then (gateTrackerExternalId env tr) (\<lambda>r. and_then (external_ids env ts) (\<lambda>rs. pass (r # rs))))"

definition post_fix_issue ::
    "tracker_env \<Rightarrow> string \<Rightarrow> loaded_unit list \<Rightarrow> string \<Rightarrow> string \<Rightarrow> string \<Rightarrow> string option \<Rightarrow> string option \<Rightarrow> (int \<times> fix_issue_record) tracker_flow" where
  "post_fix_issue env projectId gs gateId caseId fixNotes evidence existing =
     and_then (find_gate gateId gs) (\<lambda>loaded.
     if caseId = [] then raise (Route_error 400 ''fix-issue filing requires a non-empty failedCaseId'')
     else and_then (tracked_targets loaded) (\<lambda>targets.
     and_then (external_ids env targets) (\<lambda>refs.
     case repoFullNameFromRef (hd refs) of
       None \<Rightarrow> raise (Route_error 409 ''not a GitHub ref'')
     | Some full \<Rightarrow>
         if trim fixNotes = [] then raise Empty_notes
         else and_then (if truthy existing then pass ()
                        else and_then (if truthy evidence then ask (Evidence_written (the evidence) fixNotes) (te_writeEvidence env (the evidence)) else pass ())
                               (\<lambda>_. ask (Note_appended caseId fixNotes) (te_appendNote env))) (\<lambda>_.
              and_then (fileFixIssueAndBlock env projectId
                \<lparr>fp_repoFullName = full, fp_failedCaseId = caseId, fp_gateRef = hd refs, fp_additionalGateRefs = tl refs,
                  fp_notes = fixNotes, fp_existingFixRef = (if truthy existing then existing else None)\<rparr>) (\<lambda>r.
              pass (if linkStatus r = Link_complete then 201 else 207, r))))))"

subsection \<open>The start gate\<close>

definition indeterminate :: "string \<Rightarrow> string \<Rightarrow> tracker_error" where
  "indeterminate externalId why = Service_error 409 (''Cannot determine the gate state for issue '' @ externalId @ '' ('' @ why
     @ ''); refusing to start (fail-closed)'') ''GATE_INDETERMINATE'' []"

definition resolveEnforceIssueDependencies :: "bool option \<Rightarrow> bool option \<Rightarrow> bool \<Rightarrow> bool" where
  "resolveEnforceIssueDependencies override setting fallback = coalesce override (coalesce setting fallback)"

text \<open>What the bounded read of an issue comes to: an answer, a rejection, or nothing within its time.\<close>

datatype issue_read = Answered issue | Rejected tracker_error | Hung

definition DEFAULT_GATE_TIMEOUT_MS :: int where "DEFAULT_GATE_TIMEOUT_MS = 3000"

definition fetchIssueBounded :: "issue_read \<Rightarrow> string \<Rightarrow> int \<Rightarrow> tracker_error + issue" where
  "fetchIssueBounded r externalId timeoutMs = (case r of
       Answered i \<Rightarrow> Inr i
     | Rejected (Service_error st m c bs) \<Rightarrow> Inl (Service_error st m c bs)
     | Rejected _ \<Rightarrow> Inl (indeterminate externalId ''blocking-read failed'')
     | Hung \<Rightarrow> Inl (indeterminate externalId (''blocking-read timed out after '' @ int_str timeoutMs @ ''ms'')))"

definition resolveBlockedBy :: "issue_read \<Rightarrow> string \<Rightarrow> string option \<Rightarrow> issue option \<Rightarrow> tracker_error + string list" where
  "resolveBlockedBy r externalId pluginId prefetched = (case prefetched of
       Some i \<Rightarrow> Inr (blockedBy i)
     | None \<Rightarrow> if \<not> truthy pluginId then Inl (indeterminate externalId ''no active integration plugin'')
         else map_sum id blockedBy (fetchIssueBounded r externalId DEFAULT_GATE_TIMEOUT_MS))"

definition assertGateOpen :: "bool \<Rightarrow> issue_read \<Rightarrow> string \<Rightarrow> string option \<Rightarrow> issue option \<Rightarrow> tracker_error + unit" where
  "assertGateOpen enforce r externalId pluginId prefetched =
     (if \<not> enforce then Inr ()
      else case resolveBlockedBy r externalId pluginId prefetched of
          Inl e \<Rightarrow> Inl e
        | Inr [] \<Rightarrow> Inr ()
        | Inr bs \<Rightarrow> Inl (Service_error 409 (''Issue '' @ externalId @ '' is blocked by an unresolved upstream gate: '' @ join_with '', '' bs)
            ''GATE_BLOCKED'' bs))"

text \<open>Without enforcement the read is the plain call, which the plugin manager bounds itself.\<close>

definition fetchIssueForStart :: "bool \<Rightarrow> issue_read \<Rightarrow> tracker_error + issue \<Rightarrow> string \<Rightarrow> string option \<Rightarrow> tracker_error + issue" where
  "fetchIssueForStart enforce r plain externalId pluginId =
     (if \<not> truthy pluginId then Inl (indeterminate externalId ''no active integration plugin'')
      else if \<not> enforce then plain
      else fetchIssueBounded r externalId DEFAULT_GATE_TIMEOUT_MS)"

text \<open>
  The guard of the route that creates a bench for an issue: what it goes on with, or its refusal. The
  route that assigns an issue to a bench differs only in answering 503 at once without a plugin.
\<close>

definition start_on_issue :: "bool \<Rightarrow> issue_read \<Rightarrow> tracker_error + issue \<Rightarrow> string \<Rightarrow> string option \<Rightarrow> tracker_error + issue" where
  "start_on_issue enforce r plain externalId pluginId =
     (case pluginId of
        None \<Rightarrow> (case assertGateOpen enforce r externalId None None of
            Inl e \<Rightarrow> Inl e | Inr _ \<Rightarrow> Inl (Route_error 503 ''no-active-integration''))
      | Some _ \<Rightarrow> (case fetchIssueForStart enforce r plain externalId pluginId of
            Inl e \<Rightarrow> Inl e
          | Inr i \<Rightarrow> map_sum id (\<lambda>_. i) (assertGateOpen enforce r externalId pluginId (Some i))))"

subsection \<open>What reaches the tracker\<close>

text \<open>The plugin of a write is the project's active one, consented, with the capability the write needs.\<close>

fun authorised :: "tracker_env \<Rightarrow> string \<Rightarrow> tracker_event \<Rightarrow> bool" where
  "authorised env prj (Get_issue p x) = (te_active env prj = Some p \<and> te_consent env p)"
| "authorised env prj (Apply_transition p x n) = (te_active env prj = Some p \<and> te_consent env p)"
| "authorised env prj (Created p f t b) = (te_active env prj = Some p \<and> te_consent env p \<and> has_capability env p ''supportsCreateIssue'')"
| "authorised env prj (Linked p a b) = (te_active env prj = Some p \<and> te_consent env p \<and> has_capability env p ''supportsBlockingLinks'')"
| "authorised env prj (Evidence_written f t) = True"
| "authorised env prj (Note_appended c t) = True"
| "authorised env prj (Gate_audited a) = True"
| "authorised env prj (Action_audited a) = True"

lemma only_active [flow_rules]: "(\<And>p. te_active env prj = Some p \<Longrightarrow> only Q (k p)) \<Longrightarrow> only Q (and_then (requireActivePlugin env prj) k)"
  by (auto simp: requireActivePlugin_def and_then_def raise_def pass_def only_def split: option.split)

lemma only_guarded:
  assumes "te_consent env p \<Longrightarrow> (\<And>flag. REQUIRED_CAPABILITY verb = Some flag \<Longrightarrow> has_capability env p flag) \<Longrightarrow> only Q (k ())"
    and "\<And>a. Q (Action_audited a)"
  shows "only Q (and_then (enforceGuards env prj p verb refs) k)"
  using assms by (auto simp: enforceGuards_def flow_defs only_def audited_def split: option.split)

lemma audits_authorised [simp]: "authorised env prj (gate_audit_of a b g t out)" "authorised env prj (audited a b v oc refs)"
  by (simp_all add: gate_audit_of_def audited_def)

lemma move_authorised:
  "te_active env prj = Some p \<Longrightarrow> te_consent env p \<Longrightarrow> only (authorised env prj) (move_issue env settled pick a m prj gate p)"
  unfolding move_issue_def
  by (auto intro!: flow_rules simp: gateTrackerExternalId_def split: option.split)

lemma gate_action_authorised: "verb \<in> {Close_gate, Reopen_gate} \<Longrightarrow>
    only (authorised env prj) (gate_action env verb (move_issue env settled pick a m) prj gate)"
  unfolding gate_action_def Let_def
  by (intro only_active only_guarded) (auto intro!: flow_rules move_authorised)

lemma gates_authorised: "only (authorised env prj) (closeGate env prj gate)" "only (authorised env prj) (reopenGate env prj gate)"
  unfolding closeGate_def reopenGate_def onGatePassed_def onGateReopened_def by (rule gate_action_authorised, simp)+

lemma issues_authorised: "only (authorised env prj) (createIssue env prj full title body)" "only (authorised env prj) (addBlockedBy env prj a b)"
  unfolding createIssue_def addBlockedBy_def Let_def
  by (intro only_active only_guarded; auto intro!: flow_rules)+

lemma silent_parts [flow_rules]:
  "only Q (find_gate g gs)" "only Q (tracked_targets l)" "only Q (preflightCapabilities env prj flags)" "only Q (external_ids env ts)"
  "only Q (gateTrackerExternalId env t)"
proof -
  show ext: "only Q (gateTrackerExternalId env t)" for t
    by (auto simp: gateTrackerExternalId_def intro!: flow_rules split: option.split)
  show "only Q (external_ids env ts)"
    by (induction ts) (auto intro!: flow_rules ext split: option.split)
qed (auto simp: find_gate_def tracked_targets_def Let_def preflightCapabilities_def intro!: flow_rules split: option.split)

lemma link_all_authorised: "only (authorised env prj) (link_all env prj r refs)"
  unfolding link_all_def by (intro only_each issues_authorised)

lemma only_settle: "only Q m \<Longrightarrow> only Q (case m of (es, Inl e) \<Rightarrow> (es, Inr a) | (es, Inr u) \<Rightarrow> (es, Inr b))"
  by (auto simp: only_def split: prod.split sum.split)

lemma filing_authorised: "only (authorised env prj) (fileFixIssueAndBlock env prj p)"
  unfolding fileFixIssueAndBlock_def Let_def
  by (auto intro!: flow_rules link_all_authorised issues_authorised only_settle)


subsection \<open>Sign-off\<close>

fun moves_issue :: "tracker_event \<Rightarrow> bool" where
  "moves_issue (Apply_transition p x n) = True"
| "moves_issue e = False"

text \<open>The issue of a gate was seen done, or was moved by the transition chosen for it, without an error.\<close>

definition issue_settled :: "tracker_env \<Rightarrow> string \<Rightarrow> tracker_event list \<Rightarrow> work_unit \<Rightarrow> bool" where
  "issue_settled env prj es gate \<longleftrightarrow> (\<exists>p tr x i. te_active env prj = Some p \<and> tracker_of gate = Some tr
     \<and> gateTrackerExternalId env tr = ([], Inr x) \<and> Get_issue p x \<in> set es \<and> te_getIssue env p x = Inr i
     \<and> (isDone i \<or> (\<exists>n. pickDoneTransition i = Some n \<and> Apply_transition p x n \<in> set es \<and> te_applyTransition env p x n = Inr ())))"

lemma issue_settled_mono: "issue_settled env prj es gate \<Longrightarrow> set es \<subseteq> set fs \<Longrightarrow> issue_settled env prj fs gate"
  unfolding issue_settled_def by blast

lemma external_silent: "fst (gateTrackerExternalId env t) = []"
  using silent_parts(5) [of "\<lambda>_. False" env t] by (simp add: only_def)

lemma move_settles:
  assumes "onGatePassed env prj gate p = (es, Inr u)" and "tracker_ref_of gate \<noteq> None" and "te_active env prj = Some p"
  shows "issue_settled env prj es gate"
proof -
  obtain tr where tr: "tracker_of gate = Some tr" "tracker_ref tr \<noteq> []"
    using assms(2) by (auto simp: tracker_ref_of_def split: option.splits if_splits)
  let ?move = "\<lambda>x i. if isDone i then act [gate_audit_of prj p gate None Already_done]
       else case pickDoneTransition i of None \<Rightarrow> raise (Tracker_failure (''Cannot move gate '' @ unit_id gate))
         | Some n \<Rightarrow> if n = [] then raise (Tracker_failure (''Cannot move gate '' @ unit_id gate))
             else and_then (ask (Apply_transition p x n) (te_applyTransition env p x n)) (\<lambda>_. act [gate_audit_of prj p gate (Some n) Closed])"
  have "and_then (gateTrackerExternalId env tr) (\<lambda>x. and_then (ask (Get_issue p x) (te_getIssue env p x)) (?move x)) = (es, Inr u)"
    using assms(1) tr unfolding onGatePassed_def move_issue_def by simp
  then obtain fs x ks where x: "gateTrackerExternalId env tr = (fs, Inr x)"
    and k: "and_then (ask (Get_issue p x) (te_getIssue env p x)) (?move x) = (ks, Inr u)" and es1: "es = fs @ ks"
    unfolding and_then_Inr by blast
  from k [unfolded and_then_Inr] obtain gs i hs where g: "ask (Get_issue p x) (te_getIssue env p x) = (gs, Inr i)"
    and hs: "?move x i = (hs, Inr u)" and ks: "ks = gs @ hs" by blast
  from g have i: "te_getIssue env p x = Inr i" and es: "es = fs @ [Get_issue p x] @ hs" using es1 ks by simp_all
  have "fs = []" using external_silent [of env tr] x by simp
  have "isDone i \<or> (\<exists>n. pickDoneTransition i = Some n \<and> Apply_transition p x n \<in> set hs \<and> te_applyTransition env p x n = Inr ())"
    using hs by (auto simp: and_then_Inr split: if_splits option.splits)
  then show ?thesis using assms(3) tr x i es \<open>fs = []\<close> unfolding issue_settled_def by fastforce
qed

lemma guards_pass: "enforceGuards env prj p verb refs = (es, Inr u) \<Longrightarrow> es = []"
  by (auto simp: enforceGuards_def and_then_Inr split: if_splits option.splits)

lemma close_settles:
  assumes "closeGate env prj gate = (es, Inr u)" and "tracker_ref_of gate \<noteq> None"
  shows "issue_settled env prj es gate"
proof -
  let ?refs = "(''gateId'', unit_id gate) # (case tracker_ref_of gate of None \<Rightarrow> [] | Some r \<Rightarrow> [(''trackerRef'', r)])"
  obtain p where p: "te_active env prj = Some p"
    using assms(1) by (cases "te_active env prj") (simp_all add: closeGate_def gate_action_def requireActivePlugin_def flow_defs)
  have "and_then (enforceGuards env prj p Close_gate ?refs) (\<lambda>_. and_then (onGatePassed env prj gate p)
      (\<lambda>_. act [audited prj p Close_gate Applied ?refs])) = (es, Inr u)"
    using assms p by (simp add: closeGate_def gate_action_def requireActivePlugin_def Let_def and_then_Inr)
  then obtain es1 es2 where m: "and_then (onGatePassed env prj gate p) (\<lambda>_. act [audited prj p Close_gate Applied ?refs]) = (es2, Inr u)"
    and es: "es = es1 @ es2" unfolding and_then_Inr [of "enforceGuards env prj p Close_gate ?refs"] by blast
  from m [unfolded and_then_Inr] obtain es3 v es4 where m: "onGatePassed env prj gate p = (es3, Inr v)" and es2: "es2 = es3 @ es4" by blast
  have sub: "set es3 \<subseteq> set es" using es es2 by auto
  show ?thesis by (rule issue_settled_mono [OF move_settles [OF m assms(2) p] sub])
qed

lemma each_settles:
  assumes "each_of (closeGate env prj) ts = (es, Inr u)" and "\<forall>t \<in> set ts. tracker_ref_of t \<noteq> None"
  shows "\<forall>t \<in> set ts. issue_settled env prj es t"
  using assms
proof (induction ts arbitrary: es)
  case (Cons t ts)
  then obtain es1 v es2 where c: "closeGate env prj t = (es1, Inr v)" and r: "each_of (closeGate env prj) ts = (es2, Inr u)"
    and es: "es = es1 @ es2" by (auto simp: and_then_Inr)
  have "issue_settled env prj es t" by (rule issue_settled_mono [OF close_settles [OF c]]) (use Cons.prems es in auto)
  moreover have "\<forall>t \<in> set ts. issue_settled env prj es2 t" using Cons.IH [OF r] Cons.prems by simp
  ultimately show ?case using es issue_settled_mono [of env prj es2 _ es] by auto
qed simp

lemma tracked_targets_ok: "tracked_targets l = (es, Inr ts) \<Longrightarrow> es = [] \<and> ts = leaves l \<and> (\<forall>t \<in> set ts. tracker_ref_of t \<noteq> None)"
  by (auto simp: tracked_targets_def Let_def filter_empty_conv split: if_splits)

lemma find_gate_ok: "find_gate g gs = (es, Inr l) \<Longrightarrow> es = [] \<and> l \<in> set gs \<and> unit_id (lu_unit l) = g"
  by (auto simp: find_gate_def split: option.splits dest: find_SomeD)

text \<open>
  C15. A sign-off that succeeds has closed the issue of every gate the signed-off gate stands for:
  the gate was found passed, and each source issue was seen done or was moved by the transition
  chosen for it.
\<close>

theorem sign_off_closes_every_source:
  assumes "sign_off env st prj gs g = (es, Inr u)"
  shows "\<exists>l \<in> set gs. unit_id (lu_unit l) = g \<and> st l = Gate_passed \<and> (\<forall>t \<in> set (leaves l). issue_settled env prj es t)"
proof -
  obtain l es1 es2 where l: "find_gate g gs = (es1, Inr l)"
    and r: "(if st l \<noteq> Gate_passed then raise (Route_error 409 ''cannot be signed off'')
       else and_then (tracked_targets l) (each_of (closeGate env prj))) = (es2, Inr u)" and es: "es = es1 @ es2"
    using assms unfolding sign_off_def by (auto simp: and_then_Inr)
  from r obtain fs ts ks where st: "st l = Gate_passed" and t: "tracked_targets l = (fs, Inr ts)"
    and e: "each_of (closeGate env prj) ts = (ks, Inr u)" and es2: "es2 = fs @ ks" by (auto simp: and_then_Inr split: if_splits)
  have "\<forall>t \<in> set ts. issue_settled env prj ks t" by (rule each_settles [OF e]) (use tracked_targets_ok [OF t] in blast)
  then show ?thesis using find_gate_ok [OF l] tracked_targets_ok [OF t] st es es2 by auto
qed

text \<open>
  C24. The start gate fails closed: with dependencies enforced, work on an issue starts exactly when
  the plugin answered the read of the issue within its time and the issue names no blocker.
\<close>

theorem start_gate_fails_closed:
  "start_on_issue True r plain externalId pluginId = Inr i \<longleftrightarrow> truthy pluginId \<and> r = Answered i \<and> blockedBy i = []"
proof (cases pluginId)
  case None
  then show ?thesis by (simp add: start_on_issue_def assertGateOpen_def resolveBlockedBy_def)
next
  case (Some p)
  then show ?thesis
    by (auto simp: start_on_issue_def fetchIssueForStart_def fetchIssueBounded_def assertGateOpen_def resolveBlockedBy_def
        indeterminate_def split: issue_read.splits tracker_error.splits list.splits)
qed

subsection \<open>Filing\<close>

definition creations :: "tracker_event list \<Rightarrow> nat" where
  "creations es = length (filter (\<lambda>e. case e of Created p f t b \<Rightarrow> True | _ \<Rightarrow> False) es)"

lemma creations_simps [simp]: "creations [] = 0" "creations (es @ fs) = creations es + creations fs"
  by (simp_all add: creations_def)

definition creates_none :: "tracker_event \<Rightarrow> bool" where
  "creates_none e \<longleftrightarrow> (case e of Created p f t b \<Rightarrow> False | _ \<Rightarrow> True)"

lemma no_creations: "only creates_none (es, r) \<Longrightarrow> creations es = 0"
  by (auto simp: only_def creations_def creates_none_def filter_empty_conv split: tracker_event.splits)

lemma linking_creates_none: "only creates_none (link_all env prj r refs)"
proof -
  have "only creates_none (addBlockedBy env prj a b)" for a b
    unfolding addBlockedBy_def Let_def
    by (intro only_active only_guarded) (auto intro!: flow_rules simp: creates_none_def audited_def)
  then show ?thesis unfolding link_all_def by (intro only_each)
qed

lemma create_once: "createIssue env prj full title body = (es, Inr r) \<Longrightarrow> creations es = 1"
proof -
  assume c: "createIssue env prj full title body = (es, Inr r)"
  obtain p where p: "te_active env prj = Some p"
    using c by (cases "te_active env prj") (simp_all add: createIssue_def requireActivePlugin_def flow_defs)
  have gd: "enforceGuards env prj p Create_issue refs = (fs, Inr u) \<Longrightarrow> fs = []" for refs fs u by (rule guards_pass)
  show ?thesis
    using c p by (auto simp: createIssue_def requireActivePlugin_def and_then_Inr creations_def audited_def dest!: gd)
qed

lemma create_failed: "createIssue env prj full title body = (es, Inl e) \<Longrightarrow> creations es > 0 \<Longrightarrow>
    \<exists>p. te_active env prj = Some p \<and> te_createIssue env p = Inl e"
  by (auto simp: createIssue_def requireActivePlugin_def enforceGuards_def and_then_Inl and_then_Inr creations_def audited_def
      split: option.splits if_splits)

definition linked_to :: "tracker_env \<Rightarrow> string \<Rightarrow> tracker_event list \<Rightarrow> string \<Rightarrow> string \<Rightarrow> bool" where
  "linked_to env prj es fixRef r \<longleftrightarrow> (\<exists>p. te_active env prj = Some p \<and> Linked p r fixRef \<in> set es \<and> te_addBlockedBy env p r fixRef = Inr ())"

lemma addBlockedBy_linked: "addBlockedBy env prj r x = (es, Inr u) \<Longrightarrow> linked_to env prj es x r"
  by (auto simp: addBlockedBy_def Let_def requireActivePlugin_def and_then_Inr linked_to_def split: option.splits)

lemma link_all_linked: "link_all env prj x refs = (es, Inr u) \<Longrightarrow> \<forall>r \<in> set refs. linked_to env prj es x r"
proof (induction refs arbitrary: es)
  case (Cons r refs)
  then obtain es1 v es2 where a: "addBlockedBy env prj r x = (es1, Inr v)" and l: "link_all env prj x refs = (es2, Inr u)"
    and es: "es = es1 @ es2" by (auto simp: link_all_def and_then_Inr)
  show ?case using addBlockedBy_linked [OF a] Cons.IH [OF l] es by (auto simp: linked_to_def)
qed simp

lemma preflight_silent: "preflightCapabilities env prj flags = (es, r) \<Longrightarrow> es = []"
  using silent_parts(3) [of "\<lambda>_. False" env prj flags] by (simp add: only_def)

definition filed_right :: "tracker_env \<Rightarrow> string \<Rightarrow> fix_params \<Rightarrow> tracker_event list \<Rightarrow> tracker_error + fix_issue_record \<Rightarrow> bool" where
  "filed_right env prj p es res = (case res of
     Inr r \<Rightarrow> creations es = (if truthy (fp_existingFixRef p) then 0 else 1)
       \<and> (if linkStatus r = Link_complete then list_all (linked_to env prj es (fixIssueRef r)) (fp_gateRef p # fp_additionalGateRefs p)
          else \<not> truthy (fp_existingFixRef p))
   | Inl e \<Rightarrow> creations es = 0 \<or> (\<exists>pl. te_active env prj = Some pl \<and> te_createIssue env pl = Inl e))"

lemma linked_to_append: "list_all (linked_to env prj es x) refs \<Longrightarrow> list_all (linked_to env prj (fs @ es @ gs) x) refs"
  by (auto simp: linked_to_def list_all_iff)

lemma retry_filed_right:
  assumes "truthy (fp_existingFixRef p)"
    and "and_then (preflightCapabilities env prj flags) (\<lambda>_. and_then (link_all env prj (the (fp_existingFixRef p)) (fp_gateRef p # fp_additionalGateRefs p))
       (\<lambda>_. pass (fix_record p (the (fp_existingFixRef p)) Link_complete))) = (es, res)"
  shows "filed_right env prj p es res"
proof -
  have "only creates_none (es, res)" unfolding assms(2) [symmetric] by (intro flow_rules linking_creates_none)
  then have none: "creations es = 0" by (rule no_creations)
  show ?thesis
  proof (cases res)
    case (Inl e)
    then show ?thesis using none by (simp add: filed_right_def)
  next
    case (Inr r)
    from assms(2) [unfolded Inr] obtain es1 es2 u v where r: "r = fix_record p (the (fp_existingFixRef p)) Link_complete"
      and l: "link_all env prj (the (fp_existingFixRef p)) (fp_gateRef p # fp_additionalGateRefs p) = (es2, Inr v)" and es: "es = es1 @ es2"
      by (auto simp: and_then_Inr)
    have "list_all (linked_to env prj (es1 @ es2 @ []) (fixIssueRef r)) (fp_gateRef p # fp_additionalGateRefs p)"
      by (rule linked_to_append) (use link_all_linked [OF l] r in \<open>simp add: list_all_iff fix_record_def\<close>)
    then show ?thesis using assms(1) Inr none r es by (simp add: filed_right_def fix_record_def)
  qed
qed

lemma settled_never_fails: "(case m of (es, Inl e) \<Rightarrow> (es, Inr a) | (es, Inr u) \<Rightarrow> (es, Inr b)) \<noteq> (fs, Inl x)"
  by (cases m; cases "snd m") auto

lemma new_filed_right:
  assumes "\<not> truthy (fp_existingFixRef p)"
    and "and_then (preflightCapabilities env prj flags) (\<lambda>_. and_then (createIssue env prj (fp_repoFullName p) (fix_title p) (Some (fp_notes p)))
       (\<lambda>ref. case link_all env prj ref (fp_gateRef p # fp_additionalGateRefs p) of
             (es, Inl e) \<Rightarrow> (es, Inr (fix_record p ref Link_pending))
           | (es, Inr _) \<Rightarrow> (es, Inr (fix_record p ref Link_complete)))) = (es, res)"
  shows "filed_right env prj p es res"
proof (cases res)
  case (Inl e)
  from assms(2) [unfolded Inl and_then_Inl] have "creations es = 0 \<or> (\<exists>fs. createIssue env prj (fp_repoFullName p) (fix_title p) (Some (fp_notes p)) = (fs, Inl e)
      \<and> creations es = creations fs)"
    by (auto dest!: preflight_silent simp: settled_never_fails)
  then show ?thesis using Inl create_failed by (fastforce simp: filed_right_def)
next
  case (Inr r)
  let ?link = "\<lambda>ref. case link_all env prj ref (fp_gateRef p # fp_additionalGateRefs p) of
             (es, Inl e) \<Rightarrow> (es, Inr (fix_record p ref Link_pending) :: tracker_error + fix_issue_record)
           | (es, Inr _) \<Rightarrow> (es, Inr (fix_record p ref Link_complete))"
  let ?create = "createIssue env prj (fp_repoFullName p) (fix_title p) (Some (fp_notes p))"
  from assms(2) [unfolded Inr, THEN and_then_Inr [THEN iffD1]] obtain es1 u fs
    where pf: "preflightCapabilities env prj flags = (es1, Inr u)" and f: "and_then ?create ?link = (fs, Inr r)" and es1: "es = es1 @ fs"
    by (elim exE conjE)
  from f [THEN and_then_Inr [THEN iffD1]] obtain es2 ref es3
    where c: "?create = (es2, Inr ref)" and l: "?link ref = (es3, Inr r)" and es2: "fs = es2 @ es3" by (elim exE conjE)
  have es: "es = es1 @ es2 @ es3" using es1 es2 by simp
  obtain k where k: "link_all env prj ref (fp_gateRef p # fp_additionalGateRefs p) = (es3, k)"
    and r: "r = fix_record p ref (case k of Inl e \<Rightarrow> Link_pending | Inr _ \<Rightarrow> Link_complete)"
    using l by (auto split: prod.splits sum.splits)
  have "only creates_none (es3, k)" unfolding k [symmetric] by (rule linking_creates_none)
  then have one: "creations es = 1" using es preflight_silent [OF pf] create_once [OF c] no_creations by simp
  have "list_all (linked_to env prj es ref) (fp_gateRef p # fp_additionalGateRefs p)" if "k = Inr v" for v
  proof -
    have "list_all (linked_to env prj ((es1 @ es2) @ es3 @ []) ref) (fp_gateRef p # fp_additionalGateRefs p)"
      by (rule linked_to_append) (use link_all_linked [OF k [unfolded that]] in \<open>simp add: list_all_iff\<close>)
    then show ?thesis using es by simp
  qed
  then show ?thesis using assms(1) Inr one r by (cases k) (simp_all add: filed_right_def fix_record_def)
qed

text \<open>
  C25. Filing a fix issue creates at most one issue and never loses it: a request that returns has
  created exactly one issue, or none when it retried an existing one; it reports the link complete
  only if every gate was linked to it; and a request that fails created none, unless the creation
  itself was what failed.
\<close>

theorem filing_creates_one_linked_issue:
  "(case fileFixIssueAndBlock env prj p of
     (es, Inr r) \<Rightarrow> creations es = (if truthy (fp_existingFixRef p) then 0 else 1)
       \<and> (if linkStatus r = Link_complete then list_all (linked_to env prj es (fixIssueRef r)) (fp_gateRef p # fp_additionalGateRefs p)
          else \<not> truthy (fp_existingFixRef p))
   | (es, Inl e) \<Rightarrow> creations es = 0 \<or> (\<exists>pl. te_active env prj = Some pl \<and> te_createIssue env pl = Inl e))"
proof (cases "fileFixIssueAndBlock env prj p")
  case (Pair es res)
  have "filed_right env prj p es res"
  proof (cases "trim (fp_notes p) = []")
    case True
    then have "es = [] \<and> res = Inl Empty_notes" using Pair by (auto simp: fileFixIssueAndBlock_def raise_def)
    then show ?thesis by (simp add: filed_right_def)
  next
    case False
    then show ?thesis
      using Pair retry_filed_right [of p env prj "[''supportsBlockingLinks'']" es res]
        new_filed_right [of p env prj "[''supportsCreateIssue'', ''supportsBlockingLinks'']" es res]
      by (cases "truthy (fp_existingFixRef p)") (simp_all add: fileFixIssueAndBlock_def)
  qed
  then show ?thesis using Pair by (simp add: filed_right_def split: sum.splits)
qed

definition sample_gate_unit :: work_unit where
  "sample_gate_unit = (lu_unit (sample_loaded ''s'' ''VG'' []))\<lparr>tracker_of := Some
     \<lparr>tracker_system_of = Github, tracker_ref = ''o/r#7'', tracker_url = [], node_id = None, db_id = None, blocked_by_refs = []\<rparr>\<rparr>"

definition sample_tracked :: loaded_unit where
  "sample_tracked = \<lparr>lu_slug = ''s'', lu_unit = sample_gate_unit, mergedFrom = None\<rparr>"

definition sample_tracker :: "string \<Rightarrow> string list \<Rightarrow> tracker_env" where
  "sample_tracker st ts = \<lparr>te_active = \<lambda>p. Some ''gh'', te_capabilities = \<lambda>p. Some (\<lambda>c. True), te_consent = \<lambda>p. True,
     te_getIssue = \<lambda>p x. Inr \<lparr>currentState = st, allowedTransitions = ts, blockedBy = []\<rparr>, te_applyTransition = \<lambda>p x n. Inr (),
     te_createIssue = \<lambda>p. Inr ''o/r#9'', te_addBlockedBy = \<lambda>p a b. Inr (), te_writeEvidence = \<lambda>f. Inr (), te_appendNote = Inr (),
     te_pathname = \<lambda>u. None\<rparr>"

lemmas sample_tracker_defs = sample_tracker_def sample_tracked_def sample_gate_unit_def sample_loaded_def

lemmas close_defs = closeGate_def gate_action_def requireActivePlugin_def enforceGuards_def onGatePassed_def onGateReopened_def
  move_issue_def gateTrackerExternalId_def tracker_ref_of_def flow_defs

lemma open_issue_closes:
  "pickDoneTransition \<lparr>currentState = ''open'', allowedTransitions = [''close''], blockedBy = []\<rparr> = Some ''close''"
  "\<not> isDone \<lparr>currentState = ''open'', allowedTransitions = [''close''], blockedBy = []\<rparr>"
  by code_simp+

lemma sample_sign_off:
  "\<exists>es. sign_off (sample_tracker ''open'' [''close'']) (\<lambda>l. Gate_passed) ''p'' [sample_tracked] ''VG'' = (es, Inr ())"
  by (simp add: sign_off_def find_gate_def tracked_targets_def leaves_def coalesce_def sample_tracker_defs close_defs open_issue_closes)

theorem sign_off_closes_every_source_witness:
  "\<exists>es. issue_settled (sample_tracker ''open'' [''close'']) ''p'' es sample_gate_unit"
proof -
  obtain es where s: "sign_off (sample_tracker ''open'' [''close'']) (\<lambda>l. Gate_passed) ''p'' [sample_tracked] ''VG'' = (es, Inr ())"
    using sample_sign_off by blast
  from sign_off_closes_every_source [OF s]
  show ?thesis by (auto simp: leaves_def coalesce_def sample_tracked_def)
qed

text \<open>
  What closes a gate need not be what counts as closed. A transition that resolves, completes or
  finishes the issue is accepted for a sign-off, but a state such as Resolved is not among the done
  ones: undoing the sign-off then records that the gate is already open, and leaves the issue as it is.
\<close>

theorem resolved_gate_is_not_reopened:
  "pickDoneTransition \<lparr>currentState = ''Open'', allowedTransitions = [''Resolve''], blockedBy = []\<rparr> = Some ''Resolve''
   \<and> undo_sign_off (sample_tracker ''Resolved'' [''Reopen'']) ''p'' [sample_tracked] ''VG''
     = ([Get_issue ''gh'' ''o/r#7'', gate_audit_of ''p'' ''gh'' sample_gate_unit None Already_open,
         audited ''p'' ''gh'' Reopen_gate Applied [(''gateId'', ''VG''), (''trackerRef'', ''o/r#7'')]], Inr ())"
proof
  show "pickDoneTransition \<lparr>currentState = ''Open'', allowedTransitions = [''Resolve''], blockedBy = []\<rparr> = Some ''Resolve''"
    by code_simp
  have "\<not> isDone \<lparr>currentState = ''Resolved'', allowedTransitions = [''Reopen''], blockedBy = []\<rparr>" by code_simp
  then show "undo_sign_off (sample_tracker ''Resolved'' [''Reopen'']) ''p'' [sample_tracked] ''VG''
     = ([Get_issue ''gh'' ''o/r#7'', gate_audit_of ''p'' ''gh'' sample_gate_unit None Already_open,
         audited ''p'' ''gh'' Reopen_gate Applied [(''gateId'', ''VG''), (''trackerRef'', ''o/r#7'')]], Inr ())"
    by (simp add: undo_sign_off_def reopenGate_def find_gate_def tracked_targets_def leaves_def coalesce_def sample_tracker_defs close_defs)
qed

text \<open>A verb is looked for anywhere in the name, so a transition that abandons the issue closes the gate.\<close>

theorem abandoning_counts_as_done:
  "pickDoneTransition \<lparr>currentState = ''Open'', allowedTransitions = [''Mark abandoned'', ''Resolve''], blockedBy = []\<rparr>
     = Some ''Mark abandoned''"
  by code_simp

end
