(* ===== verification/Supervisor.thy ===== *)
theory Supervisor
  imports Prelude "HOL-Library.Multiset"
begin

section \<open>The supervisor of plugin processes\<close>

text \<open>
  \<open>server/services/plugin-manager.ts\<close>: one plugin's entry and what happens to it: a child that
  exits (\<open>handleChildExit\<close>, with the restart budget and the back-off), the restart timer, the
  stages of \<open>spawnPlugin\<close> between its awaits, the recovery of the plugin's components after a
  restart, and the requests to enable, disable and restart it. The code is asynchronous; a step is
  what runs between two awaits, and what waits is a task. Any pending task, timer or child may act
  next, so the step relation covers every interleaving. The file checks before a spawn, whether a
  spawn succeeds, the RPC wiring and the child's exit code are data of the step. The log records the
  hooks that \<open>BenchWatch\<close> provides and the restarts that were scheduled.
\<close>

datatype plugin_status = P_enabled | P_disabled | P_errored | P_incompatible | P_invalid

datatype restart_reason = Unexpected_exit | Spawn_failed | Sandbox_fallback

record restart_event =
  rs_at :: int
  rs_reason :: restart_reason
  rs_exitCode :: "int option"

type_synonym plugin_error = "string \<times> string"

record plugin_entry =
  p_component :: bool
  p_manifest :: bool
  p_status :: plugin_status
  p_lastError :: "plugin_error option"
  restartHistory :: "restart_event list"
  p_process :: "nat option"
  intentionalStop :: bool
  restartTimer :: "nat option"
  preRestartCleanups :: "nat list"
  preRestartEpoch :: nat

definition RESTART_BUDGET :: nat where "RESTART_BUDGET = 3"
definition RESTART_WINDOW_MS :: int where "RESTART_WINDOW_MS = 5 * 60 * 1000"
definition BACKOFF_SCHEDULE_MS :: "int list" where "BACKOFF_SCHEDULE_MS = [500, 1000, 2000]"

text \<open>
  Who waits for a spawn: the timer of a restart, with the epoch it captured; a request to enable;
  or a caller that does nothing more (boot, a manual restart). Who waits for a stop: a request to
  disable, or to restart, with what the file checks of its spawn will say.
\<close>

datatype spawn_caller = Recover nat | Enabling | Plain
datatype stop_caller = Then_disable | Then_restart "plugin_error option"

datatype task = Spawning spawn_caller | Wiring nat spawn_caller | Reaping nat spawn_caller
  | Draining nat | Stopping nat stop_caller | Settling nat

datatype sup_log = Crashed int | Scheduled int int | Cleanup_started nat | Cleanup_settled nat
  | Budget_exhausted | Reprovisioned nat | History_cleared

record supervisor = plugin_entry +
  sv_timers :: "nat list"
  sv_children :: "nat list"
  sv_tasks :: "task list"
  sv_next :: nat
  sv_clock :: int
  sv_enabled :: bool
  sv_log :: "sup_log list"

subsection \<open>An exit\<close>

definition recent_restarts :: "int \<Rightarrow> restart_event list \<Rightarrow> restart_event list" where
  "recent_restarts now hist = filter (\<lambda>e. rs_at e \<ge> now - RESTART_WINDOW_MS) hist"

definition restart_delay :: "nat \<Rightarrow> int" where
  "restart_delay n = BACKOFF_SCHEDULE_MS ! min (n - 1) (length BACKOFF_SCHEDULE_MS - 1)"

definition budget_message :: "nat \<Rightarrow> string" where
  "budget_message n = ''Plugin exited '' @ nat_str n @ '' times within '' @ int_str (RESTART_WINDOW_MS div 1000)
     @ ''s; auto-restart disabled. Click Restart to retry.''"

definition note_log :: "sup_log list \<Rightarrow> supervisor \<Rightarrow> supervisor" where
  "note_log ls s = s\<lparr>sv_log := sv_log s @ ls\<rparr>"

definition start_cleanup :: "supervisor \<Rightarrow> supervisor" where
  "start_cleanup s =
     (if p_component s
      then note_log [Cleanup_started (Suc (preRestartEpoch s))]
        (s\<lparr>preRestartEpoch := Suc (preRestartEpoch s), preRestartCleanups := preRestartCleanups s @ [Suc (preRestartEpoch s)]\<rparr>)
      else s)"

definition handleChildExit :: "int option \<Rightarrow> int \<Rightarrow> supervisor \<Rightarrow> supervisor" where
  "handleChildExit code now s =
     (let s1 = s\<lparr>intentionalStop := False, p_process := None\<rparr>
      in if intentionalStop s
         then (if p_status s = P_enabled then s1\<lparr>p_status := P_disabled\<rparr> else s1)
         else if p_status s = P_disabled \<or> p_status s = P_incompatible \<or> p_status s = P_invalid then s1
         else
           (let hist = restartHistory s @ [\<lparr>rs_at = now, rs_reason = Unexpected_exit, rs_exitCode = code\<rparr>];
                n = length (recent_restarts now hist);
                s2 = note_log [Crashed now] ((start_cleanup s1)\<lparr>restartHistory := hist\<rparr>)
            in if n \<ge> RESTART_BUDGET
               then note_log (if p_component s then [Budget_exhausted] else [])
                 (s2\<lparr>p_status := P_errored, p_lastError := Some (''restart-budget-exhausted'', budget_message n)\<rparr>)
               else note_log [Scheduled now (restart_delay n)]
                 (s2\<lparr>restartTimer := Some (sv_next s), sv_timers := sv_timers s @ [sv_next s], sv_next := Suc (sv_next s)\<rparr>)))"

subsection \<open>Stopping and spawning\<close>

definition clear_timer :: "supervisor \<Rightarrow> supervisor" where
  "clear_timer s = (case restartTimer s of None \<Rightarrow> s
     | Some t \<Rightarrow> s\<lparr>restartTimer := None, sv_timers := filter (\<lambda>x. x \<noteq> t) (sv_timers s)\<rparr>)"

definition add_task :: "task \<Rightarrow> supervisor \<Rightarrow> supervisor" where
  "add_task t s = s\<lparr>sv_tasks := sv_tasks s @ [t]\<rparr>"

definition del_task :: "task \<Rightarrow> supervisor \<Rightarrow> supervisor" where
  "del_task t s = s\<lparr>sv_tasks := remove1 t (sv_tasks s)\<rparr>"

text \<open>An enabled plugin whose child exits early is rolled back.\<close>

definition roll_back :: "supervisor \<Rightarrow> supervisor" where
  "roll_back s = note_log [History_cleared]
     ((clear_timer s)\<lparr>restartHistory := [], p_status := P_disabled, p_lastError := None\<rparr>)"

definition resume :: "spawn_caller \<Rightarrow> supervisor \<Rightarrow> supervisor" where
  "resume k s = (case k of
       Recover e \<Rightarrow> if p_component s \<and> p_status s = P_enabled then add_task (Draining e) s else s
     | Enabling \<Rightarrow> if p_status s = P_errored then s
         else (case p_process s of None \<Rightarrow> roll_back s | Some c \<Rightarrow> add_task (Settling c) s)
     | Plain \<Rightarrow> s)"

definition begin_spawn :: "plugin_error option \<Rightarrow> spawn_caller \<Rightarrow> supervisor \<Rightarrow> supervisor" where
  "begin_spawn problem k s =
     (if \<not> p_manifest s then resume k s
      else let s1 = s\<lparr>intentionalStop := False\<rparr>
        in case problem of
             Some e \<Rightarrow> resume k (s1\<lparr>p_status := P_errored, p_lastError := Some e\<rparr>)
           | None \<Rightarrow> add_task (Spawning k) s1)"

definition launch :: "spawn_caller \<Rightarrow> bool \<Rightarrow> string option \<Rightarrow> int \<Rightarrow> supervisor \<Rightarrow> supervisor" where
  "launch k fell_back failure now s =
     (let fb = (if fell_back then [\<lparr>rs_at = now, rs_reason = Sandbox_fallback, rs_exitCode = None\<rparr>] else [])
      in case failure of
           Some message \<Rightarrow>
             resume k (s\<lparr>p_status := P_errored, p_lastError := Some (''spawn-failed'', message),
               restartHistory := restartHistory s @ fb @ [\<lparr>rs_at = now, rs_reason = Spawn_failed, rs_exitCode = None\<rparr>]\<rparr>)
         | None \<Rightarrow>
             add_task (Wiring (sv_next s) k)
               (s\<lparr>restartHistory := restartHistory s @ fb, p_process := Some (sv_next s), sv_children := sv_children s @ [sv_next s],
                 sv_next := Suc (sv_next s), p_status := P_enabled, p_lastError := None\<rparr>))"

datatype wiring = Wired | Wiring_failed string | Wiring_closed

definition wire :: "nat \<Rightarrow> spawn_caller \<Rightarrow> wiring \<Rightarrow> supervisor \<Rightarrow> supervisor" where
  "wire c k w s =
     (if w = Wired \<or> p_process s \<noteq> Some c then resume k s
      else case w of
          Wiring_failed message \<Rightarrow>
            resume k (s\<lparr>p_status := P_errored, p_lastError := Some (''rpc-init-failed'', message), intentionalStop := True\<rparr>)
        | _ \<Rightarrow> add_task (Reaping c k) s)"

definition stopped_for :: "stop_caller \<Rightarrow> supervisor \<Rightarrow> supervisor" where
  "stopped_for k s = (case k of
       Then_disable \<Rightarrow> s\<lparr>p_status := P_disabled\<rparr>
     | Then_restart problem \<Rightarrow>
         begin_spawn problem Plain (note_log [History_cleared] (s\<lparr>restartHistory := [], p_lastError := None\<rparr>)))"

definition stopPluginProcess :: "stop_caller \<Rightarrow> supervisor \<Rightarrow> supervisor" where
  "stopPluginProcess k s =
     (let s1 = clear_timer (s\<lparr>intentionalStop := True\<rparr>)
      in case p_process s1 of None \<Rightarrow> stopped_for k s1 | Some c \<Rightarrow> add_task (Stopping c k) s1)"

definition disable :: "supervisor \<Rightarrow> supervisor" where
  "disable s =
     (let s1 = s\<lparr>sv_enabled := False\<rparr>
      in if p_process s = None then s1\<lparr>p_status := P_disabled\<rparr> else stopPluginProcess Then_disable s1)"

definition restart :: "plugin_error option \<Rightarrow> supervisor \<Rightarrow> supervisor" where
  "restart problem s =
     (if \<not> p_manifest s then s
      else if p_process s = None then stopped_for (Then_restart problem) s
      else stopPluginProcess (Then_restart problem) s)"

definition enable :: "plugin_error option \<Rightarrow> supervisor \<Rightarrow> supervisor" where
  "enable problem s =
     (if \<not> p_manifest s \<or> p_status s = P_incompatible then s
      else if p_process s \<noteq> None then s\<lparr>sv_enabled := True\<rparr>
      else begin_spawn problem Enabling (s\<lparr>p_status := P_disabled, p_lastError := None\<rparr>))"

text \<open>The child lived through the settle window; \<open>written\<close> says whether the enable flag reached the disk.\<close>

definition settled_alive :: "bool \<Rightarrow> supervisor \<Rightarrow> supervisor" where
  "settled_alive written s = (if written then s\<lparr>sv_enabled := True\<rparr> else stopPluginProcess Then_disable s)"

subsection \<open>Steps\<close>

text \<open>
  The listeners of an exit run in the order they were added: the supervisor's own, which ignores a
  child that no longer owns the entry, and then whatever waits for this child.
\<close>

fun waits_for :: "nat \<Rightarrow> task \<Rightarrow> bool" where
  "waits_for c (Stopping c' k) = (c' = c)"
| "waits_for c (Reaping c' k) = (c' = c)"
| "waits_for c (Settling c') = (c' = c)"
| "waits_for c (Spawning k) = False"
| "waits_for c (Wiring c' k) = False"
| "waits_for c (Draining e) = False"

fun awake :: "task \<Rightarrow> supervisor \<Rightarrow> supervisor" where
  "awake (Stopping c k) s = stopped_for k s"
| "awake (Reaping c k) s = resume k s"
| "awake (Settling c) s = roll_back s"
| "awake (Spawning k) s = s"
| "awake (Wiring c k) s = s"
| "awake (Draining e) s = s"

definition child_exits :: "nat \<Rightarrow> int option \<Rightarrow> int \<Rightarrow> supervisor \<Rightarrow> supervisor" where
  "child_exits c code now s =
     (let s1 = s\<lparr>sv_children := remove1 c (sv_children s), sv_clock := now\<rparr>;
          s2 = (if p_process s = Some c then handleChildExit code now s1 else s1)
      in fold awake (filter (waits_for c) (sv_tasks s)) (s2\<lparr>sv_tasks := filter (\<lambda>t. \<not> waits_for c t) (sv_tasks s)\<rparr>))"

definition timer_fires :: "nat \<Rightarrow> plugin_error option \<Rightarrow> supervisor \<Rightarrow> supervisor" where
  "timer_fires t problem s =
     (let s1 = s\<lparr>sv_timers := filter (\<lambda>x. x \<noteq> t) (sv_timers s), restartTimer := None\<rparr>
      in if intentionalStop s then s1 else begin_spawn problem (Recover (preRestartEpoch s)) s1)"

definition cleanup_settles :: "nat \<Rightarrow> supervisor \<Rightarrow> supervisor" where
  "cleanup_settles i s = note_log [Cleanup_settled i] (s\<lparr>preRestartCleanups := filter (\<lambda>x. x \<noteq> i) (preRestartCleanups s)\<rparr>)"

definition drained :: "nat \<Rightarrow> supervisor \<Rightarrow> supervisor" where
  "drained e s =
     (if preRestartEpoch s \<noteq> e \<or> intentionalStop s \<or> p_status s \<noteq> P_enabled then s else note_log [Reprovisioned e] s)"

datatype sup_event =
    Exits nat "int option" int
  | Timer_fires nat "plugin_error option"
  | Launches spawn_caller bool "string option" int
  | Wires nat spawn_caller wiring
  | Cleanup_ends nat
  | Drains nat
  | Settles nat bool
  | Disables
  | Restarts "plugin_error option"
  | Enables "plugin_error option"

inductive sup_step :: "supervisor \<Rightarrow> sup_event \<Rightarrow> supervisor \<Rightarrow> bool" where
  exits: "c \<in> set (sv_children s) \<Longrightarrow> sv_clock s \<le> now \<Longrightarrow> sup_step s (Exits c code now) (child_exits c code now s)"
| timer: "t \<in> set (sv_timers s) \<Longrightarrow> sup_step s (Timer_fires t problem) (timer_fires t problem s)"
| launches: "Spawning k \<in> set (sv_tasks s) \<Longrightarrow> sv_clock s \<le> now \<Longrightarrow>
    sup_step s (Launches k fb failure now) (launch k fb failure now (del_task (Spawning k) (s\<lparr>sv_clock := now\<rparr>)))"
| wires: "Wiring c k \<in> set (sv_tasks s) \<Longrightarrow> sup_step s (Wires c k w) (wire c k w (del_task (Wiring c k) s))"
| cleanup: "i \<in> set (preRestartCleanups s) \<Longrightarrow> sup_step s (Cleanup_ends i) (cleanup_settles i s)"
| drains: "Draining e \<in> set (sv_tasks s) \<Longrightarrow> preRestartCleanups s = [] \<Longrightarrow>
    sup_step s (Drains e) (drained e (del_task (Draining e) s))"
| settles: "Settling c \<in> set (sv_tasks s) \<Longrightarrow> sup_step s (Settles c written) (settled_alive written (del_task (Settling c) s))"
| disables: "sup_step s Disables (disable s)"
| restarts: "sup_step s (Restarts problem) (restart problem s)"
| enables: "sup_step s (Enables problem) (enable problem s)"

inductive_cases sup_stepE: "sup_step s e s'"

inductive sup_run :: "supervisor \<Rightarrow> sup_event list \<Rightarrow> supervisor \<Rightarrow> bool" where
  run_ends: "sup_run s [] s"
| run_steps: "sup_step s e s1 \<Longrightarrow> sup_run s1 es s2 \<Longrightarrow> sup_run s (e # es) s2"

inductive_cases sup_run_NilE [elim!]: "sup_run s [] s'"
inductive_cases sup_run_ConsE: "sup_run s (e # es) s'"

text \<open>A plugin as \<open>initialize\<close> leaves it: being spawned when it is enabled, at rest otherwise.\<close>

definition booted :: "bool \<Rightarrow> bool \<Rightarrow> supervisor" where
  "booted of_component starts =
     \<lparr>p_component = of_component, p_manifest = True, p_status = P_disabled, p_lastError = None, restartHistory = [],
      p_process = None, intentionalStop = False, restartTimer = None, preRestartCleanups = [], preRestartEpoch = 0,
      sv_timers = [], sv_children = [], sv_tasks = (if starts then [Spawning Plain] else []), sv_next = 0, sv_clock = 0,
      sv_enabled = starts, sv_log = []\<rparr>"

lemma sup_run_invariant:
  assumes "sup_run s es s'" and "P s" and "\<And>s e s'. sup_step s e s' \<Longrightarrow> P s \<Longrightarrow> P s'"
  shows "P s'"
  using assms by (induction) blast+

subsection \<open>What a step leaves alone\<close>

definition crash_times :: "sup_log list \<Rightarrow> int list" where
  "crash_times l = List.map_filter (\<lambda>x. case x of Crashed t \<Rightarrow> Some t | _ \<Rightarrow> None) l"

definition restart_times :: "sup_log list \<Rightarrow> int list" where
  "restart_times l = List.map_filter (\<lambda>x. case x of Scheduled t d \<Rightarrow> Some t | _ \<Rightarrow> None) l"

definition recovered :: "sup_log list \<Rightarrow> nat list" where
  "recovered l = List.map_filter (\<lambda>x. case x of Reprovisioned e \<Rightarrow> Some e | _ \<Rightarrow> None) l"

text \<open>The log since the restart history was last cleared by a manual restart or a roll-back.\<close>

definition since_clear :: "sup_log list \<Rightarrow> sup_log list" where
  "since_clear l = rev (takeWhile (\<lambda>x. x \<noteq> History_cleared) (rev l))"

lemma log_append [simp]:
  "crash_times [] = []" "restart_times [] = []" "recovered [] = []" "since_clear [] = []"
  "crash_times (l @ m) = crash_times l @ crash_times m" "restart_times (l @ m) = restart_times l @ restart_times m"
  "recovered (l @ m) = recovered l @ recovered m"
  by (simp_all add: crash_times_def restart_times_def recovered_def since_clear_def map_filter_def)

lemma log_entry [simp]:
  "crash_times (x # l) = (case x of Crashed t \<Rightarrow> t # crash_times l | _ \<Rightarrow> crash_times l)"
  "restart_times (x # l) = (case x of Scheduled t d \<Rightarrow> t # restart_times l | _ \<Rightarrow> restart_times l)"
  "recovered (x # l) = (case x of Reprovisioned e \<Rightarrow> e # recovered l | _ \<Rightarrow> recovered l)"
  by (cases x; simp add: crash_times_def restart_times_def recovered_def map_filter_def)+

lemma since_clear_snoc [simp]: "since_clear (l @ [x]) = (if x = History_cleared then [] else since_clear l @ [x])"
  by (simp add: since_clear_def)

definition at_each :: "(sup_log list \<Rightarrow> sup_log \<Rightarrow> bool) \<Rightarrow> sup_log list \<Rightarrow> bool" where
  "at_each Q l \<longleftrightarrow> (\<forall>xs x ys. l = xs @ x # ys \<longrightarrow> Q xs x)"

lemma at_each_Nil [simp]: "at_each Q []"
  by (simp add: at_each_def)

lemma at_each_snoc [simp]: "at_each Q (l @ [x]) \<longleftrightarrow> at_each Q l \<and> Q l x"
proof
  assume a: "at_each Q (l @ [x])"
  then have "Q xs y" if "l = xs @ y # ys" for xs y ys
    using that unfolding at_each_def by (metis append.assoc append_Cons)
  moreover have "Q l x" using a by (simp add: at_each_def)
  ultimately show "at_each Q l \<and> Q l x" by (simp add: at_each_def)
next
  assume a: "at_each Q l \<and> Q l x"
  have "Q xs y" if "l @ [x] = xs @ y # ys" for xs y ys
    using that a by (cases ys rule: rev_cases) (auto simp: at_each_def)
  then show "at_each Q (l @ [x])" by (simp add: at_each_def)
qed

text \<open>
  Most of what happens writes nothing to the log but the mark of a cleared history, and until then
  the history only grows.
\<close>

definition calm :: "supervisor \<Rightarrow> supervisor \<Rightarrow> bool" where
  "calm s s' \<longleftrightarrow> preRestartCleanups s' = preRestartCleanups s \<and> preRestartEpoch s' = preRestartEpoch s
     \<and> (\<exists>n. sv_log s' = sv_log s @ replicate n History_cleared
          \<and> (n = 0 \<longrightarrow> (\<exists>hs. restartHistory s' = restartHistory s @ hs)))"

lemma calm_refl [simp]: "calm s s"
  by (auto simp: calm_def intro: exI [of _ 0])

lemma calm_trans:
  assumes "calm s t" and "calm t u"
  shows "calm s u"
proof -
  from assms(1) obtain n where n: "sv_log t = sv_log s @ replicate n History_cleared"
    "n = 0 \<longrightarrow> (\<exists>hs. restartHistory t = restartHistory s @ hs)" by (auto simp: calm_def)
  from assms(2) obtain m where m: "sv_log u = sv_log t @ replicate m History_cleared"
    "m = 0 \<longrightarrow> (\<exists>hs. restartHistory u = restartHistory t @ hs)" by (auto simp: calm_def)
  have "sv_log u = sv_log s @ replicate (n + m) History_cleared" using n(1) m(1) by (simp add: replicate_add)
  moreover have "n + m = 0 \<longrightarrow> (\<exists>hs. restartHistory u = restartHistory s @ hs)" using n(2) m(2) by auto
  ultimately show ?thesis using assms unfolding calm_def by auto
qed

lemma calmI:
  "preRestartCleanups s' = preRestartCleanups s \<Longrightarrow> preRestartEpoch s' = preRestartEpoch s \<Longrightarrow> sv_log s' = sv_log s
    \<Longrightarrow> restartHistory s' = restartHistory s @ hs \<Longrightarrow> calm s s'"
  by (auto simp: calm_def intro: exI [of _ 0])

lemma calm_cleared:
  "preRestartCleanups s' = preRestartCleanups s \<Longrightarrow> preRestartEpoch s' = preRestartEpoch s
    \<Longrightarrow> sv_log s' = sv_log s @ [History_cleared] \<Longrightarrow> calm s s'"
  by (auto simp: calm_def intro: exI [of _ 1])

lemma calm_parts [simp]:
  "calm s (clear_timer s)" "calm s (add_task t s)" "calm s (del_task t s)" "calm s (roll_back s)"
  by (auto simp: clear_timer_def add_task_def del_task_def roll_back_def note_log_def
    intro: calmI calm_cleared split: option.split)

lemma calm_cong: "preRestartCleanups r = preRestartCleanups s \<Longrightarrow> preRestartEpoch r = preRestartEpoch s
    \<Longrightarrow> sv_log r = sv_log s \<Longrightarrow> restartHistory r = restartHistory s @ hs \<Longrightarrow> calm r s' \<Longrightarrow> calm s s'"
  by (rule calm_trans [OF calmI])

lemma calm_resume [simp]: "calm s (resume k s)"
  by (simp add: resume_def split: spawn_caller.split option.split)

lemma calm_begin [simp]: "calm s (begin_spawn problem k s)"
  by (simp add: begin_spawn_def Let_def split: option.split)
    (auto intro: calm_cong [where hs = "[]", OF _ _ _ _ calm_resume] calm_cong [where hs = "[]", OF _ _ _ _ calm_parts(2)])

lemma calm_launch [simp]: "calm s (launch k fb failure now s)"
  by (simp add: launch_def Let_def split: option.split)
    (auto intro: calm_cong [OF _ _ _ _ calm_resume] calm_cong [OF _ _ _ _ calm_parts(2)])

lemma calm_wire [simp]: "calm s (wire c k w s)"
  by (simp add: wire_def split: wiring.split) (auto intro: calm_cong [where hs = "[]", OF _ _ _ _ calm_resume])

lemma calm_stopped_for [simp]: "calm s (stopped_for k s)"
proof (cases k)
  case Then_disable
  then show ?thesis by (auto simp: stopped_for_def intro: calmI)
next
  case (Then_restart problem)
  have "calm s (note_log [History_cleared] (s\<lparr>restartHistory := [], p_lastError := None\<rparr>))"
    by (rule calm_cleared) (simp_all add: note_log_def)
  then show ?thesis using calm_trans calm_begin by (fastforce simp: stopped_for_def Then_restart)
qed

lemma calm_stop [simp]: "calm s (stopPluginProcess k s)"
proof -
  let ?s1 = "clear_timer (s\<lparr>intentionalStop := True\<rparr>)"
  have "calm s ?s1" by (rule calm_cong [where hs = "[]", OF _ _ _ _ calm_parts(1)]) simp_all
  moreover have "calm ?s1 (case p_process ?s1 of None \<Rightarrow> stopped_for k ?s1 | Some c \<Rightarrow> add_task (Stopping c k) ?s1)"
    by (simp split: option.split)
  ultimately show ?thesis unfolding stopPluginProcess_def Let_def by (rule calm_trans)
qed

lemma calm_awake [simp]: "calm s (awake t s)"
  by (cases t) simp_all

lemma calm_awakes: "calm s (fold awake ts s)"
  by (induction ts arbitrary: s) (auto intro: calm_trans [OF calm_awake])

lemma calm_requests [simp]:
  "calm s (disable s)" "calm s (restart problem s)" "calm s (enable problem s)" "calm s (settled_alive w s)"
  unfolding disable_def restart_def enable_def settled_alive_def Let_def
  by (auto intro: calmI calm_cong [where hs = "[]", OF _ _ _ _ calm_stop] calm_cong [where hs = "[]", OF _ _ _ _ calm_begin])

lemma calm_timer [simp]: "calm s (timer_fires t problem s)"
  unfolding timer_fires_def Let_def
  by (auto intro: calmI calm_cong [where hs = "[]", OF _ _ _ _ calm_begin])

text \<open>So an invariant of the log has four kinds of step to survive.\<close>

lemma step_log_cases:
  assumes "sup_step s e s'" and "P s"
    and calm: "\<And>s t. calm s t \<Longrightarrow> P s \<Longrightarrow> P t"
    and exit: "\<And>s code now. P s \<Longrightarrow> P (handleChildExit code now s)"
    and cleanup: "\<And>s i. P s \<Longrightarrow> i \<in> set (preRestartCleanups s) \<Longrightarrow> P (cleanup_settles i s)"
    and drained: "\<And>s e. P s \<Longrightarrow> preRestartCleanups s = [] \<Longrightarrow> P (drained e s)"
  shows "P s'"
  using assms(1)
proof cases
  case (exits c now code)
  let ?s1 = "s\<lparr>sv_children := remove1 c (sv_children s), sv_clock := now\<rparr>"
  let ?s2 = "if p_process s = Some c then handleChildExit code now ?s1 else ?s1"
  have "P ?s1" by (rule calm [OF calmI [where hs = "[]"] assms(2)]) simp_all
  then have "P ?s2" using exit by simp
  then have "P (?s2\<lparr>sv_tasks := filter (\<lambda>t. \<not> waits_for c t) (sv_tasks s)\<rparr>)"
    by (rule calm [OF calmI [where hs = "[]"], rotated 4]) simp_all
  then show ?thesis unfolding exits child_exits_def Let_def by (rule calm [OF calm_awakes])
next
  case (drains e)
  have "P (del_task (Draining e) s)" using calm [OF calm_parts(3) assms(2)] .
  moreover have "preRestartCleanups (del_task (Draining e) s) = []" using drains by (simp add: del_task_def)
  ultimately show ?thesis using drains drained by simp
next
  case (cleanup i)
  then show ?thesis using assms(2) assms(5) by simp
next
  case (launches k now fb failure)
  have "P (del_task (Spawning k) (s\<lparr>sv_clock := now\<rparr>))"
    by (rule calm [OF calm_cong [where hs = "[]", OF _ _ _ _ calm_parts(3)] assms(2)]) simp_all
  then show ?thesis unfolding launches by (rule calm [OF calm_launch])
qed (use calm [OF _ assms(2)] calm [OF calm_wire calm [OF calm_parts(3) assms(2)]]
      calm [OF calm_requests(4) calm [OF calm_parts(3) assms(2)]] in simp_all)

subsection \<open>Recovery waits for every clean-up\<close>

definition started_in :: "sup_log list \<Rightarrow> nat set" where
  "started_in l = {i. Cleanup_started i \<in> set l}"

definition settled_in :: "sup_log list \<Rightarrow> nat set" where
  "settled_in l = {i. Cleanup_settled i \<in> set l}"

definition clean_before :: "sup_log list \<Rightarrow> sup_log \<Rightarrow> bool" where
  "clean_before l x \<longleftrightarrow> (\<forall>e. x = Reprovisioned e \<longrightarrow> started_in l = {1..e} \<and> settled_in l = {1..e})"

lemma clean_before_simps [simp]:
  "clean_before l (Crashed t)" "clean_before l (Scheduled t d)" "clean_before l (Cleanup_started i)"
  "clean_before l (Cleanup_settled i)" "clean_before l Budget_exhausted" "clean_before l History_cleared"
  "clean_before l (Reprovisioned e) \<longleftrightarrow> started_in l = {1..e} \<and> settled_in l = {1..e}"
  by (simp_all add: clean_before_def)

definition cleanups_tracked :: "supervisor \<Rightarrow> bool" where
  "cleanups_tracked s \<longleftrightarrow> started_in (sv_log s) = {1..preRestartEpoch s}
     \<and> settled_in (sv_log s) \<subseteq> {1..preRestartEpoch s}
     \<and> set (preRestartCleanups s) = started_in (sv_log s) - settled_in (sv_log s)
     \<and> at_each clean_before (sv_log s)"

lemma cleanup_sets [simp]:
  "started_in (l @ m) = started_in l \<union> started_in m" "settled_in (l @ m) = settled_in l \<union> settled_in m"
  "started_in [] = {}" "settled_in [] = {}"
  "started_in [x] = (case x of Cleanup_started i \<Rightarrow> {i} | _ \<Rightarrow> {})"
  "settled_in [x] = (case x of Cleanup_settled i \<Rightarrow> {i} | _ \<Rightarrow> {})"
  by (auto simp: started_in_def settled_in_def split: sup_log.split)

lemma calm_log:
  assumes "calm s t" and "\<And>l. P l \<Longrightarrow> P (l @ [History_cleared])" and "P (sv_log s)"
  shows "P (sv_log t)"
proof -
  have "P l \<Longrightarrow> P (l @ replicate n History_cleared)" for l n
    by (induction n) (use assms(2) in \<open>simp_all add: replicate_append_same [symmetric] flip: append_assoc\<close>)
  then show ?thesis using assms(1,3) by (auto simp: calm_def)
qed

lemma cleanups_tracked_calm: "calm s t \<Longrightarrow> cleanups_tracked s \<Longrightarrow> cleanups_tracked t"
proof -
  assume c: "calm s t" and s: "cleanups_tracked s"
  have "started_in (sv_log t) = started_in (sv_log s) \<and> settled_in (sv_log t) = settled_in (sv_log s) \<and> at_each clean_before (sv_log t)"
    by (rule calm_log [OF c]) (use s in \<open>auto simp: cleanups_tracked_def\<close>)
  then show ?thesis using c s by (auto simp: cleanups_tracked_def calm_def)
qed

lemma start_cleanup_tracked: "cleanups_tracked s \<Longrightarrow> cleanups_tracked (start_cleanup s)"
  by (auto simp: start_cleanup_def note_log_def cleanups_tracked_def)

lemma tracked_note:
  assumes "cleanups_tracked s" and "case x of Cleanup_started i \<Rightarrow> False | Cleanup_settled i \<Rightarrow> False | Reprovisioned e \<Rightarrow> False | _ \<Rightarrow> True"
  shows "cleanups_tracked (note_log [x] s)"
  using assms by (auto simp: note_log_def cleanups_tracked_def split: sup_log.splits)

lemma tracked_cong: "cleanups_tracked s \<Longrightarrow> preRestartCleanups t = preRestartCleanups s \<Longrightarrow> preRestartEpoch t = preRestartEpoch s
    \<Longrightarrow> sv_log t = sv_log s \<Longrightarrow> cleanups_tracked t"
  by (simp add: cleanups_tracked_def)

lemma cleanups_tracked_exit: "cleanups_tracked s \<Longrightarrow> cleanups_tracked (handleChildExit code now s)"
proof -
  assume s: "cleanups_tracked s"
  let ?s1 = "s\<lparr>intentionalStop := False, p_process := None\<rparr>"
  have s1: "cleanups_tracked ?s1" by (rule tracked_cong [OF s]) simp_all
  have s2: "cleanups_tracked (note_log [Crashed now] ((start_cleanup ?s1)\<lparr>restartHistory := h\<rparr>))" for h
    by (rule tracked_note [OF tracked_cong [OF start_cleanup_tracked [OF s1]]]) simp_all
  have n: "cleanups_tracked t \<Longrightarrow> cleanups_tracked (note_log [] t)" for t by (simp add: note_log_def)
  show ?thesis unfolding handleChildExit_def Let_def
    by (auto intro!: n tracked_note intro: tracked_cong [OF s] tracked_cong [OF s2])
qed

lemma cleanups_tracked_step: "sup_step s e s' \<Longrightarrow> cleanups_tracked s \<Longrightarrow> cleanups_tracked s'"
proof (erule step_log_cases)
  fix s i
  assume "cleanups_tracked s" "i \<in> set (preRestartCleanups s)"
  then show "cleanups_tracked (cleanup_settles i s)"
    by (auto simp: cleanups_tracked_def cleanup_settles_def note_log_def)
next
  fix s e
  assume "cleanups_tracked s" "preRestartCleanups s = []"
  then show "cleanups_tracked (drained e s)"
    by (auto simp: cleanups_tracked_def drained_def note_log_def)
qed (simp_all add: cleanups_tracked_calm cleanups_tracked_exit)

subsection \<open>The restart budget\<close>

definition within :: "int \<Rightarrow> int list \<Rightarrow> nat" where
  "within t ts = length (filter (\<lambda>x. t - RESTART_WINDOW_MS \<le> x) ts)"

lemma within_mono: "mset ts \<subseteq># mset us \<Longrightarrow> within t ts \<le> within t us"
  unfolding within_def by (metis multiset_filter_mono mset_filter size_mset size_mset_mono)

lemma within_append [simp]: "within t (ts @ us) = within t ts + within t us"
  by (simp add: within_def)

definition in_budget :: "sup_log list \<Rightarrow> sup_log \<Rightarrow> bool" where
  "in_budget l x \<longleftrightarrow> (\<forall>u d. x = Scheduled u d \<longrightarrow> within u (crash_times (since_clear l)) < RESTART_BUDGET
     \<and> mset (u # restart_times (since_clear l)) \<subseteq># mset (crash_times (since_clear l)) \<and> d \<in> {500, 1000})"

lemma in_budget_simps [simp]:
  "in_budget l (Crashed t)" "in_budget l (Reprovisioned e)" "in_budget l (Cleanup_started i)"
  "in_budget l (Cleanup_settled i)" "in_budget l Budget_exhausted" "in_budget l History_cleared"
  by (simp_all add: in_budget_def)

definition budgeted :: "supervisor \<Rightarrow> bool" where
  "budgeted s \<longleftrightarrow> mset (crash_times (since_clear (sv_log s))) \<subseteq># mset (map rs_at (restartHistory s))
     \<and> mset (restart_times (since_clear (sv_log s))) \<subseteq># mset (crash_times (since_clear (sv_log s)))
     \<and> at_each in_budget (sv_log s)"

lemma budgeted_log:
  "budgeted s \<Longrightarrow> restartHistory t = restartHistory s @ hs \<Longrightarrow> sv_log t = sv_log s \<Longrightarrow> budgeted t"
  unfolding budgeted_def by (metis map_append mset_append mset_subset_eq_add_left subset_mset.order_trans)

lemma budgeted_calm:
  assumes "calm s t" and "budgeted s"
  shows "budgeted t"
proof -
  from assms(1) obtain n where l: "sv_log t = sv_log s @ replicate n History_cleared"
    and h: "n = 0 \<longrightarrow> (\<exists>hs. restartHistory t = restartHistory s @ hs)" by (auto simp: calm_def)
  show ?thesis
  proof (cases n)
    case 0
    then show ?thesis using l h budgeted_log [OF assms(2)] by auto
  next
    case (Suc m)
    have "at_each in_budget (sv_log t)" by (rule calm_log [OF assms(1)]) (use assms(2) in \<open>simp_all add: budgeted_def\<close>)
    moreover have "since_clear (sv_log t) = []"
      unfolding l Suc by (simp add: replicate_append_same [symmetric] flip: append_assoc)
    ultimately show ?thesis by (simp add: budgeted_def)
  qed
qed

lemma recent_within: "length (recent_restarts now hist) = within now (map rs_at hist)"
  by (simp add: recent_restarts_def within_def filter_map o_def)

lemma restart_delay_range: "restart_delay n \<in> {500, 1000}" if "0 < n" "n < RESTART_BUDGET"
proof -
  have "n = 1 \<or> n = 2" using that by (auto simp: RESTART_BUDGET_def)
  then show ?thesis by (auto simp: restart_delay_def BACKOFF_SCHEDULE_MS_def)
qed

lemma budgeted_note:
  assumes "budgeted s" and "case x of Crashed t \<Rightarrow> False | Scheduled u d \<Rightarrow> False | History_cleared \<Rightarrow> False | _ \<Rightarrow> True"
  shows "budgeted (note_log [x] s)"
  using assms by (auto simp: note_log_def budgeted_def split: sup_log.splits)

lemma budgeted_crash: "budgeted s \<Longrightarrow>
  budgeted (note_log [Crashed now] (s\<lparr>restartHistory := restartHistory s @ [\<lparr>rs_at = now, rs_reason = r, rs_exitCode = c\<rparr>]\<rparr>))"
  by (auto simp: note_log_def budgeted_def intro: subset_mset.order_trans)

lemma budgeted_schedule:
  assumes "budgeted s" and "sv_log s = l @ [Crashed now]" and "budgeted r" and "sv_log r = l"
    and "within now (map rs_at (restartHistory s)) < RESTART_BUDGET" and "d \<in> {500, 1000}"
  shows "budgeted (note_log [Scheduled now d] s)"
proof -
  have "within now (crash_times (since_clear (sv_log s))) < RESTART_BUDGET"
    using within_mono [of "crash_times (since_clear (sv_log s))" "map rs_at (restartHistory s)" now] assms(1,5)
    by (simp add: budgeted_def)
  moreover have "mset (now # restart_times (since_clear (sv_log s))) \<subseteq># mset (crash_times (since_clear (sv_log s)))"
    using assms(2-4) by (simp add: budgeted_def)
  ultimately show ?thesis using assms(1,6) by (auto simp: note_log_def budgeted_def in_budget_def)
qed

lemma start_cleanup_parts [simp]: "restartHistory (start_cleanup s) = restartHistory s"
  "sv_log (start_cleanup s) = sv_log s @ (if p_component s then [Cleanup_started (Suc (preRestartEpoch s))] else [])"
  by (simp_all add: start_cleanup_def note_log_def)

lemma budgeted_exit:
  assumes "budgeted s"
  shows "budgeted (handleChildExit code now s)"
proof -
  define s1 where "s1 = s\<lparr>intentionalStop := False, p_process := None\<rparr>"
  define ev where "ev = \<lparr>rs_at = now, rs_reason = Unexpected_exit, rs_exitCode = code\<rparr>"
  define s2 where "s2 = note_log [Crashed now] ((start_cleanup s1)\<lparr>restartHistory := restartHistory s @ [ev]\<rparr>)"
  have log: "budgeted r \<Longrightarrow> sv_log t = sv_log r \<Longrightarrow> restartHistory t = restartHistory r \<Longrightarrow> budgeted t" for r t
    using budgeted_log [of r t "[]"] by simp
  have b1: "budgeted s1" by (rule log [OF assms]) (simp_all add: s1_def)
  have b0: "budgeted (start_cleanup s1)"
  proof (cases "p_component s1")
    case True
    have "budgeted (note_log [Cleanup_started (Suc (preRestartEpoch s1))] s1)" by (rule budgeted_note [OF b1]) simp
    then show ?thesis by (rule log) (simp_all add: True note_log_def)
  next
    case False
    then show ?thesis using b1 by (simp add: start_cleanup_def)
  qed
  have b2: "budgeted s2"
    using budgeted_crash [OF b0, of now Unexpected_exit code] by (simp add: s2_def ev_def s1_def)
  have n: "0 < length (recent_restarts now (restartHistory s @ [ev]))"
    by (simp add: recent_restarts_def ev_def RESTART_WINDOW_MS_def)
  have w: "within now (map rs_at (restartHistory s2)) = length (recent_restarts now (restartHistory s @ [ev]))"
    by (simp add: recent_within s2_def note_log_def)
  have sched: "budgeted (note_log [Scheduled now (restart_delay (length (recent_restarts now (restartHistory s @ [ev]))))] s2)"
    if "length (recent_restarts now (restartHistory s @ [ev])) < RESTART_BUDGET"
    by (rule budgeted_schedule [OF b2 _ b0]) (use that n restart_delay_range in \<open>auto simp: w, simp_all add: s2_def note_log_def\<close>)
  have exh: "budgeted (note_log (if p_component s then [Budget_exhausted] else []) s2)"
    using b2 budgeted_note [OF b2, of Budget_exhausted] by (simp add: note_log_def)
  show ?thesis
    unfolding handleChildExit_def Let_def ev_def [symmetric] s1_def [symmetric] s2_def [symmetric]
    by (auto simp: not_le intro: log [OF b1] log [OF sched] log [OF exh] simp: note_log_def)
qed

lemma budgeted_step: "sup_step s e s' \<Longrightarrow> budgeted s \<Longrightarrow> budgeted s'"
proof (erule step_log_cases)
  fix s i
  assume b: "budgeted s"
  have "budgeted (note_log [Cleanup_settled i] s)" by (rule budgeted_note [OF b]) simp
  then show "budgeted (cleanup_settles i s)"
    by (rule budgeted_log [where hs = "[]"]) (simp_all add: cleanup_settles_def note_log_def)
next
  fix s e
  assume "budgeted s"
  then show "budgeted (drained e s)" by (auto simp: drained_def intro: budgeted_note)
qed (simp_all add: budgeted_calm budgeted_exit)

lemma at_eachD: "at_each Q l \<Longrightarrow> l = xs @ x # ys \<Longrightarrow> Q xs x"
  by (simp add: at_each_def)

lemma since_clear_split: "since_clear l = xs @ x # ys \<Longrightarrow> \<exists>zs. l = zs @ x # ys \<and> since_clear zs = xs"
proof (induction l arbitrary: ys rule: rev_induct)
  case (snoc y l)
  note IH = snoc.IH
  from snoc.prems have y: "y \<noteq> History_cleared" and eq: "since_clear l @ [y] = xs @ x # ys" by (auto split: if_splits)
  show ?case
  proof (cases ys rule: rev_cases)
    case Nil
    then show ?thesis using eq by auto
  next
    case (snoc ys' z)
    then have "since_clear l = xs @ x # ys'" using eq by simp
    from IH [OF this] show ?thesis using snoc eq by auto
  qed
qed simp

lemma last_restart: "filter P (restart_times l) \<noteq> [] \<Longrightarrow>
  \<exists>xs u d ys. l = xs @ Scheduled u d # ys \<and> P u \<and> filter P (restart_times l) = filter P (restart_times xs @ [u])"
proof (induction l rule: rev_induct)
  case (snoc x l)
  show ?case
  proof (cases "\<exists>u d. x = Scheduled u d \<and> P u")
    case True
    then obtain u d where "x = Scheduled u d" "P u" by blast
    then show ?thesis by (intro exI [of _ l] exI [of _ u] exI [of _ d] exI [of _ "[]"]) simp
  next
    case False
    then have eq: "filter P (restart_times (l @ [x])) = filter P (restart_times l)" by (cases x) auto
    then have "filter P (restart_times l) \<noteq> []" using snoc.prems by simp
    from snoc.IH [OF this] obtain xs u d ys where "l = xs @ Scheduled u d # ys" "P u"
      "filter P (restart_times l) = filter P (restart_times xs @ [u])" by blast
    then show ?thesis using eq by (metis append.assoc append_Cons)
  qed
qed simp

lemma budget_window:
  assumes "at_each in_budget l"
  shows "length (filter (\<lambda>u. t - RESTART_WINDOW_MS \<le> u \<and> u \<le> t) (restart_times (since_clear l))) < RESTART_BUDGET"
proof (cases "filter (\<lambda>u. t - RESTART_WINDOW_MS \<le> u \<and> u \<le> t) (restart_times (since_clear l)) = []")
  case True
  then show ?thesis by (simp add: RESTART_BUDGET_def)
next
  case False
  let ?P = "\<lambda>u. t - RESTART_WINDOW_MS \<le> u \<and> u \<le> t"
  from last_restart [OF False] obtain xs u d ys where s: "since_clear l = xs @ Scheduled u d # ys" and u: "?P u"
    and eq: "filter ?P (restart_times (since_clear l)) = filter ?P (restart_times xs @ [u])" by blast
  from since_clear_split [OF s] obtain zs where z: "l = zs @ Scheduled u d # ys" "since_clear zs = xs" by blast
  have b: "within u (crash_times xs) < RESTART_BUDGET" "mset (restart_times xs @ [u]) \<subseteq># mset (crash_times xs)"
    using at_eachD [OF assms z(1)] z(2) by (auto simp: in_budget_def)
  have "length (filter ?P ts) \<le> within u ts" for ts
    using u unfolding within_def by (induction ts) auto
  then have "length (filter ?P (restart_times xs @ [u])) \<le> within u (restart_times xs @ [u])" .
  also have "\<dots> \<le> within u (crash_times xs)" by (rule within_mono [OF b(2)])
  finally show ?thesis using b(1) eq by simp
qed

subsection \<open>One child at a time\<close>

text \<open>
  A request to restart or enable spawns at once when no child runs. It is well timed when no
  restart of the supervisor's own is pending or under way, and a restart is not asked for twice.
\<close>

fun is_spawning :: "task \<Rightarrow> bool" where
  "is_spawning (Spawning k) = True"
| "is_spawning t = False"

fun is_restarting :: "task \<Rightarrow> bool" where
  "is_restarting (Stopping c (Then_restart p)) = True"
| "is_restarting t = False"

definition resting :: "supervisor \<Rightarrow> bool" where
  "resting s \<longleftrightarrow> p_process s \<noteq> None \<or> sv_timers s = [] \<and> \<not> list_ex is_spawning (sv_tasks s)"

fun well_timed :: "supervisor \<Rightarrow> sup_event \<Rightarrow> bool" where
  "well_timed s (Restarts p) \<longleftrightarrow> resting s \<and> \<not> list_ex is_restarting (sv_tasks s)"
| "well_timed s (Enables p) \<longleftrightarrow> resting s"
| "well_timed s e \<longleftrightarrow> True"

inductive timed_run :: "supervisor \<Rightarrow> sup_event list \<Rightarrow> supervisor \<Rightarrow> bool" where
  timed_end: "timed_run s [] s"
| timed_step: "sup_step s e s1 \<Longrightarrow> well_timed s e \<Longrightarrow> timed_run s1 es s2 \<Longrightarrow> timed_run s (e # es) s2"

lemma timed_run_invariant:
  assumes "timed_run s es s'" and "P s" and "\<And>s e s'. sup_step s e s' \<Longrightarrow> well_timed s e \<Longrightarrow> P s \<Longrightarrow> P s'"
  shows "P s'"
  using assms by (induction) blast+

definition tasks_of :: "(task \<Rightarrow> bool) \<Rightarrow> supervisor \<Rightarrow> nat" where
  "tasks_of P s = length (filter P (sv_tasks s))"

definition no_child :: "nat \<Rightarrow> supervisor \<Rightarrow> bool" where
  "no_child n s \<longleftrightarrow> p_process s = None \<and> sv_children s = []
     \<and> length (sv_timers s) + tasks_of is_spawning s + n \<le> 1 \<and> (\<forall>c k. Stopping c k \<notin> set (sv_tasks s))"

definition one_child :: "nat \<Rightarrow> supervisor \<Rightarrow> bool" where
  "one_child c s \<longleftrightarrow> p_process s = Some c \<and> sv_children s = [c] \<and> sv_timers s = [] \<and> tasks_of is_spawning s = 0
     \<and> tasks_of is_restarting s \<le> 1 \<and> (\<forall>c' k. Stopping c' k \<in> set (sv_tasks s) \<longrightarrow> c' = c \<and> intentionalStop s)"

definition single :: "supervisor \<Rightarrow> bool" where
  "single s \<longleftrightarrow> no_child 0 s \<or> (\<exists>c. one_child c s)"

lemma tasks_of_simps [simp]:
  "tasks_of P (add_task t s) = tasks_of P s + (if P t then 1 else 0)"
  "t \<in> set (sv_tasks s) \<Longrightarrow> tasks_of P (del_task t s) = tasks_of P s - (if P t then 1 else 0)"
  "tasks_of P (note_log ls s) = tasks_of P s"
  "tasks_of P (clear_timer s) = tasks_of P s"
  by (simp_all add: tasks_of_def add_task_def del_task_def note_log_def clear_timer_def filter_remove1 length_remove1
    split: option.split)

lemma task_sets [simp]:
  "set (sv_tasks (add_task t s)) = insert t (set (sv_tasks s))"
  "sv_tasks (note_log ls s) = sv_tasks s" "sv_tasks (clear_timer s) = sv_tasks s"
  by (auto simp: add_task_def note_log_def clear_timer_def split: option.split)

lemma del_task_sub: "t' \<in> set (sv_tasks (del_task t s)) \<Longrightarrow> t' \<in> set (sv_tasks s)"
  using notin_set_remove1 by (fastforce simp: del_task_def)

lemma task_fields [simp]:
  "p_process (add_task t s) = p_process s" "sv_children (add_task t s) = sv_children s" "sv_timers (add_task t s) = sv_timers s"
  "intentionalStop (add_task t s) = intentionalStop s" "p_status (add_task t s) = p_status s"
  "p_process (del_task t s) = p_process s" "sv_children (del_task t s) = sv_children s" "sv_timers (del_task t s) = sv_timers s"
  "intentionalStop (del_task t s) = intentionalStop s" "p_status (del_task t s) = p_status s"
  "p_process (note_log ls s) = p_process s" "sv_children (note_log ls s) = sv_children s" "sv_timers (note_log ls s) = sv_timers s"
  "intentionalStop (note_log ls s) = intentionalStop s" "p_status (note_log ls s) = p_status s"
  by (simp_all add: add_task_def del_task_def note_log_def)

lemma clear_timer_fields [simp]:
  "p_process (clear_timer s) = p_process s" "sv_children (clear_timer s) = sv_children s"
  "intentionalStop (clear_timer s) = intentionalStop s" "p_status (clear_timer s) = p_status s"
  by (simp_all add: clear_timer_def split: option.split)

lemma clear_timer_le: "length (sv_timers (clear_timer s)) \<le> length (sv_timers s)"
  by (simp add: clear_timer_def split: option.split)

lemma tasks_of_cong: "sv_tasks t = sv_tasks s \<Longrightarrow> tasks_of P t = tasks_of P s"
  by (simp add: tasks_of_def)

lemma no_child_cong: "no_child n s \<Longrightarrow> p_process t = p_process s \<Longrightarrow> sv_children t = sv_children s
    \<Longrightarrow> length (sv_timers t) \<le> length (sv_timers s) \<Longrightarrow> sv_tasks t = sv_tasks s \<Longrightarrow> no_child n t"
  using tasks_of_cong [of t s] by (auto simp: no_child_def)

lemma one_child_cong: "one_child c s \<Longrightarrow> p_process t = p_process s \<Longrightarrow> sv_children t = sv_children s
    \<Longrightarrow> length (sv_timers t) \<le> length (sv_timers s) \<Longrightarrow> sv_tasks t = sv_tasks s
    \<Longrightarrow> (intentionalStop s \<longrightarrow> intentionalStop t) \<Longrightarrow> one_child c t"
  using tasks_of_cong [of t s] by (auto simp: one_child_def)

lemma no_child_add: "no_child n s \<Longrightarrow> \<not> is_spawning t \<Longrightarrow> (\<And>c k. t \<noteq> Stopping c k) \<Longrightarrow> no_child n (add_task t s)"
  by (auto simp: no_child_def)

lemma one_child_add: "one_child c s \<Longrightarrow> \<not> is_spawning t \<Longrightarrow> (\<And>c k. t \<noteq> Stopping c k) \<Longrightarrow> one_child c (add_task t s)"
  by (cases t) (auto simp: one_child_def)

lemma no_child_roll_back: "no_child n s \<Longrightarrow> no_child n (roll_back s)"
  unfolding roll_back_def by (erule no_child_cong) (simp_all add: clear_timer_le)

lemma resume_cases:
  obtains "resume k s = s"
  | e where "k = Recover e" "p_component s" "p_status s = P_enabled" "resume k s = add_task (Draining e) s"
  | "k = Enabling" "p_process s = None" "resume k s = roll_back s"
  | c where "k = Enabling" "p_process s = Some c" "resume k s = add_task (Settling c) s"
proof (cases k)
  case (Recover e)
  then show ?thesis using that(1,2) by (cases "p_component s \<and> p_status s = P_enabled") (auto simp: resume_def)
next
  case Enabling
  then show ?thesis using that(1,3,4)
    by (cases "p_status s = P_errored"; cases "p_process s") (auto simp: resume_def)
next
  case Plain
  then show ?thesis using that(1) by (simp add: resume_def)
qed

lemma no_child_resume: "no_child n s \<Longrightarrow> no_child n (resume k s)"
  by (rule resume_cases [of k s]) (simp_all add: no_child_roll_back no_child_add)

lemma one_child_resume: "one_child c s \<Longrightarrow> one_child c (resume k s)"
  by (rule resume_cases [of k s]) (simp_all add: one_child_add, simp add: one_child_def)

lemma no_child_begin:
  assumes "no_child (Suc n) s"
  shows "no_child n (begin_spawn problem k s)"
proof -
  have less: "no_child n t" if "no_child (Suc n) t" for t using that by (auto simp: no_child_def)
  have "no_child (Suc n) (s\<lparr>intentionalStop := False\<rparr>)" by (rule no_child_cong [OF assms]) simp_all
  then have "no_child n (add_task (Spawning k) (s\<lparr>intentionalStop := False\<rparr>))" by (auto simp: no_child_def)
  moreover have "no_child n (s\<lparr>intentionalStop := False, p_status := P_errored, p_lastError := Some e\<rparr>)" for e
    by (rule no_child_cong [OF less [OF assms]]) simp_all
  ultimately show ?thesis using less [OF assms] no_child_resume
    by (simp add: begin_spawn_def Let_def split: option.split)
qed

lemma no_child_awake:
  assumes "no_child (n + (if is_restarting t then 1 else 0)) s"
  shows "no_child n (awake t s)"
proof (cases t)
  case (Stopping c k)
  show ?thesis
  proof (cases k)
    case Then_disable
    then show ?thesis using assms by (simp add: Stopping stopped_for_def) (erule no_child_cong; simp)
  next
    case (Then_restart p)
    have "no_child (Suc n) (note_log [History_cleared] (s\<lparr>restartHistory := [], p_lastError := None\<rparr>))"
      by (rule no_child_cong [where s = s]) (use assms in \<open>simp_all add: Stopping Then_restart\<close>)
    from no_child_begin [OF this] show ?thesis by (simp add: Stopping Then_restart stopped_for_def)
  qed
qed (use assms in \<open>simp_all add: no_child_resume no_child_roll_back\<close>)

lemma no_child_awakes: "no_child (n + length (filter is_restarting ts)) s \<Longrightarrow> no_child n (fold awake ts s)"
proof (induction ts arbitrary: s)
  case (Cons t ts)
  have "no_child (n + length (filter is_restarting ts)) (awake t s)"
    by (rule no_child_awake) (use Cons.prems in \<open>simp add: ac_simps split: if_splits\<close>)
  then show ?case using Cons.IH by simp
qed simp

lemma start_cleanup_fields [simp]:
  "p_process (start_cleanup s) = p_process s" "sv_children (start_cleanup s) = sv_children s"
  "sv_timers (start_cleanup s) = sv_timers s" "sv_tasks (start_cleanup s) = sv_tasks s"
  "p_component (start_cleanup s) = p_component s"
  by (simp_all add: start_cleanup_def note_log_def)

lemma note_log_extra [simp]: "p_component (note_log ls s) = p_component s"
  by (simp add: note_log_def)

lemma exit_fields [simp]:
  "p_process (handleChildExit code now s) = None"
  "sv_children (handleChildExit code now s) = sv_children s"
  "sv_tasks (handleChildExit code now s) = sv_tasks s"
  "p_component (handleChildExit code now s) = p_component s"
  by (simp_all add: handleChildExit_def Let_def)

lemma exit_timers:
  "sv_timers (handleChildExit code now s) = sv_timers s
    \<or> \<not> intentionalStop s \<and> sv_timers (handleChildExit code now s) = sv_timers s @ [sv_next s]"
  by (simp add: handleChildExit_def Let_def note_log_def)

lemma restarting_stops: "is_restarting t \<Longrightarrow> \<exists>c p. t = Stopping c (Then_restart p)"
  by (cases t rule: is_restarting.cases) auto

lemma filter_filter_le: "length (filter P (filter Q xs)) \<le> length (filter P xs)"
  by (induction xs) auto

lemma single_exit:
  assumes "one_child c s"
  shows "no_child 0 (child_exits c code now s)"
proof -
  define s1 where "s1 = s\<lparr>sv_children := remove1 c (sv_children s), sv_clock := now\<rparr>"
  define ts where "ts = filter (waits_for c) (sv_tasks s)"
  define r where "r = (handleChildExit code now s1)\<lparr>sv_tasks := filter (\<lambda>t. \<not> waits_for c t) (sv_tasks s)\<rparr>"
  have one: "p_process s = Some c" "sv_children s = [c]" "sv_timers s = []" "tasks_of is_spawning s = 0"
    "tasks_of is_restarting s \<le> 1" and stops: "\<And>c' k. Stopping c' k \<in> set (sv_tasks s) \<Longrightarrow> c' = c \<and> intentionalStop s"
    using assms by (auto simp: one_child_def)
  have restarting: "length (filter is_restarting ts) \<le> 1"
    using filter_filter_le [of is_restarting "waits_for c" "sv_tasks s"] one(5) by (simp add: ts_def tasks_of_def)
  have "length (filter is_restarting ts) = 0" if "\<not> intentionalStop s"
  proof -
    have "\<not> is_restarting t" if "t \<in> set ts" for t
      using restarting_stops [of t] stops that \<open>\<not> intentionalStop s\<close> unfolding ts_def by fastforce
    then show ?thesis by (simp add: filter_empty_conv)
  qed
  moreover have "sv_timers r = [] \<or> \<not> intentionalStop s \<and> length (sv_timers r) = 1"
    using exit_timers [of code now s1] one(3) by (auto simp: r_def s1_def)
  ultimately have "length (sv_timers r) + length (filter is_restarting ts) \<le> 1" using restarting by auto
  moreover have "filter is_spawning (sv_tasks r) = []"
    using one(4) by (auto simp: r_def tasks_of_def filter_empty_conv)
  moreover have "Stopping c' k \<notin> set (sv_tasks r)" for c' k using stops by (auto simp: r_def)
  ultimately have "no_child (0 + length (filter is_restarting ts)) r"
    using one(2) by (simp add: no_child_def tasks_of_def r_def s1_def)
  then have "no_child 0 (fold awake ts r)" by (rule no_child_awakes)
  then show ?thesis using one(1) by (simp add: child_exits_def Let_def s1_def ts_def r_def)
qed

lemma single_stop_one:
  assumes "one_child c s" and "\<not> list_ex is_restarting (sv_tasks s) \<or> k = Then_disable"
  shows "single (stopPluginProcess k s)"
proof -
  let ?s1 = "clear_timer (s\<lparr>intentionalStop := True\<rparr>)"
  have "one_child c ?s1"
    by (rule one_child_cong [OF assms(1)]) (use clear_timer_le [of "s\<lparr>intentionalStop := True\<rparr>"] in simp_all)
  moreover have "tasks_of is_restarting ?s1 = 0 \<or> k = Then_disable"
    using assms(2) by (auto simp: tasks_of_def list_ex_iff filter_empty_conv)
  ultimately have "one_child c (add_task (Stopping c k) ?s1)" by (auto simp: one_child_def)
  then show ?thesis using assms(1) by (auto simp: stopPluginProcess_def Let_def one_child_def single_def)
qed

lemma single_disable:
  assumes "single s"
  shows "single (if p_process s = None then s\<lparr>p_status := P_disabled\<rparr> else stopPluginProcess Then_disable s)"
proof (cases "p_process s")
  case None
  then have "no_child 0 s" using assms by (auto simp: single_def one_child_def)
  then have "no_child 0 (s\<lparr>p_status := P_disabled\<rparr>)" by (rule no_child_cong) simp_all
  then show ?thesis using None by (simp add: single_def)
next
  case (Some c)
  then have "\<exists>c. one_child c s" using assms by (auto simp: single_def no_child_def)
  then show ?thesis using Some single_stop_one by auto
qed

lemma single_cong: "single s \<Longrightarrow> p_process t = p_process s \<Longrightarrow> sv_children t = sv_children s
    \<Longrightarrow> length (sv_timers t) \<le> length (sv_timers s) \<Longrightarrow> sv_tasks t = sv_tasks s
    \<Longrightarrow> (intentionalStop s \<longrightarrow> intentionalStop t) \<Longrightarrow> single t"
  unfolding single_def using no_child_cong one_child_cong by blast

lemma single_resume: "single s \<Longrightarrow> single (resume k s)"
  unfolding single_def using no_child_resume one_child_resume by blast

lemma single_del: "single s \<Longrightarrow> t \<in> set (sv_tasks s) \<Longrightarrow> single (del_task t s)"
  unfolding single_def no_child_def one_child_def using del_task_sub [of _ t s] by fastforce

lemma stop_without_child: "p_process s = None \<Longrightarrow> stopPluginProcess Then_disable s
    = (clear_timer (s\<lparr>intentionalStop := True\<rparr>))\<lparr>p_status := P_disabled\<rparr>"
  by (simp add: stopPluginProcess_def Let_def stopped_for_def)

lemma single_no_child: "single s \<Longrightarrow> p_process s = None \<Longrightarrow> no_child 0 s"
  by (auto simp: single_def one_child_def)

lemma single_idle: "single s \<Longrightarrow> p_process s = None \<Longrightarrow> resting s \<Longrightarrow> no_child (Suc 0) s"
  using single_no_child [of s]
  by (auto simp: resting_def no_child_def tasks_of_def list_ex_iff filter_empty_conv)

lemma no_child_single: "no_child n s \<Longrightarrow> single s"
  by (auto simp: single_def no_child_def)

lemma single_disables: "single s \<Longrightarrow> single (disable s)"
  using single_disable [of "s\<lparr>sv_enabled := False\<rparr>"] single_cong [of s "s\<lparr>sv_enabled := False\<rparr>"]
  by (simp add: disable_def Let_def)

lemma single_restarts:
  assumes "single s" and "well_timed s (Restarts problem)"
  shows "single (restart problem s)"
proof (cases "p_process s")
  case None
  have "no_child (Suc 0) (note_log [History_cleared] (s\<lparr>restartHistory := [], p_lastError := None\<rparr>))"
    by (rule no_child_cong [OF single_idle [OF assms(1) None]]) (use assms(2) in simp_all)
  then have "no_child 0 (stopped_for (Then_restart problem) s)" by (simp add: stopped_for_def no_child_begin)
  then show ?thesis using None assms(1) no_child_single by (simp add: restart_def)
next
  case (Some c)
  then have "\<exists>c. one_child c s" using assms(1) by (auto simp: single_def no_child_def)
  then show ?thesis using Some assms single_stop_one by (auto simp: restart_def)
qed

lemma single_enables:
  assumes "single s" and "well_timed s (Enables problem)"
  shows "single (enable problem s)"
proof (cases "p_process s")
  case None
  have "no_child (Suc 0) (s\<lparr>p_status := P_disabled, p_lastError := None\<rparr>)"
    by (rule no_child_cong [OF single_idle [OF assms(1) None]]) (use assms(2) in simp_all)
  then show ?thesis using None assms(1) no_child_single [OF no_child_begin] by (simp add: enable_def)
next
  case (Some c)
  then show ?thesis using single_cong [OF assms(1), of "s\<lparr>sv_enabled := True\<rparr>"] assms(1) by (simp add: enable_def)
qed

lemma single_timer:
  assumes "single s" and "t \<in> set (sv_timers s)"
  shows "single (timer_fires t problem s)"
proof -
  have none: "no_child 0 s" using assms by (auto simp: single_def one_child_def)
  then have "sv_timers s = [t]" using assms(2) by (cases "sv_timers s") (auto simp: no_child_def)
  then have "no_child (Suc 0) (s\<lparr>sv_timers := filter (\<lambda>x. x \<noteq> t) (sv_timers s), restartTimer := None\<rparr>)"
    using none by (simp add: no_child_def tasks_of_def)
  then show ?thesis using no_child_single [OF no_child_begin] no_child_single by (auto simp: timer_fires_def Let_def)
qed

lemma single_launch:
  assumes "single s" and "Spawning k \<in> set (sv_tasks s)"
  shows "single (launch k fb failure now (del_task (Spawning k) (s\<lparr>sv_clock := now\<rparr>)))"
proof -
  let ?d = "del_task (Spawning k) (s\<lparr>sv_clock := now\<rparr>)"
  have pos: "0 < tasks_of is_spawning s" using assms(2) by (auto simp: tasks_of_def filter_empty_conv intro: bexI [of _ "Spawning k"])
  then have none: "no_child 0 s" using assms(1) by (auto simp: single_def one_child_def)
  have tm: "sv_timers s = []" using pos none by (cases "sv_timers s") (auto simp: no_child_def)
  have t: "tasks_of is_spawning ?d = 0 \<and> sv_timers ?d = []"
    using assms(2) pos tm none tasks_of_cong [of "s\<lparr>sv_clock := now\<rparr>" s is_spawning] by (auto simp: no_child_def)
  have st: "Stopping c' k' \<notin> set (sv_tasks ?d)" for c' k'
    using none del_task_sub [of "Stopping c' k'" "Spawning k" "s\<lparr>sv_clock := now\<rparr>"] by (auto simp: no_child_def)
  have d: "no_child 0 ?d" using none t st by (simp add: no_child_def)
  have r: "tasks_of is_restarting ?d = 0"
    using st restarting_stops unfolding tasks_of_def filter_empty_conv length_0_conv by blast
  show ?thesis
  proof (cases failure)
    case (Some message)
    have "no_child 0 (?d\<lparr>p_status := P_errored, p_lastError := l, restartHistory := h\<rparr>)" for l h
      by (rule no_child_cong [OF d]) simp_all
    then have "single (resume k (?d\<lparr>p_status := P_errored, p_lastError := l, restartHistory := h\<rparr>))" for l h
      by (rule no_child_single [OF no_child_resume])
    then show ?thesis by (simp add: Some launch_def Let_def)
  next
    case None
    have one: "one_child (sv_next ?d) (?d\<lparr>restartHistory := h, p_process := Some (sv_next ?d),
        sv_children := sv_children ?d @ [sv_next ?d], sv_next := Suc (sv_next ?d), p_status := P_enabled, p_lastError := None\<rparr>)" for h
      using d t r st by (simp add: no_child_def one_child_def tasks_of_def)
    show ?thesis unfolding launch_def None Let_def option.case single_def
      by (rule disjI2, rule exI, rule one_child_add [OF one]) simp_all
  qed
qed

lemma single_wire: "single s \<Longrightarrow> single (wire c k w s)"
proof -
  assume s: "single s"
  have "single (s\<lparr>p_status := P_errored, p_lastError := e, intentionalStop := True\<rparr>)" for e
    by (rule single_cong [OF s]) simp_all
  moreover have "single (add_task (Reaping c k) s)"
    using s no_child_add [of 0 s "Reaping c k"] one_child_add [of _ s "Reaping c k"] by (auto simp: single_def)
  ultimately show ?thesis using single_resume s by (simp add: wire_def split: wiring.split)
qed

lemma single_step: "sup_step s e s' \<Longrightarrow> well_timed s e \<Longrightarrow> single s \<Longrightarrow> single s'"
proof (induction rule: sup_step.induct)
  case (exits c s now code)
  then have "one_child c s" by (auto simp: single_def no_child_def one_child_def)
  from single_exit [OF this] show ?case by (rule no_child_single)
next
  case (cleanup i s)
  then show ?case using single_cong [of s "cleanup_settles i s"] by (simp add: cleanup_settles_def note_log_def)
next
  case (drains e s)
  then have d: "single (del_task (Draining e) s)" by (intro single_del)
  then show ?case using single_cong [OF d, of "note_log [Reprovisioned e] (del_task (Draining e) s)"]
    by (simp add: drained_def)
next
  case (settles c s written)
  then have d: "single (del_task (Settling c) s)" by (intro single_del)
  show ?case
  proof (cases "written \<or> p_process s \<noteq> None")
    case True
    then show ?thesis using d single_disable [OF d] single_cong [OF d] by (auto simp: settled_alive_def)
  next
    case False
    then have "single (stopPluginProcess Then_disable (del_task (Settling c) s))"
      using clear_timer_le [of "(del_task (Settling c) s)\<lparr>intentionalStop := True\<rparr>"]
      by (simp add: stop_without_child) (rule single_cong [OF d]; simp)
    then show ?thesis using False by (simp add: settled_alive_def)
  qed
qed (simp_all add: single_timer single_launch single_wire single_del single_disables single_restarts single_enables)

subsection \<open>One recovery per crash\<close>

text \<open>
  The right to recover from crash \<open>e\<close> is a token: the pending timer of the last crash holds it, then
  the task that respawns the plugin for it, then the one that waits for the clean-ups, and in the
  end the recovery in the log.
\<close>

fun carries :: "nat \<Rightarrow> task \<Rightarrow> bool" where
  "carries e (Spawning k) = (k = Recover e)"
| "carries e (Wiring c k) = (k = Recover e)"
| "carries e (Reaping c k) = (k = Recover e)"
| "carries e (Draining e') = (e' = e)"
| "carries e (Stopping c k) = False"
| "carries e (Settling c) = False"

definition tokens :: "task list \<Rightarrow> supervisor \<Rightarrow> nat \<Rightarrow> nat" where
  "tokens ts s e = tasks_of (carries e) s + length (filter (carries e) ts) + count (mset (recovered (sv_log s))) e
     + (if e = preRestartEpoch s then length (sv_timers s) else 0)"

definition token_ok :: "task list \<Rightarrow> supervisor \<Rightarrow> bool" where
  "token_ok ts s \<longleftrightarrow> p_component s \<and> (\<forall>e. tokens ts s e \<le> (if e \<le> preRestartEpoch s then 1 else 0))"

definition no_more :: "(nat \<Rightarrow> nat) \<Rightarrow> supervisor \<Rightarrow> supervisor \<Rightarrow> bool" where
  "no_more d s t \<longleftrightarrow> p_component t = p_component s \<and> preRestartEpoch t = preRestartEpoch s
     \<and> (\<forall>e. tokens [] t e \<le> tokens [] s e + d e)"

abbreviation nothing :: "nat \<Rightarrow> nat" where "nothing \<equiv> \<lambda>e. 0"
abbreviation owed :: "spawn_caller \<Rightarrow> nat \<Rightarrow> nat" where "owed k \<equiv> \<lambda>e. if k = Recover e then 1 else 0"

lemma tokens_split: "tokens ts s e = tokens [] s e + length (filter (carries e) ts)"
  by (simp add: tokens_def)

lemma no_more_trans: "no_more d s t \<Longrightarrow> no_more d' t u \<Longrightarrow> no_more (\<lambda>e. d e + d' e) s u"
  unfolding no_more_def by (fastforce intro: order_trans)

lemma no_more_zero: "no_more nothing s t \<Longrightarrow> no_more d t u \<Longrightarrow> no_more d s u"
  using no_more_trans [of nothing s t d u] by simp

lemma no_more_more: "no_more nothing s t \<Longrightarrow> no_more d s t"
  by (auto simp: no_more_def intro: le_add1 order_trans)

lemma no_moreI: "p_component t = p_component s \<Longrightarrow> preRestartEpoch t = preRestartEpoch s \<Longrightarrow> sv_tasks t = sv_tasks s
    \<Longrightarrow> recovered (sv_log t) = recovered (sv_log s) \<Longrightarrow> length (sv_timers t) \<le> length (sv_timers s) \<Longrightarrow> no_more d s t"
  using tasks_of_cong [of t s] by (simp add: no_more_def tokens_def)

lemma no_more_add: "\<forall>e. carries e t \<longrightarrow> 0 < d e \<Longrightarrow> no_more d s (add_task t s)"
  by (auto simp: no_more_def tokens_def) (auto simp: add_task_def Suc_le_eq)

lemma more_fields [simp]:
  "p_component (clear_timer s) = p_component s" "preRestartEpoch (clear_timer s) = preRestartEpoch s"
  "sv_log (clear_timer s) = sv_log s" "preRestartEpoch (note_log ls s) = preRestartEpoch s"
  "sv_log (note_log ls s) = sv_log s @ ls"
  by (simp_all add: clear_timer_def note_log_def split: option.split)

lemma no_more_roll_back: "no_more nothing s (roll_back s)"
  unfolding roll_back_def by (rule no_moreI) (simp_all add: clear_timer_le)

lemma no_more_resume: "no_more (owed k) s (resume k s)"
  by (rule resume_cases [of k s])
    (simp_all add: no_moreI no_more_more [OF no_more_roll_back] no_more_add)

lemma no_more_begin: "no_more (owed k) s (begin_spawn problem k s)"
proof -
  have "no_more (owed k) (s\<lparr>intentionalStop := False\<rparr>) (add_task (Spawning k) (s\<lparr>intentionalStop := False\<rparr>))"
    by (rule no_more_add) simp
  then have "no_more (owed k) s (add_task (Spawning k) (s\<lparr>intentionalStop := False\<rparr>))"
    by (rule no_more_zero [rotated]) (simp add: no_moreI)
  moreover have "no_more (owed k) s (resume k (s\<lparr>intentionalStop := False, p_status := P_errored, p_lastError := e\<rparr>))" for e
    by (rule no_more_zero [OF _ no_more_resume]) (simp add: no_moreI)
  ultimately show ?thesis using no_more_resume by (simp add: begin_spawn_def Let_def split: option.split)
qed

lemma no_more_stopped: "no_more nothing s (stopped_for k s)"
proof (cases k)
  case Then_disable
  then show ?thesis by (simp add: stopped_for_def no_moreI)
next
  case (Then_restart problem)
  have "no_more nothing s (note_log [History_cleared] (s\<lparr>restartHistory := [], p_lastError := None\<rparr>))"
    by (rule no_moreI) simp_all
  from no_more_zero [OF this no_more_begin [of Plain]] show ?thesis by (simp add: stopped_for_def Then_restart)
qed

lemma no_more_stop: "no_more nothing s (stopPluginProcess k s)"
proof -
  let ?s1 = "clear_timer (s\<lparr>intentionalStop := True\<rparr>)"
  have s1: "no_more nothing s ?s1"
    by (rule no_moreI) (use clear_timer_le [of "s\<lparr>intentionalStop := True\<rparr>"] in simp_all)
  have "no_more nothing ?s1 (add_task (Stopping c k) ?s1)" for c by (rule no_more_add) simp
  then show ?thesis using no_more_zero [OF s1] no_more_stopped
    by (simp add: stopPluginProcess_def Let_def split: option.split)
qed

lemma no_more_disable: "no_more nothing s (disable s)"
  using no_more_zero [OF _ no_more_stop, of s "s\<lparr>sv_enabled := False\<rparr>"] by (simp add: disable_def Let_def no_moreI)

lemma no_more_restart: "no_more nothing s (restart problem s)"
  using no_more_stop no_more_stopped by (simp add: restart_def no_moreI)

lemma no_more_enable: "no_more nothing s (enable problem s)"
  using no_more_zero [OF _ no_more_begin [of Enabling], of s "s\<lparr>p_status := P_disabled, p_lastError := None\<rparr>"]
  by (simp add: enable_def no_moreI)

lemma no_more_settled: "no_more nothing s (settled_alive w s)"
  using no_more_stop by (simp add: settled_alive_def no_moreI)

definition freed :: "task \<Rightarrow> nat \<Rightarrow> nat" where "freed t e = (if carries e t then 1 else 0)"

lemma freed_simps [simp]: "freed (Spawning k) = owed k" "freed (Wiring c k) = owed k" "freed (Settling c) = nothing"
  by (auto simp: freed_def)

lemma token_more: "token_ok ts s \<Longrightarrow> no_more nothing s t \<Longrightarrow> token_ok ts t"
  unfolding token_ok_def no_more_def using tokens_split by (metis add.right_neutral add_le_mono1 order_trans)

lemma token_spent:
  assumes "token_ok [] s" and "\<And>e. tokens [] r e + d e \<le> tokens [] s e" and "no_more d r u"
    and "p_component r = p_component s" and "preRestartEpoch r = preRestartEpoch s"
  shows "token_ok [] u"
proof -
  have "tokens [] u e \<le> tokens [] s e" for e
    using assms(2) [of e] assms(3) by (meson no_more_def order_trans)
  then have "tokens [] u e \<le> (if e \<le> preRestartEpoch s then 1 else 0)" for e
    using assms(1) by (meson token_ok_def order_trans)
  then show ?thesis using assms(1,3-5) by (simp add: token_ok_def no_more_def)
qed

lemma token_swap:
  assumes "token_ok [] s" and "t \<in> set (sv_tasks s)" and "no_more (freed t) (del_task t s) u"
  shows "token_ok [] u"
proof (rule token_spent [OF assms(1) _ assms(3)])
  fix e
  have "freed t e \<le> tasks_of (carries e) s"
    using assms(2) by (auto simp: tasks_of_def freed_def Suc_le_eq filter_empty_conv)
  then have "tasks_of (carries e) (del_task t s) + freed t e = tasks_of (carries e) s"
    using assms(2) by (auto simp: freed_def)
  moreover have "sv_log (del_task t s) = sv_log s" "preRestartEpoch (del_task t s) = preRestartEpoch s"
    by (simp_all add: del_task_def)
  ultimately show "tokens [] (del_task t s) e + freed t e \<le> tokens [] s e"
    by (cases "e = preRestartEpoch s") (simp_all add: tokens_def)
qed (simp_all add: del_task_def)

lemma token_awake: "token_ok (t # ts) s \<Longrightarrow> token_ok ts (awake t s)"
proof -
  assume a: "token_ok (t # ts) s"
  have n: "no_more (freed t) s (awake t s)"
    by (cases t) (auto simp: freed_def [abs_def] no_more_stopped no_more_resume no_more_roll_back no_moreI)
  have "tokens ts (awake t s) e \<le> tokens (t # ts) s e" for e
    using n by (auto simp: no_more_def tokens_split [of ts] tokens_split [of "t # ts"] freed_def split: if_splits)
  then show ?thesis using a n unfolding token_ok_def no_more_def by (metis order_trans)
qed

lemma token_awakes: "token_ok ts s \<Longrightarrow> token_ok [] (fold awake ts s)"
  by (induction ts arbitrary: s) (simp_all add: token_awake)

lemma token_launch: "no_more (owed k) s (launch k fb failure now s)"
proof (cases failure)
  case (Some message)
  have "no_more nothing s (s\<lparr>p_status := P_errored, p_lastError := l, restartHistory := h\<rparr>)" for l h
    by (rule no_moreI) simp_all
  from no_more_zero [OF this no_more_resume] show ?thesis by (simp add: launch_def Let_def Some)
next
  case None
  let ?l = "\<lambda>h. s\<lparr>restartHistory := h, p_process := Some (sv_next s), sv_children := sv_children s @ [sv_next s],
      sv_next := Suc (sv_next s), p_status := P_enabled, p_lastError := None\<rparr>"
  have "no_more nothing s (?l h)" for h by (rule no_moreI) simp_all
  moreover have "no_more (owed k) t (add_task (Wiring c k) t)" for c t by (rule no_more_add) simp
  ultimately have "no_more (owed k) s (add_task (Wiring c k) (?l h))" for c h by (rule no_more_zero)
  then show ?thesis by (simp add: launch_def Let_def None)
qed

lemma token_wire: "no_more (owed k) s (wire c k w s)"
proof -
  have "no_more nothing s (s\<lparr>p_status := P_errored, p_lastError := l, intentionalStop := True\<rparr>)" for l
    by (rule no_moreI) simp_all
  from no_more_zero [OF this no_more_resume] have f: "no_more (owed k) s
    (resume k (s\<lparr>p_status := P_errored, p_lastError := l, intentionalStop := True\<rparr>))" for l .
  have "no_more (owed k) s (add_task (Reaping c k) s)" by (rule no_more_add) simp
  then show ?thesis using f no_more_resume by (simp add: wire_def split: wiring.split)
qed

lemma token_timer:
  assumes "token_ok [] s" and "t \<in> set (sv_timers s)"
  shows "token_ok [] (timer_fires t problem s)"
proof -
  let ?s1 = "s\<lparr>sv_timers := filter (\<lambda>x. x \<noteq> t) (sv_timers s), restartTimer := None\<rparr>"
  have "length (filter (\<lambda>x. x \<noteq> t) ts) < length ts" if "t \<in> set ts" for ts
    using that length_filter_less [of t ts "\<lambda>x. x \<noteq> t"] by simp
  from this [OF assms(2)] have less: "tokens [] ?s1 e + owed (Recover (preRestartEpoch s)) e \<le> tokens [] s e" for e
    by (simp add: tokens_def tasks_of_def)
  have "token_ok [] ?s1"
    by (rule token_more [OF assms(1)]) (rule no_moreI; simp)
  moreover have "token_ok [] (begin_spawn problem (Recover (preRestartEpoch s)) ?s1)"
    by (rule token_spent [OF assms(1) less no_more_begin]) simp_all
  ultimately show ?thesis by (simp add: timer_fires_def Let_def)
qed

lemma exit_epoch:
  assumes "p_component s"
  shows "preRestartEpoch (handleChildExit code now s) = preRestartEpoch s \<and> sv_timers (handleChildExit code now s) = sv_timers s
    \<or> preRestartEpoch (handleChildExit code now s) = Suc (preRestartEpoch s)
      \<and> length (sv_timers (handleChildExit code now s)) \<le> Suc (length (sv_timers s))"
  using assms by (simp add: handleChildExit_def Let_def start_cleanup_def)

lemma exit_recovered: "recovered (sv_log (handleChildExit code now s)) = recovered (sv_log s)"
  by (simp add: handleChildExit_def Let_def)

lemma token_exit:
  assumes "one_child c s" and "token_ok [] s"
  shows "token_ok [] (child_exits c code now s)"
proof -
  define s1 where "s1 = s\<lparr>sv_children := remove1 c (sv_children s), sv_clock := now\<rparr>"
  define ts where "ts = filter (waits_for c) (sv_tasks s)"
  define r where "r = (handleChildExit code now s1)\<lparr>sv_tasks := filter (\<lambda>t. \<not> waits_for c t) (sv_tasks s)\<rparr>"
  have comp: "p_component s1" "p_component r" using assms(2) by (simp_all add: token_ok_def s1_def r_def)
  have "sv_timers s = []" using assms(1) by (simp add: one_child_def)
  then have ep: "preRestartEpoch r = preRestartEpoch s \<and> sv_timers r = []
      \<or> preRestartEpoch r = Suc (preRestartEpoch s) \<and> length (sv_timers r) \<le> 1"
    using exit_epoch [OF comp(1), of code now] by (simp add: r_def s1_def)
  have part: "length (filter P (filter (\<lambda>t. \<not> Q t) xs)) + length (filter P (filter Q xs)) = length (filter P xs)"
    for P Q and xs :: "task list" by (induction xs) auto
  have "tokens ts r e = tokens [] s e + (if e = preRestartEpoch r then length (sv_timers r) else 0)" for e
    using part [of "carries e" "waits_for c" "sv_tasks s"] exit_recovered [of code now s1] \<open>sv_timers s = []\<close>
    by (simp add: tokens_def tasks_of_def r_def ts_def s1_def)
  moreover have "tokens [] s e \<le> (if e \<le> preRestartEpoch s then 1 else 0)" for e
    using assms(2) by (simp add: token_ok_def)
  ultimately have "tokens ts r e \<le> (if e \<le> preRestartEpoch r then 1 else 0)" for e
    using ep by (smt (verit, best) add_0 add.right_neutral le_SucI le_0_eq le_antisym le_refl list.size(3) not_less_eq_eq)
  then have "token_ok [] (fold awake ts r)" using comp(2) by (intro token_awakes) (simp add: token_ok_def)
  moreover have "p_process s = Some c" using assms(1) by (simp add: one_child_def)
  ultimately show ?thesis by (simp add: child_exits_def Let_def s1_def ts_def r_def)
qed

lemma token_step: "sup_step s e s' \<Longrightarrow> single s \<Longrightarrow> token_ok [] s \<Longrightarrow> token_ok [] s'"
proof (induction rule: sup_step.induct)
  case (exits c s now code)
  then have "one_child c s" by (auto simp: single_def no_child_def one_child_def)
  with exits show ?case by (simp add: token_exit)
next
  case (timer t s problem)
  then show ?case by (simp add: token_timer)
next
  case (launches k s now fb failure)
  have "token_ok [] (s\<lparr>sv_clock := now\<rparr>)" by (rule token_more [OF launches(4)]) (simp add: no_moreI)
  from token_swap [OF this, of "Spawning k"] show ?case using launches(1) token_launch by simp
next
  case (wires c k s w)
  from token_swap [OF wires(3), of "Wiring c k"] show ?case using wires(1) token_wire by simp
next
  case (cleanup i s)
  have "no_more nothing s (cleanup_settles i s)" by (rule no_moreI) (simp_all add: cleanup_settles_def)
  from token_more [OF cleanup(3) this] show ?case .
next
  case (drains e s)
  have "no_more (freed (Draining e)) t (drained e t)" for t
    by (auto simp: drained_def freed_def no_more_def tokens_def tasks_of_def note_log_def)
  then show ?case using token_swap [OF drains(4), of "Draining e"] drains(1) by simp
next
  case (settles c s written)
  from token_swap [OF settles(3), of "Settling c"] show ?case using settles(1) no_more_settled by simp
qed (simp_all add: token_more [OF _ no_more_disable] token_more [OF _ no_more_restart] token_more [OF _ no_more_enable])

lemma booted_single: "single (booted c st)"
  by (simp add: single_def no_child_def booted_def tasks_of_def)

lemma booted_token: "token_ok [] (booted True st)"
  by (simp add: token_ok_def tokens_def booted_def tasks_of_def)

lemma booted_cleanups: "cleanups_tracked (booted c st)"
  by (simp add: cleanups_tracked_def booted_def)

lemma booted_budget: "budgeted (booted c st)"
  by (simp add: budgeted_def booted_def)

subsection \<open>What the supervisor guarantees\<close>

text \<open>
  C6. Components are never brought back up beside a clean-up: whenever the supervisor re-provisions
  the components of a plugin that crashed, whatever interleaving of exits, timers, clean-ups and
  requests led there, the re-provision belongs to the last crash, and the clean-ups of that crash
  and of every crash before it have been started and have settled.
\<close>

theorem recovery_waits_for_cleanups:
  assumes "sup_run (booted c st) es s" and "sv_log s = xs @ Reprovisioned e # ys"
  shows "started_in xs = {1..e} \<and> settled_in xs = {1..e}"
proof -
  have "cleanups_tracked s" by (rule sup_run_invariant [where P = cleanups_tracked, OF assms(1) booted_cleanups cleanups_tracked_step])
  then have "clean_before xs (Reprovisioned e)" using assms(2) unfolding cleanups_tracked_def by (blast dest: at_eachD)
  then show ?thesis by simp
qed

text \<open>
  C16. The budget bounds the automatic restarts: since the last manual restart or roll-back, the
  supervisor has scheduled fewer than three restarts within any five minutes.
\<close>

theorem restart_budget_holds:
  assumes "sup_run (booted c st) es s"
  shows "length (filter (\<lambda>u. t - RESTART_WINDOW_MS \<le> u \<and> u \<le> t) (restart_times (since_clear (sv_log s)))) < RESTART_BUDGET"
proof -
  have "budgeted s" by (rule sup_run_invariant [where P = budgeted, OF assms booted_budget budgeted_step])
  then show ?thesis by (intro budget_window) (simp add: budgeted_def)
qed


subsection \<open>Runs, computed\<close>

fun perform :: "sup_event \<Rightarrow> supervisor \<Rightarrow> supervisor option" where
  "perform (Exits c code now) s = (if c \<in> set (sv_children s) \<and> sv_clock s \<le> now then Some (child_exits c code now s) else None)"
| "perform (Timer_fires t problem) s = (if t \<in> set (sv_timers s) then Some (timer_fires t problem s) else None)"
| "perform (Launches k fb failure now) s = (if Spawning k \<in> set (sv_tasks s) \<and> sv_clock s \<le> now
     then Some (launch k fb failure now (del_task (Spawning k) (s\<lparr>sv_clock := now\<rparr>))) else None)"
| "perform (Wires c k w) s = (if Wiring c k \<in> set (sv_tasks s) then Some (wire c k w (del_task (Wiring c k) s)) else None)"
| "perform (Cleanup_ends i) s = (if i \<in> set (preRestartCleanups s) then Some (cleanup_settles i s) else None)"
| "perform (Drains e) s = (if Draining e \<in> set (sv_tasks s) \<and> preRestartCleanups s = []
     then Some (drained e (del_task (Draining e) s)) else None)"
| "perform (Settles c w) s = (if Settling c \<in> set (sv_tasks s) then Some (settled_alive w (del_task (Settling c) s)) else None)"
| "perform Disables s = Some (disable s)"
| "perform (Restarts problem) s = Some (restart problem s)"
| "perform (Enables problem) s = Some (enable problem s)"

primrec play :: "sup_event list \<Rightarrow> supervisor \<Rightarrow> supervisor option" where
  "play [] s = Some s"
| "play (e # es) s = (case perform e s of None \<Rightarrow> None | Some s1 \<Rightarrow> play es s1)"

lemma perform_step: "sup_step s e s' \<longleftrightarrow> perform e s = Some s'"
  by (cases e) (auto elim!: sup_stepE intro: sup_step.intros split: if_splits)

lemma play_run: "sup_run s es s' \<longleftrightarrow> play es s = Some s'"
proof
  show "sup_run s es s' \<Longrightarrow> play es s = Some s'"
    by (induction rule: sup_run.induct) (simp_all add: perform_step)
  show "play es s = Some s' \<Longrightarrow> sup_run s es s'"
    by (induction es arbitrary: s)
      (auto simp: run_ends perform_step [symmetric] intro: run_steps split: option.splits)
qed

text \<open>A plugin that crashes once and recovers.\<close>

definition crash_run :: "sup_event list" where
  "crash_run = [Launches Plain False None 0, Wires 0 Plain Wired, Exits 0 (Some 1) 10]"

definition recovery_run :: "sup_event list" where
  "recovery_run = crash_run @ [Timer_fires 1 None, Launches (Recover 1) False None 600, Wires 2 (Recover 1) Wired, Cleanup_ends 1, Drains 1]"

lemma recovery_log:
  "map_option sv_log (play recovery_run (booted True True)) =
     Some [Cleanup_started 1, Crashed 10, Scheduled 10 500, Cleanup_settled 1, Reprovisioned 1]"
  by code_simp

lemma sup_run_timed: "sup_run s es s' \<Longrightarrow> (\<And>e r. e \<in> set es \<Longrightarrow> well_timed r e) \<Longrightarrow> timed_run s es s'"
  by (induction rule: sup_run.induct) (auto intro: timed_run.intros)

lemma recovery_reached:
  obtains s where "sup_run (booted True True) recovery_run s"
    and "sv_log s = [Cleanup_started 1, Crashed 10, Scheduled 10 500, Cleanup_settled 1] @ Reprovisioned 1 # []"
  using recovery_log play_run by fastforce

theorem recovery_waits_for_cleanups_witness:
  "started_in [Cleanup_started 1, Crashed 10, Scheduled 10 500, Cleanup_settled 1] = {1..1}
   \<and> settled_in [Cleanup_started 1, Crashed 10, Scheduled 10 500, Cleanup_settled 1] = {1..1}"
  by (rule recovery_reached) (rule recovery_waits_for_cleanups)

theorem restart_budget_holds_witness:
  "\<exists>s. sup_run (booted True True) recovery_run s \<and> restart_times (since_clear (sv_log s)) = [10]
     \<and> length (filter (\<lambda>u. 10 - RESTART_WINDOW_MS \<le> u \<and> u \<le> 10) (restart_times (since_clear (sv_log s)))) < RESTART_BUDGET"
proof (rule recovery_reached)
  fix s assume "sup_run (booted True True) recovery_run s"
    and "sv_log s = [Cleanup_started 1, Crashed 10, Scheduled 10 500, Cleanup_settled 1] @ Reprovisioned 1 # []"
  then show ?thesis using restart_budget_holds [of True True recovery_run s 10] by (auto simp: since_clear_def)
qed


subsection \<open>Requests during the back-off\<close>

text \<open>
  A plugin disabled while its restart is pending comes back: no child runs then, so \<open>disable\<close>
  returns without cancelling the timer, and the timer's spawn marks the plugin enabled again, with a
  child, although the user's choice on disk says disabled.
\<close>

theorem disable_in_backoff_is_undone:
  "\<exists>s. sup_run (booted True True) (crash_run @ [Disables, Timer_fires 1 None, Launches (Recover 1) False None 600]) s
     \<and> p_status s = P_enabled \<and> p_process s \<noteq> None \<and> \<not> sv_enabled s"
proof -
  have "map_option (\<lambda>s. (p_status s, p_process s, sv_enabled s))
      (play (crash_run @ [Disables, Timer_fires 1 None, Launches (Recover 1) False None 600]) (booted True True))
      = Some (P_enabled, Some 2, False)" by code_simp
  then show ?thesis by (auto simp: play_run)
qed

text \<open>
  A plugin restarted by hand while its automatic restart is pending runs twice: the manual
  restart spawns a child without cancelling the timer, the timer spawns another that takes over the
  entry, and the first child runs on, owned by nothing.
\<close>

theorem restart_in_backoff_orphans_a_child:
  "\<exists>s. sup_run (booted True True) (crash_run @ [Restarts None, Launches Plain False None 20, Wires 2 Plain Wired,
         Timer_fires 1 None, Launches (Recover 1) False None 600]) s
     \<and> sv_children s = [2, 3] \<and> p_process s = Some 3"
proof -
  have "map_option (\<lambda>s. (sv_children s, p_process s))
      (play (crash_run @ [Restarts None, Launches Plain False None 20, Wires 2 Plain Wired,
         Timer_fires 1 None, Launches (Recover 1) False None 600]) (booted True True)) = Some ([2, 3], Some 3)" by code_simp
  then show ?thesis by (auto simp: play_run)
qed

text \<open>
  A launch that falls back to the unsandboxed process leaves an event that the next crash counts:
  when both launches fell back, the second crash already spends the budget of three.
\<close>

theorem fallbacks_spend_the_budget:
  "map_option p_status (play [Launches Plain True None 0, Wires 0 Plain Wired, Exits 0 (Some 1) 10, Timer_fires 1 None,
      Launches (Recover 1) True None 20, Wires 2 (Recover 1) Wired, Exits 2 (Some 1) 30] (booted True True)) = Some P_errored"
  by code_simp

end
