(* ===== verification/Broker.thy ===== *)
theory Broker
  imports Flow Processes
begin

section \<open>The broker of privileged plugin calls\<close>

text \<open>
  \<open>server/services/component-broker.ts\<close>, with the contexts \<open>bench-manager.ts\<close> builds for it, the
  registry of contexts in \<open>plugin-manager.ts\<close>, \<open>audit-log.ts\<close> and the consent categories of
  \<open>shared/plugin-consent-schema.ts\<close>. A component plugin runs in its own process and asks the host,
  over JSON-RPC, to start processes and containers for it; the broker checks what the plugin
  declared, audits the call, validates the parameters and delegates. A handler is a list of what it
  did, in order, and then a JSON-RPC error or a result. What the process manager, docker and the
  sinks answer is the record \<open>broker_host\<close>; an answer \<open>Inl\<close> is a thrown error, with its code if it
  has one. Time stamps of audit entries are left out.
\<close>

subsection \<open>Declared permissions\<close>

datatype consent_category = Network | Credentials | Filesystem | Processes | Ports | Docker

datatype broker_category = Cat_process | Cat_docker | Cat_ports

text \<open>The two optional categories are \<open>None\<close> when the manifest leaves them out; \<open>false\<close> is \<open>Some None\<close>.\<close>

record plugin_permissions =
  network_hosts :: "string list"
  credential_slots :: "string list"
  filesystem_paths :: "string list"
  processes_permission :: "string list option"
  ports_permission :: "string list option option"
  docker_permission :: "unit option option"

definition declaredCategories :: "plugin_permissions \<Rightarrow> consent_category list" where
  "declaredCategories p =
     (if network_hosts p \<noteq> [] then [Network] else [])
     @ (if credential_slots p \<noteq> [] then [Credentials] else [])
     @ (if filesystem_paths p \<noteq> [] then [Filesystem] else [])
     @ (if processes_permission p \<noteq> None then [Processes] else [])
     @ (if ports_permission p \<noteq> None \<and> ports_permission p \<noteq> Some None then [Ports] else [])
     @ (if docker_permission p \<noteq> None \<and> docker_permission p \<noteq> Some None then [Docker] else [])"

definition isFullyAcknowledged :: "plugin_permissions \<Rightarrow> consent_category list \<Rightarrow> bool" where
  "isFullyAcknowledged p acknowledged = list_all (\<lambda>c. c \<in> set acknowledged) (declaredCategories p)"

fun BROKER_TO_CONSENT_CATEGORY :: "broker_category \<Rightarrow> consent_category" where
  "BROKER_TO_CONSENT_CATEGORY Cat_process = Processes"
| "BROKER_TO_CONSENT_CATEGORY Cat_docker = Docker"
| "BROKER_TO_CONSENT_CATEGORY Cat_ports = Ports"

record broker_context =
  cx_projectId :: string
  cx_pluginId :: string
  cx_benchId :: int
  cx_componentName :: "string option"
  cx_ports :: "int jmap"
  cx_declared :: "consent_category list option"
  cx_assigns :: bool

definition hasPermission :: "broker_context \<Rightarrow> broker_category \<Rightarrow> bool" where
  "hasPermission cx c = (case cx_declared cx of None \<Rightarrow> False
     | Some declared \<Rightarrow> BROKER_TO_CONSENT_CATEGORY c \<in> set declared)"

definition broker_context_for ::
    "string \<Rightarrow> int \<Rightarrow> string \<Rightarrow> int jmap \<Rightarrow> string \<Rightarrow> plugin_permissions option \<Rightarrow> broker_context" where
  "broker_context_for projectId benchId pluginId ports componentName permissions =
     \<lparr>cx_projectId = projectId, cx_pluginId = pluginId, cx_benchId = benchId, cx_componentName = Some componentName,
      cx_ports = ports, cx_declared = map_option declaredCategories permissions, cx_assigns = False\<rparr>"

subsection \<open>Replies\<close>

record audit_entry =
  au_pluginId :: string
  au_benchId :: int
  au_method :: string
  au_params :: "json option"
  au_allowed :: bool

text \<open>A thrown value is a \<open>ResponseError\<close> with code, message and data, or an ordinary error, which the RPC library replies to.\<close>

datatype broker_error = Response_error int string "(string \<times> json) list" | Plain_error string

datatype broker_event =
    Audited audit_entry
  | Logged string string
  | Started string string "string list" "string jmap" string
  | Ran string string "string list" "string jmap" string int
  | Stopped string
  | Read_status string
  | Read_logs string
  | Composed_up string string string string "string jmap"
  | Looked_up_container string string
  | Waited_for string string "int option"
  | Ran_init_service string string string string
  | Composed_stop string string string "string option"
  | Composed_down string string string
  | Assigned_container string string
  | Read_port string
  | Recorded string int string
  | Status_reported json
  | Log_reported string log_source string string

type_synonym 'a broker_flow = "(broker_event, broker_error, 'a) action"

definition dquoted :: "string \<Rightarrow> string" where
  "dquoted s = [dquote] @ s @ [dquote]"

definition INVALID_PARAMS_CODE :: int where "INVALID_PARAMS_CODE = - 32602"
definition INTERNAL_ERROR_CODE :: int where "INTERNAL_ERROR_CODE = - 32603"
definition PERMISSION_DENIED_CODE :: int where "PERMISSION_DENIED_CODE = - 32001"
definition METHOD_NOT_FOUND_CODE :: int where "METHOD_NOT_FOUND_CODE = - 32601"

definition invalidParams :: "string \<Rightarrow> string \<Rightarrow> 'a broker_flow" where
  "invalidParams m message = raise (Response_error INVALID_PARAMS_CODE (m @ '': '' @ message) [(''code'', JStr ''invalid-params'')])"

text \<open>What a service throws: its message, and its \<open>code\<close> as text when it has one.\<close>

type_synonym service_error = "string \<times> string option"

definition wrapInternal :: "string \<Rightarrow> service_error \<Rightarrow> 'a broker_flow" where
  "wrapInternal m err =
     (let code = coalesce (snd err) ''internal-error''
      in and_then (act [Logged ''error'' (m @ '' failed: '' @ code @ '': '' @ fst err)])
           (\<lambda>_. raise (Response_error INTERNAL_ERROR_CODE (fst err) [(''code'', JStr code)])))"

definition service :: "string \<Rightarrow> broker_event list \<Rightarrow> service_error + 'a \<Rightarrow> 'a broker_flow" where
  "service m es answer = and_then (act es) (\<lambda>_. case answer of Inl err \<Rightarrow> wrapInternal m err | Inr x \<Rightarrow> pass x)"

subsection \<open>Parameters\<close>

definition member :: "string \<Rightarrow> json option \<Rightarrow> json option" where
  "member k params = (case params of Some (JObj m) \<Rightarrow> map_of m k | _ \<Rightarrow> None)"

definition requireString :: "string \<Rightarrow> string \<Rightarrow> json option \<Rightarrow> string broker_flow" where
  "requireString m n v = (case v of Some (JStr s) \<Rightarrow> if s = [] then invalidParams m (n @ '' must be a non-empty string'') else pass s
     | _ \<Rightarrow> invalidParams m (n @ '' must be a non-empty string''))"

fun all_strings :: "json list \<Rightarrow> string list option" where
  "all_strings [] = Some []"
| "all_strings (JStr s # vs) = map_option ((#) s) (all_strings vs)"
| "all_strings (v # vs) = None"

definition requireStringArray :: "string \<Rightarrow> string \<Rightarrow> json option \<Rightarrow> string list broker_flow" where
  "requireStringArray m n v = (case v of
       None \<Rightarrow> pass []
     | Some (JArr vs) \<Rightarrow> (case all_strings vs of Some ss \<Rightarrow> pass ss | None \<Rightarrow> invalidParams m (n @ '' must be an array of strings''))
     | _ \<Rightarrow> invalidParams m (n @ '' must be an array of strings''))"

fun env_entries :: "string \<Rightarrow> (string \<times> json) list \<Rightarrow> string jmap \<Rightarrow> string jmap broker_flow" where
  "env_entries m [] out = pass out"
| "env_entries m ((k, v) # kvs) out = (case v of
       JStr s \<Rightarrow> env_entries m kvs (jput k s out)
     | _ \<Rightarrow> invalidParams m (''env['' @ [dquote] @ k @ [dquote] @ ''] must be a string''))"

definition requireEnv :: "string \<Rightarrow> json option \<Rightarrow> string jmap broker_flow" where
  "requireEnv m v = (case v of
       None \<Rightarrow> pass []
     | Some JNull \<Rightarrow> pass []
     | Some (JObj kvs) \<Rightarrow> env_entries m kvs []
     | _ \<Rightarrow> invalidParams m ''env must be an object of string values'')"

definition requireNumber :: "string \<Rightarrow> string \<Rightarrow> json option \<Rightarrow> int broker_flow" where
  "requireNumber m n v = (case v of Some (JNum i) \<Rightarrow> pass i | _ \<Rightarrow> invalidParams m (n @ '' must be a finite number''))"

subsection \<open>Contexts, permissions and the audit\<close>

record broker_host =
  bh_startProcess :: "string \<Rightarrow> service_error + int"
  bh_runProcess :: "string \<Rightarrow> service_error + int \<times> bool"
  bh_stopProcess :: "string \<Rightarrow> service_error + unit"
  bh_processStatus :: "string \<Rightarrow> service_error + bool \<times> int option"
  bh_processLogs :: "string \<Rightarrow> service_error + string list"
  bh_composeUp :: "service_error + string option option"
  bh_containerId :: "service_error + string option"
  bh_waitForHealthy :: "service_error + bool"
  bh_composeRunInit :: "service_error + string option option"
  bh_composeStop :: "service_error + unit"
  bh_composeDown :: "service_error + unit"
  bh_assign :: "service_error + unit"
  bh_record :: "service_error + unit"
  bh_reportStatus :: "service_error + unit"
  bh_reportLog :: "service_error + unit"

type_synonym context_resolver = "int \<Rightarrow> broker_context option"

definition requireCtx :: "context_resolver \<Rightarrow> string \<Rightarrow> json option \<Rightarrow> broker_context broker_flow" where
  "requireCtx resolve m params =
     and_then (requireNumber m ''benchId'' (member ''benchId'' params)) (\<lambda>benchId.
       case resolve benchId of
         None \<Rightarrow> raise (Response_error INTERNAL_ERROR_CODE (m @ '': no active bench context'') [(''code'', JStr ''no-broker-context'')])
       | Some cx \<Rightarrow> pass cx)"

definition category_text :: "broker_category \<Rightarrow> string" where
  "category_text c = (case c of Cat_process \<Rightarrow> ''process'' | Cat_docker \<Rightarrow> ''docker'' | Cat_ports \<Rightarrow> ''ports'')"

definition audit_of :: "broker_context \<Rightarrow> string \<Rightarrow> broker_category \<Rightarrow> json option \<Rightarrow> audit_entry" where
  "audit_of cx m c params = \<lparr>au_pluginId = cx_pluginId cx, au_benchId = cx_benchId cx, au_method = m, au_params = params,
     au_allowed = hasPermission cx c\<rparr>"

definition denied_error :: "string \<Rightarrow> broker_category \<Rightarrow> broker_error" where
  "denied_error m c = Response_error PERMISSION_DENIED_CODE
     (''Permission denied: category-not-declared for category '' @ dquoted (category_text c))
     [(''code'', JStr ''permission-denied''), (''category'', JStr (category_text c)), (''method'', JStr m),
      (''reason'', JStr ''category-not-declared'')]"

definition enforcePermission :: "broker_context \<Rightarrow> string \<Rightarrow> broker_category \<Rightarrow> json option \<Rightarrow> unit broker_flow" where
  "enforcePermission cx m c params =
     and_then (act [Audited (audit_of cx m c params)]) (\<lambda>_.
       if hasPermission cx c then pass ()
       else and_then (act [Logged ''warn'' (m @ '' denied: category='' @ dquoted (category_text c) @ '' reason='' @ dquoted ''category-not-declared'')])
              (\<lambda>_. raise (denied_error m c)))"

text \<open>Every privileged handler starts alike: its context, then its permission, then its own body.\<close>

definition gated ::
    "context_resolver \<Rightarrow> string \<Rightarrow> broker_category \<Rightarrow> json option \<Rightarrow> (broker_context \<Rightarrow> 'a broker_flow) \<Rightarrow> 'a broker_flow" where
  "gated resolve m c params body =
     and_then (requireCtx resolve m params) (\<lambda>cx. and_then (enforcePermission cx m c params) (\<lambda>_. body cx))"

abbreviation required :: "string \<Rightarrow> json option \<Rightarrow> string \<Rightarrow> string broker_flow" where
  "required m params n \<equiv> requireString m n (member n params)"

subsection \<open>Processes\<close>

definition process_start :: "broker_host \<Rightarrow> json option \<Rightarrow> broker_context \<Rightarrow> json broker_flow" where
  "process_start h params cx =
     (let m = ''host.process.start'' in
      and_then (required m params ''id'') (\<lambda>i.
      and_then (required m params ''command'') (\<lambda>command.
      and_then (requireStringArray m ''args'' (member ''args'' params)) (\<lambda>args.
      and_then (requireEnv m (member ''env'' params)) (\<lambda>env.
      and_then (required m params ''cwd'') (\<lambda>cwd.
      and_then (service m [Started i command args env cwd] (bh_startProcess h i)) (\<lambda>pid.
      and_then (service m [Recorded (cx_pluginId cx) (cx_benchId cx) i] (bh_record h)) (\<lambda>_.
      pass (JObj [(''pid'', JNum pid)])))))))))"

definition timeout_error :: "string \<Rightarrow> string \<Rightarrow> int \<Rightarrow> int \<Rightarrow> json broker_flow" where
  "timeout_error m i timeoutMs exitCode =
     (let message = m @ '': process '' @ dquoted i @ '' exceeded its '' @ int_str timeoutMs @ ''ms timeout and was force-killed (exit code ''
          @ int_str exitCode @ '')''
      in and_then (act [Logged ''error'' message]) (\<lambda>_. raise (Response_error INTERNAL_ERROR_CODE message
           [(''code'', JStr ''process-timeout''), (''timeoutMs'', JNum timeoutMs), (''exitCode'', JNum exitCode)])))"

definition process_run :: "broker_host \<Rightarrow> json option \<Rightarrow> broker_context \<Rightarrow> json broker_flow" where
  "process_run h params cx =
     (let m = ''host.process.run'' in
      and_then (required m params ''id'') (\<lambda>i.
      and_then (required m params ''command'') (\<lambda>command.
      and_then (requireStringArray m ''args'' (member ''args'' params)) (\<lambda>args.
      and_then (requireEnv m (member ''env'' params)) (\<lambda>env.
      and_then (required m params ''cwd'') (\<lambda>cwd.
      and_then (if member ''timeoutMs'' params = None then pass 0 else requireNumber m ''timeoutMs'' (member ''timeoutMs'' params)) (\<lambda>timeoutMs.
      and_then (act [Recorded (cx_pluginId cx) (cx_benchId cx) i]) (\<lambda>_.
      case bh_record h of
        Inl err \<Rightarrow> raise (Plain_error (fst err))
      | Inr _ \<Rightarrow>
          and_then (service m [Ran i command args env cwd timeoutMs] (bh_runProcess h i)) (\<lambda>(exitCode, timedOut).
          if timedOut then timeout_error m i timeoutMs exitCode else pass (JObj [(''exitCode'', JNum exitCode)]))))))))))"

definition process_stop :: "broker_host \<Rightarrow> json option \<Rightarrow> broker_context \<Rightarrow> json broker_flow" where
  "process_stop h params cx =
     and_then (required ''host.process.stop'' params ''id'') (\<lambda>i.
     and_then (service ''host.process.stop'' [Stopped i] (bh_stopProcess h i)) (\<lambda>_. pass JNull))"

definition process_status :: "broker_host \<Rightarrow> json option \<Rightarrow> broker_context \<Rightarrow> json broker_flow" where
  "process_status h params cx =
     and_then (required ''host.process.status'' params ''id'') (\<lambda>i.
     and_then (service ''host.process.status'' [Read_status i] (bh_processStatus h i)) (\<lambda>(isAlive, exitCode).
     pass (JObj ((''alive'', JBool isAlive) # (case exitCode of None \<Rightarrow> [] | Some code \<Rightarrow> [(''exitCode'', JNum code)])))))"

definition process_logs :: "broker_host \<Rightarrow> json option \<Rightarrow> broker_context \<Rightarrow> json broker_flow" where
  "process_logs h params cx =
     and_then (required ''host.process.logs'' params ''id'') (\<lambda>i.
     and_then (service ''host.process.logs'' [Read_logs i] (bh_processLogs h i)) (\<lambda>ls. pass (JArr (map JStr ls))))"

subsection \<open>Containers and ports\<close>

text \<open>\<open>bh_composeUp\<close> answers \<open>None\<close> for success and the optional error text for failure.\<close>

definition outcome_error :: "string \<Rightarrow> string \<Rightarrow> string option option \<Rightarrow> unit broker_flow" where
  "outcome_error fallback code outcome = (case outcome of None \<Rightarrow> pass ()
     | Some text \<Rightarrow> raise (Response_error INTERNAL_ERROR_CODE (coalesce text fallback) [(''code'', JStr code)]))"

definition docker_composeUp :: "broker_host \<Rightarrow> json option \<Rightarrow> broker_context \<Rightarrow> json broker_flow" where
  "docker_composeUp h params cx =
     (let m = ''host.docker.composeUp'' in
      and_then (required m params ''projectName'') (\<lambda>projectName.
      and_then (required m params ''composeFile'') (\<lambda>composeFile.
      and_then (required m params ''cwd'') (\<lambda>cwd.
      and_then (required m params ''service'') (\<lambda>svc.
      and_then (requireEnv m (member ''env'' params)) (\<lambda>env.
      and_then (service m [Composed_up projectName composeFile cwd svc env] (bh_composeUp h)) (\<lambda>outcome.
      and_then (outcome_error ''composeUp failed'' ''compose-up-failed'' outcome) (\<lambda>_.
      and_then (service m [Looked_up_container projectName svc] (bh_containerId h)) (\<lambda>container.
      if truthy container then pass (JObj [(''containerId'', JStr (the container))])
      else raise (Response_error INTERNAL_ERROR_CODE
        (''composeUp succeeded but no container found for service '' @ dquoted svc) [(''code'', JStr ''container-not-found'')]))))))))))"

definition docker_waitForHealthy :: "broker_host \<Rightarrow> json option \<Rightarrow> broker_context \<Rightarrow> json broker_flow" where
  "docker_waitForHealthy h params cx =
     (let m = ''host.docker.waitForHealthy'' in
      and_then (required m params ''projectName'') (\<lambda>projectName.
      and_then (required m params ''service'') (\<lambda>svc.
      and_then (if member ''timeoutMs'' params = None then pass None
                else and_then (requireNumber m ''timeoutMs'' (member ''timeoutMs'' params)) (\<lambda>t. pass (Some t))) (\<lambda>timeoutMs.
      and_then (service m [Waited_for projectName svc timeoutMs] (bh_waitForHealthy h)) (\<lambda>healthy.
      pass (JObj [(''healthy'', JBool healthy)]))))))"

definition docker_composeRunInit :: "broker_host \<Rightarrow> json option \<Rightarrow> broker_context \<Rightarrow> json broker_flow" where
  "docker_composeRunInit h params cx =
     (let m = ''host.docker.composeRunInit'' in
      and_then (required m params ''projectName'') (\<lambda>projectName.
      and_then (required m params ''composeFile'') (\<lambda>composeFile.
      and_then (required m params ''cwd'') (\<lambda>cwd.
      and_then (required m params ''initService'') (\<lambda>initService.
      and_then (service m [Ran_init_service projectName composeFile cwd initService] (bh_composeRunInit h)) (\<lambda>outcome.
      and_then (outcome_error ''composeRunInit failed'' ''compose-run-init-failed'' outcome) (\<lambda>_. pass JNull)))))))"

definition docker_composeStop :: "broker_host \<Rightarrow> json option \<Rightarrow> broker_context \<Rightarrow> json broker_flow" where
  "docker_composeStop h params cx =
     (let m = ''host.docker.composeStop'' in
      and_then (required m params ''projectName'') (\<lambda>projectName.
      and_then (required m params ''composeFile'') (\<lambda>composeFile.
      and_then (required m params ''cwd'') (\<lambda>cwd.
      and_then (if member ''service'' params = None then pass None
                else and_then (required m params ''service'') (\<lambda>s. pass (Some s))) (\<lambda>svc.
      and_then (service m [Composed_stop projectName composeFile cwd svc] (bh_composeStop h)) (\<lambda>_. pass JNull))))))"

definition docker_composeDown :: "broker_host \<Rightarrow> json option \<Rightarrow> broker_context \<Rightarrow> json broker_flow" where
  "docker_composeDown h params cx =
     (let m = ''host.docker.composeDown'' in
      and_then (required m params ''projectName'') (\<lambda>projectName.
      and_then (required m params ''composeFile'') (\<lambda>composeFile.
      and_then (required m params ''cwd'') (\<lambda>cwd.
      and_then (service m [Composed_down projectName composeFile cwd] (bh_composeDown h)) (\<lambda>_. pass JNull)))))"

definition docker_assignContainer :: "broker_host \<Rightarrow> json option \<Rightarrow> broker_context \<Rightarrow> json broker_flow" where
  "docker_assignContainer h params cx =
     (let m = ''host.docker.assignContainer'' in
      and_then (required m params ''componentName'') (\<lambda>componentName.
      and_then (required m params ''containerId'') (\<lambda>container.
      if cx_assigns cx
      then and_then (service m [Assigned_container componentName container] (bh_assign h)) (\<lambda>_. pass JNull)
      else pass JNull)))"

definition ports_get :: "json option \<Rightarrow> broker_context \<Rightarrow> json broker_flow" where
  "ports_get params cx =
     (let m = ''host.ports.get'' in
      and_then (required m params ''componentName'') (\<lambda>componentName.
      case js_get (cx_ports cx) componentName of
        Own port \<Rightarrow> and_then (act [Read_port componentName]) (\<lambda>_. pass (JNum port))
      | _ \<Rightarrow> invalidParams m (''no host-allocated port for component '' @ dquoted componentName)))"

subsection \<open>Pushes and queries\<close>

text \<open>
  The two pushes look their context up inside their \<open>try\<close>, so an error of that lookup is wrapped
  like an error of the sink: its numeric code becomes the text of the new error's data.
\<close>

definition in_try :: "string \<Rightarrow> 'a broker_flow \<Rightarrow> 'a broker_flow" where
  "in_try m flow = (case flow of
       (es, Inl (Response_error code message d)) \<Rightarrow> and_then (act es) (\<lambda>_. wrapInternal m (message, Some (int_str code)))
     | (es, Inl (Plain_error message)) \<Rightarrow> and_then (act es) (\<lambda>_. wrapInternal m (message, None))
     | (es, Inr x) \<Rightarrow> (es, Inr x))"

definition is_object :: "json option \<Rightarrow> bool" where
  "is_object v = (case v of Some (JObj _) \<Rightarrow> True | Some (JArr _) \<Rightarrow> True | _ \<Rightarrow> False)"

definition component_reportStatus :: "context_resolver \<Rightarrow> broker_host \<Rightarrow> json option \<Rightarrow> json broker_flow" where
  "component_reportStatus resolve h params =
     (let m = ''host.component.reportStatus'' in
      if \<not> is_object params then invalidParams m ''status must be a ComponentStatus object''
      else
      and_then (required m params ''name'') (\<lambda>_.
      and_then (required m params ''status'') (\<lambda>_.
      and_then (in_try m (requireCtx resolve m params)) (\<lambda>cx.
      and_then (service m [Status_reported (the params)] (bh_reportStatus h)) (\<lambda>_. pass JNull)))))"

definition reportStatus_pushed :: "context_resolver \<Rightarrow> broker_host \<Rightarrow> json option \<Rightarrow> broker_event list" where
  "reportStatus_pushed resolve h params =
     (let m = ''host.component.reportStatus'' in
      case params of
        Some (JObj kvs) \<Rightarrow>
          (case map_of kvs ''status'' of
             Some (JStr status) \<Rightarrow>
               (if status = [] then []
                else case (case map_of kvs ''benchId'' of Some (JNum benchId) \<Rightarrow> resolve benchId | _ \<Rightarrow> None) of
                    None \<Rightarrow> [Logged ''warn'' (m @ '' notification dropped: no active bench context'')]
                  | Some cx \<Rightarrow>
                      (let n = (case map_of kvs ''name'' of Some (JStr raw) \<Rightarrow> if raw = [] then cx_componentName cx else Some raw
                                | _ \<Rightarrow> cx_componentName cx)
                       in if \<not> truthy n then [Logged ''warn'' (m @ '' notification dropped: no component name'')]
                          else Status_reported (JObj (jput ''name'' (JStr (the n)) kvs))
                            # (case bh_reportStatus h of Inl err \<Rightarrow> [Logged ''error'' (m @ '' notification failed: '' @ fst err)] | Inr _ \<Rightarrow> [])))
           | _ \<Rightarrow> [])
      | _ \<Rightarrow> [])"

definition component_reportLog :: "context_resolver \<Rightarrow> broker_host \<Rightarrow> json option \<Rightarrow> json broker_flow" where
  "component_reportLog resolve h params =
     (let m = ''host.component.reportLog'' in
      and_then (if member ''source'' params = Some (JStr ''stdout'') then pass Stdout
                else if member ''source'' params = Some (JStr ''stderr'') then pass Stderr
                else invalidParams m (''source must be '' @ dquoted ''stdout'' @ '' or '' @ dquoted ''stderr'')) (\<lambda>src.
      and_then (case member ''text'' params of Some (JStr t) \<Rightarrow> pass t | _ \<Rightarrow> invalidParams m ''text must be a string'') (\<lambda>text.
      and_then (required m params ''ts'') (\<lambda>ts.
      and_then (required m params ''componentName'') (\<lambda>componentName.
      and_then (in_try m (requireCtx resolve m params)) (\<lambda>cx.
      and_then (service m [Log_reported componentName src text ts] (bh_reportLog h)) (\<lambda>_. pass JNull)))))))"

definition BROKER_API_VERSION :: string where "BROKER_API_VERSION = ''1.0.0''"

definition BROKER_METHODS :: "string jmap" where
  "BROKER_METHODS = map (\<lambda>m. (m, BROKER_API_VERSION))
     [''host.process.start'', ''host.process.run'', ''host.process.stop'', ''host.process.status'', ''host.process.logs'',
      ''host.docker.composeUp'', ''host.docker.waitForHealthy'', ''host.docker.composeRunInit'', ''host.docker.composeStop'',
      ''host.docker.composeDown'', ''host.docker.assignContainer'', ''host.ports.get'', ''host.component.reportStatus'',
      ''host.component.reportLog'', ''host.capability.query'']"

definition FUTURE_BROKER_METHODS :: "string jmap" where "FUTURE_BROKER_METHODS = []"

text \<open>An inherited member is a function or the prototype itself: true as a condition, and not part of a JSON reply.\<close>

definition capability_query :: "json option \<Rightarrow> json broker_flow" where
  "capability_query params =
     and_then (required ''host.capability.query'' params ''method'') (\<lambda>queried.
       pass (JObj (case js_get BROKER_METHODS queried of
           Own v \<Rightarrow> [(''available'', JBool True), (''introducedIn'', JStr v)]
         | Inherited \<Rightarrow> [(''available'', JBool True)]
         | Absent \<Rightarrow> [(''available'', JBool False)])))"

definition inherited_text :: "string \<Rightarrow> string" where
  "inherited_text k = (if k = ''__proto__'' then ''[object Object]''
     else ''function '' @ (if k = ''constructor'' then ''Object'' else k) @ ''() { [native code] }'')"

definition methodNotFound :: "string \<Rightarrow> json broker_flow" where
  "methodNotFound m =
     (let found = (case js_get FUTURE_BROKER_METHODS m of Absent \<Rightarrow> js_get BROKER_METHODS m | p \<Rightarrow> p);
          named = (\<lambda>text d. Response_error METHOD_NOT_FOUND_CODE
            (''Method not found: '' @ dquoted m @ '' is not registered on this host; the minimum host API version that provides it is ''
              @ text @ ''.'') ([(''code'', JStr ''method-not-found''), (''method'', JStr m)] @ d))
      in case found of
           Own v \<Rightarrow> raise (named v [(''introducedIn'', JStr v)])
         | Inherited \<Rightarrow> raise (named (inherited_text m) [])
         | Absent \<Rightarrow> raise (Response_error METHOD_NOT_FOUND_CODE
             (''Method not found: '' @ dquoted m @ '' is not part of any known host API surface.'')
             [(''code'', JStr ''method-not-found''), (''method'', JStr m)]))"

subsection \<open>The handlers of a connection\<close>

definition gated_handlers :: "broker_host \<Rightarrow> json option \<Rightarrow> (string \<times> broker_category \<times> (broker_context \<Rightarrow> json broker_flow)) list" where
  "gated_handlers h params =
     [(''host.process.start'', Cat_process, process_start h params),
      (''host.process.run'', Cat_process, process_run h params),
      (''host.process.stop'', Cat_process, process_stop h params),
      (''host.process.status'', Cat_process, process_status h params),
      (''host.process.logs'', Cat_process, process_logs h params),
      (''host.docker.composeUp'', Cat_docker, docker_composeUp h params),
      (''host.docker.waitForHealthy'', Cat_docker, docker_waitForHealthy h params),
      (''host.docker.composeRunInit'', Cat_docker, docker_composeRunInit h params),
      (''host.docker.composeStop'', Cat_docker, docker_composeStop h params),
      (''host.docker.composeDown'', Cat_docker, docker_composeDown h params),
      (''host.docker.assignContainer'', Cat_docker, docker_assignContainer h params),
      (''host.ports.get'', Cat_ports, ports_get params)]"

definition registerBrokerHandlers :: "context_resolver \<Rightarrow> broker_host \<Rightarrow> string \<Rightarrow> json option \<Rightarrow> json broker_flow" where
  "registerBrokerHandlers resolve h m params =
     (case map_of (gated_handlers h params) m of
        Some (c, body) \<Rightarrow> gated resolve m c params body
      | None \<Rightarrow>
          if m = ''host.component.reportStatus'' then component_reportStatus resolve h params
          else if m = ''host.component.reportLog'' then component_reportLog resolve h params
          else if m = ''host.capability.query'' then capability_query params
          else methodNotFound m)"

subsection \<open>Contexts and audit logs of the benches\<close>

definition brokerContextKey :: "string \<Rightarrow> int \<Rightarrow> string" where
  "brokerContextKey pluginId benchId = pluginId @ '':'' @ int_str benchId"

definition auditLogKey :: "string \<Rightarrow> int \<Rightarrow> string" where
  "auditLogKey projectId benchId = projectId @ '':'' @ int_str benchId"

record broker_state =
  brokerContexts :: "broker_context jmap"
  auditLogs :: "audit_entry list jmap"

definition registerBrokerContext :: "broker_context \<Rightarrow> broker_state \<Rightarrow> broker_state" where
  "registerBrokerContext cx s =
     s\<lparr>brokerContexts := jput (brokerContextKey (cx_pluginId cx) (cx_benchId cx)) cx (brokerContexts s)\<rparr>"

definition unregisterBrokerContext :: "string \<Rightarrow> int \<Rightarrow> broker_state \<Rightarrow> broker_state" where
  "unregisterBrokerContext pluginId benchId s =
     s\<lparr>brokerContexts := jdel (brokerContextKey pluginId benchId) (brokerContexts s)\<rparr>"

definition resolveBrokerContext :: "broker_state \<Rightarrow> string \<Rightarrow> int \<Rightarrow> broker_context option" where
  "resolveBrokerContext s pluginId benchId = map_of (brokerContexts s) (brokerContextKey pluginId benchId)"

definition recordAuditEntry :: "string \<Rightarrow> int \<Rightarrow> audit_entry \<Rightarrow> broker_state \<Rightarrow> broker_state" where
  "recordAuditEntry projectId benchId e s =
     s\<lparr>auditLogs := jput (auditLogKey projectId benchId)
        (coalesce (map_of (auditLogs s) (auditLogKey projectId benchId)) [] @ [e]) (auditLogs s)\<rparr>"

definition audit_query :: "audit_entry list \<Rightarrow> string option \<Rightarrow> int option \<Rightarrow> audit_entry list" where
  "audit_query entries pluginId benchId =
     filter (\<lambda>e. (pluginId = None \<or> pluginId = Some (au_pluginId e)) \<and> (benchId = None \<or> benchId = Some (au_benchId e))) entries"

definition queryAuditLog :: "broker_state \<Rightarrow> string \<Rightarrow> int \<Rightarrow> string option \<Rightarrow> audit_entry list" where
  "queryAuditLog s projectId benchId pluginId =
     (case map_of (auditLogs s) (auditLogKey projectId benchId) of None \<Rightarrow> [] | Some entries \<Rightarrow> audit_query entries pluginId None)"

definition clearAuditLog :: "string \<Rightarrow> int \<Rightarrow> broker_state \<Rightarrow> broker_state" where
  "clearAuditLog projectId benchId s = s\<lparr>auditLogs := jdel (auditLogKey projectId benchId) (auditLogs s)\<rparr>"

text \<open>A request on the connection of \<open>pluginId\<close>; its audit entry goes to the log of the context that answered.\<close>

definition audits_of :: "broker_event list \<Rightarrow> audit_entry list" where
  "audits_of es = List.map_filter (\<lambda>e. case e of Audited a \<Rightarrow> Some a | _ \<Rightarrow> None) es"

definition on_request :: "broker_host \<Rightarrow> string \<Rightarrow> string \<Rightarrow> json option \<Rightarrow> broker_state \<Rightarrow> json broker_flow \<times> broker_state" where
  "on_request h pluginId m params s =
     (let r = registerBrokerHandlers (resolveBrokerContext s pluginId) h m params;
          cx = (case member ''benchId'' params of Some (JNum b) \<Rightarrow> resolveBrokerContext s pluginId b | _ \<Rightarrow> None)
      in (r, case cx of None \<Rightarrow> s | Some cx \<Rightarrow> fold (recordAuditEntry (cx_projectId cx) (cx_benchId cx)) (audits_of (fst r)) s))"

subsection \<open>What a body may do\<close>

text \<open>The category of an action on the host; pushes, logs and the audit itself need none.\<close>

fun needs :: "broker_event \<Rightarrow> broker_category option" where
  "needs (Started i c a v d) = Some Cat_process"
| "needs (Ran i c a v d t) = Some Cat_process"
| "needs (Stopped i) = Some Cat_process"
| "needs (Read_status i) = Some Cat_process"
| "needs (Read_logs i) = Some Cat_process"
| "needs (Recorded p b i) = Some Cat_process"
| "needs (Composed_up p f d s v) = Some Cat_docker"
| "needs (Looked_up_container p s) = Some Cat_docker"
| "needs (Waited_for p s t) = Some Cat_docker"
| "needs (Ran_init_service p f d s) = Some Cat_docker"
| "needs (Composed_stop p f d s) = Some Cat_docker"
| "needs (Composed_down p f d) = Some Cat_docker"
| "needs (Assigned_container c i) = Some Cat_docker"
| "needs (Read_port c) = Some Cat_ports"
| "needs (Audited a) = None"
| "needs (Logged l t) = None"
| "needs (Status_reported s) = None"
| "needs (Log_reported c s t u) = None"

fun is_audit :: "broker_event \<Rightarrow> bool" where
  "is_audit (Audited a) = True"
| "is_audit e = False"

lemma only_invalid [flow_rules]: "only Q (invalidParams m t)"
  by (simp add: invalidParams_def only_basic)

lemma only_wrap [flow_rules]: "Q (Logged ''error'' (m @ '' failed: '' @ coalesce (snd err) ''internal-error'' @ '': '' @ fst err)) \<Longrightarrow> only Q (wrapInternal m err)"
  by (simp add: wrapInternal_def Let_def only_def and_then_def act_def raise_def)

lemma only_service: "list_all Q es \<Longrightarrow> (\<And>l t. Q (Logged l t)) \<Longrightarrow> only Q (service m es answer)"
  unfolding service_def by (intro only_and_then only_basic) (auto intro: only_wrap only_basic split: sum.split)

lemma only_requires [flow_rules]:
  "only Q (requireString m n v)" "only Q (requireNumber m n v)" "only Q (requireStringArray m n v)"
  by (auto simp: requireString_def requireNumber_def requireStringArray_def intro!: flow_rules
      split: option.split json.split if_splits)

lemma only_env [flow_rules]: "only Q (env_entries m kvs out)"
  by (induction m kvs out rule: env_entries.induct) (auto intro!: flow_rules split: json.split)

lemma only_requireEnv [flow_rules]: "only Q (requireEnv m v)"
  by (auto simp: requireEnv_def intro!: flow_rules split: option.split json.split)

lemma only_outcome [flow_rules]: "only Q (outcome_error t c out)"
  by (auto simp: outcome_error_def intro!: flow_rules split: option.split)

definition body_event :: "broker_category \<Rightarrow> broker_context \<Rightarrow> broker_event \<Rightarrow> bool" where
  "body_event c cx e \<longleftrightarrow> (needs e = None \<or> needs e = Some c) \<and> \<not> is_audit e
     \<and> (\<forall>p b i. e = Recorded p b i \<longrightarrow> p = cx_pluginId cx \<and> b = cx_benchId cx)"

lemma body_logged [simp]: "body_event c cx (Logged l t)"
  by (simp add: body_event_def)

lemma only_service_body [flow_rules]: "list_all (body_event c cx) es \<Longrightarrow> only (body_event c cx) (service m es answer)"
  by (rule only_service) simp_all

lemma only_timeout [flow_rules]: "only (body_event c cx) (timeout_error m i t x)"
  by (simp add: timeout_error_def Let_def only_def and_then_def act_def raise_def)

lemma process_bodies:
  "only (body_event Cat_process cx) (process_start h params cx)" "only (body_event Cat_process cx) (process_run h params cx)"
  "only (body_event Cat_process cx) (process_stop h params cx)" "only (body_event Cat_process cx) (process_status h params cx)"
  "only (body_event Cat_process cx) (process_logs h params cx)"
  unfolding process_start_def process_run_def process_stop_def process_status_def process_logs_def Let_def
  by (intro flow_rules; auto intro!: flow_rules simp: body_event_def split: sum.split prod.split)+

lemma docker_bodies:
  "only (body_event Cat_docker cx) (docker_composeUp h params cx)" "only (body_event Cat_docker cx) (docker_waitForHealthy h params cx)"
  "only (body_event Cat_docker cx) (docker_composeRunInit h params cx)" "only (body_event Cat_docker cx) (docker_composeStop h params cx)"
  "only (body_event Cat_docker cx) (docker_composeDown h params cx)" "only (body_event Cat_docker cx) (docker_assignContainer h params cx)"
  unfolding docker_composeUp_def docker_waitForHealthy_def docker_composeRunInit_def docker_composeStop_def docker_composeDown_def
    docker_assignContainer_def Let_def
  by (intro flow_rules; auto intro!: flow_rules simp: body_event_def split: if_splits)+

lemma ports_body: "only (body_event Cat_ports cx) (ports_get params cx)"
  unfolding ports_get_def Let_def
  by (intro flow_rules) (auto intro!: flow_rules simp: body_event_def split: propval.split)

lemma gated_bodies: "(m, c, body) \<in> set (gated_handlers h params) \<Longrightarrow> only (body_event c cx) (body cx)"
  using process_bodies docker_bodies ports_body unfolding gated_handlers_def by auto

lemma requireCtx_silent: "fst (requireCtx resolve m params) = []"
  by (auto simp: requireCtx_def requireNumber_def and_then_def pass_def raise_def invalidParams_def split: option.split json.split)

lemma requireCtx_ok: "snd (requireCtx resolve m params) = Inr cx \<longleftrightarrow>
    (\<exists>b. member ''benchId'' params = Some (JNum b) \<and> resolve b = Some cx)"
  by (auto simp: requireCtx_def requireNumber_def and_then_def pass_def raise_def invalidParams_def split: option.split json.split)

text \<open>The three shapes of a privileged call.\<close>

lemma gated_cases:
  obtains (unbound) e where "gated resolve m c params body = ([], Inl e)"
    and "\<nexists>b cx. member ''benchId'' params = Some (JNum b) \<and> resolve b = Some cx"
  | (denied) b cx l where "member ''benchId'' params = Some (JNum b)" and "resolve b = Some cx" and "\<not> hasPermission cx c"
      and "gated resolve m c params body = ([Audited (audit_of cx m c params), Logged ''warn'' l], Inl (denied_error m c))"
  | (allowed) b cx where "member ''benchId'' params = Some (JNum b)" and "resolve b = Some cx" and "hasPermission cx c"
      and "gated resolve m c params body = (Audited (audit_of cx m c params) # fst (body cx), snd (body cx))"
proof (cases "snd (requireCtx resolve m params)")
  case (Inl e)
  then have "gated resolve m c params body = ([], Inl e)"
    using requireCtx_silent [of resolve m params] by (cases "requireCtx resolve m params") (simp add: gated_def and_then_def)
  moreover have "\<nexists>b cx. member ''benchId'' params = Some (JNum b) \<and> resolve b = Some cx"
    using Inl requireCtx_ok [of resolve m params] by (metis Inl_Inr_False)
  ultimately show ?thesis by (rule unbound)
next
  case (Inr cx)
  then obtain b where b: "member ''benchId'' params = Some (JNum b)" "resolve b = Some cx" by (auto simp: requireCtx_ok)
  have eq: "requireCtx resolve m params = ([], Inr cx)" using Inr requireCtx_silent [of resolve m params] by (metis prod.collapse)
  show ?thesis
  proof (cases "hasPermission cx c")
    case True
    from allowed [OF b this] show ?thesis
      using True eq by (simp add: gated_def and_then_def enforcePermission_def act_def pass_def)
  next
    case False
    from denied [OF b this] show ?thesis
      using False eq by (simp add: gated_def and_then_def enforcePermission_def act_def raise_def)
  qed
qed

definition unprivileged :: "broker_event \<Rightarrow> bool" where
  "unprivileged e \<longleftrightarrow> needs e = None \<and> \<not> is_audit e"

lemma only_in_try: "only unprivileged flow \<Longrightarrow> only unprivileged (in_try m flow)"
  by (auto simp: in_try_def only_def wrapInternal_def Let_def and_then_def act_def raise_def unprivileged_def
      split: sum.splits broker_error.splits prod.splits)

lemma only_ctx: "only unprivileged (requireCtx resolve m params)"
  by (simp add: only_def requireCtx_silent)

lemma pushes_unprivileged:
  "only unprivileged (component_reportStatus resolve h params)" "only unprivileged (component_reportLog resolve h params)"
  "only unprivileged (capability_query params)" "only unprivileged (methodNotFound m)"
  unfolding component_reportStatus_def component_reportLog_def capability_query_def methodNotFound_def Let_def
  by (auto intro!: flow_rules only_in_try only_ctx only_service simp: unprivileged_def split: option.split json.split propval.split)

lemma register_cases:
  obtains (privileged) c body where "map_of (gated_handlers h params) m = Some (c, body)"
      and "registerBrokerHandlers resolve h m params = gated resolve m c params body"
  | (plain) "map_of (gated_handlers h params) m = None" and "only unprivileged (registerBrokerHandlers resolve h m params)"
  using pushes_unprivileged unfolding registerBrokerHandlers_def by (cases "map_of (gated_handlers h params) m") auto

subsection \<open>The guarantees\<close>

text \<open>
  C3. The broker is a choke point: whatever a plugin sends, an action on a process, a container or a
  port happens only if the call names a bench whose context holds the declared category, and after
  the audit entry of that call was written; a ledger row it writes is that plugin's and that bench's.
\<close>

theorem broker_acts_only_as_declared:
  assumes "registerBrokerHandlers resolve h m params = (xs @ e # ys, r)" and "needs e = Some c"
  shows "\<exists>b cx. member ''benchId'' params = Some (JNum b) \<and> resolve b = Some cx \<and> hasPermission cx c
    \<and> Audited (audit_of cx m c params) \<in> set xs \<and> (\<forall>p b i. e = Recorded p b i \<longrightarrow> p = cx_pluginId cx \<and> b = cx_benchId cx)"
proof (cases rule: register_cases [of h params m resolve])
  case plain
  then have "unprivileged e" using assms(1) onlyD by metis
  then show ?thesis using assms(2) by (simp add: unprivileged_def)
next
  case (privileged d body)
  note eq = privileged(2) [unfolded assms(1)]
  show ?thesis
  proof (cases rule: gated_cases [of resolve m d params body])
    case (unbound e)
    then show ?thesis using eq by simp
  next
    case (denied b cx l)
    then show ?thesis using eq assms(2) by (auto simp: Cons_eq_append_conv append_eq_Cons_conv)
  next
    case (allowed b cx)
    then obtain ws where ws: "xs = Audited (audit_of cx m d params) # ws" "fst (body cx) = ws @ e # ys"
      using eq assms(2) by (auto simp: append_eq_Cons_conv)
    have "only (body_event d cx) (body cx)" using gated_bodies [OF map_of_SomeD [OF privileged(1)]] .
    then have "body_event d cx e" using ws(2) by (simp add: only_def)
    then show ?thesis using allowed ws(1) assms(2) by (auto simp: body_event_def)
  qed
qed

lemma audits_of_simps [simp]: "audits_of [] = []" "audits_of (e # es) = (case e of Audited a \<Rightarrow> a # audits_of es | _ \<Rightarrow> audits_of es)"
  by (simp_all add: audits_of_def map_filter_def split: broker_event.split)

lemma audits_none: "list_all (\<lambda>e. \<not> is_audit e) es \<Longrightarrow> audits_of es = []"
  by (induction es) (auto split: broker_event.split)

text \<open>
  C14. Every privileged call for a bound bench leaves exactly one audit entry, first of all it does
  and with the parameters as they came; without the declared category the reply is the permission
  error, and the host does nothing else for the call.
\<close>

theorem privileged_calls_audited_once:
  assumes "map_of (gated_handlers h params) m = Some (c, body)"
    and "member ''benchId'' params = Some (JNum b)" and "resolve b = Some cx"
  shows "\<exists>es r. registerBrokerHandlers resolve h m params = (Audited (audit_of cx m c params) # es, r) \<and> audits_of es = []
    \<and> (\<not> hasPermission cx c \<longrightarrow> r = Inl (denied_error m c) \<and> (\<exists>text. es = [Logged ''warn'' text]))"
proof -
  have eq: "registerBrokerHandlers resolve h m params = gated resolve m c params body"
    using assms(1) by (simp add: registerBrokerHandlers_def)
  show ?thesis
  proof (cases rule: gated_cases [of resolve m c params body])
    case (unbound e)
    then show ?thesis using assms by blast
  next
    case (denied b' cx' l)
    then show ?thesis using eq assms by simp
  next
    case (allowed b' cx')
    have "only (body_event c cx) (body cx)" using gated_bodies [OF map_of_SomeD [OF assms(1)]] .
    then have "audits_of (fst (body cx)) = []" by (intro audits_none) (simp add: only_def body_event_def list_all_iff)
    then show ?thesis using eq allowed assms by simp
  qed
qed

text \<open>What the consumer acknowledged bounds what the broker allows.\<close>

lemma allowed_was_acknowledged:
  "isFullyAcknowledged p acknowledged \<Longrightarrow> hasPermission (broker_context_for prj b pl ports n (Some p)) c
    \<Longrightarrow> BROKER_TO_CONSENT_CATEGORY c \<in> set acknowledged"
  by (auto simp: isFullyAcknowledged_def hasPermission_def broker_context_for_def list_all_iff)

definition sample_context :: "string \<Rightarrow> broker_context" where
  "sample_context projectId = broker_context_for projectId 1 ''db'' [(''api'', if projectId = ''p'' then 3000 else 4000)] ''api''
     (Some \<lparr>network_hosts = [], credential_slots = [], filesystem_paths = [], processes_permission = None,
        ports_permission = Some (Some []), docker_permission = None\<rparr>)"

definition sample_answers :: broker_host where
  "sample_answers = \<lparr>bh_startProcess = \<lambda>i. Inr 7, bh_runProcess = \<lambda>i. Inr (0, False), bh_stopProcess = \<lambda>i. Inr (),
     bh_processStatus = \<lambda>i. Inr (True, None), bh_processLogs = \<lambda>i. Inr [], bh_composeUp = Inr None, bh_containerId = Inr None,
     bh_waitForHealthy = Inr True, bh_composeRunInit = Inr None, bh_composeStop = Inr (), bh_composeDown = Inr (),
     bh_assign = Inr (), bh_record = Inr (), bh_reportStatus = Inr (), bh_reportLog = Inr ()\<rparr>"

definition sample_read :: "json option" where
  "sample_read = Some (JObj [(''benchId'', JNum 1), (''componentName'', JStr ''api'')])"

lemma sample_port_read:
  "registerBrokerHandlers (\<lambda>b. Some (sample_context ''p'')) sample_answers ''host.ports.get'' sample_read
     = ([Audited (audit_of (sample_context ''p'') ''host.ports.get'' Cat_ports sample_read)] @ Read_port ''api'' # [], Inr (JNum 3000))"
  by code_simp

theorem broker_acts_only_as_declared_witness:
  "hasPermission (sample_context ''p'') Cat_ports
   \<and> Audited (audit_of (sample_context ''p'') ''host.ports.get'' Cat_ports sample_read)
     \<in> set [Audited (audit_of (sample_context ''p'') ''host.ports.get'' Cat_ports sample_read)]"
  using broker_acts_only_as_declared [OF sample_port_read, of Cat_ports] by simp

theorem privileged_calls_audited_once_witness:
  "\<exists>es r. registerBrokerHandlers (\<lambda>b. Some (sample_context ''p'')) sample_answers ''host.process.stop'' sample_read
       = (Audited (audit_of (sample_context ''p'') ''host.process.stop'' Cat_process sample_read) # es, r)
     \<and> r = Inl (denied_error ''host.process.stop'' Cat_process)"
proof -
  have m: "map_of (gated_handlers sample_answers sample_read) ''host.process.stop'' = Some (Cat_process, process_stop sample_answers sample_read)"
    by (simp add: gated_handlers_def)
  have b: "member ''benchId'' sample_read = Some (JNum 1)" by (simp add: sample_read_def member_def)
  have d: "\<not> hasPermission (sample_context ''p'') Cat_process" by code_simp
  from privileged_calls_audited_once [OF m b, of "\<lambda>b. Some (sample_context ''p'')"] d show ?thesis by auto
qed

text \<open>
  Broker contexts do not name the project: when two projects bind the same plugin on benches of
  equal number, the later context answers the calls of both, so the first bench reads the other
  bench's port and its call lands in the other project's audit log.
\<close>

theorem broker_context_crosses_projects:
  "case on_request sample_answers ''db'' ''host.ports.get'' sample_read
      (registerBrokerContext (sample_context ''q'') (registerBrokerContext (sample_context ''p'') \<lparr>brokerContexts = [], auditLogs = []\<rparr>))
   of ((es, r), s) \<Rightarrow> r = Inr (JNum 4000) \<and> queryAuditLog s ''p'' 1 None = [] \<and> length (queryAuditLog s ''q'' 1 None) = 1"
proof -
  let ?s = "registerBrokerContext (sample_context ''q'') (registerBrokerContext (sample_context ''p'') \<lparr>brokerContexts = [], auditLogs = []\<rparr>)"
  have same: "cx_pluginId (sample_context i) = ''db''" "cx_benchId (sample_context i) = 1" "cx_projectId (sample_context i) = i" for i
    by (simp_all add: sample_context_def broker_context_for_def)
  have r: "resolveBrokerContext ?s ''db'' 1 = Some (sample_context ''q'')"
    by (simp add: resolveBrokerContext_def registerBrokerContext_def same)
  have m: "map_of (gated_handlers sample_answers sample_read) ''host.ports.get'' = Some (Cat_ports, ports_get sample_read)"
    by (simp add: gated_handlers_def)
  have b: "member ''benchId'' sample_read = Some (JNum 1)" "member ''componentName'' sample_read = Some (JStr ''api'')"
    by (simp_all add: sample_read_def member_def)
  have p: "hasPermission (sample_context ''q'') Cat_ports" "map_of (cx_ports (sample_context ''q'')) ''api'' = Some 4000"
    by (simp_all add: sample_context_def broker_context_for_def hasPermission_def declaredCategories_def)
  have call: "registerBrokerHandlers (resolveBrokerContext ?s ''db'') sample_answers ''host.ports.get'' sample_read
      = ([Audited (audit_of (sample_context ''q'') ''host.ports.get'' Cat_ports sample_read), Read_port ''api''], Inr (JNum 4000))"
    using p by (simp add: registerBrokerHandlers_def m gated_def requireCtx_def requireNumber_def b r and_then_def pass_def
        enforcePermission_def act_def ports_get_def requireString_def js_get_def)
  have logs: "auditLogs ?s = []" by (simp add: registerBrokerContext_def)
  have k: "auditLogKey ''p'' 1 \<noteq> auditLogKey ''q'' 1" unfolding auditLogKey_def by simp
  show ?thesis
    by (simp add: on_request_def Let_def call b r same recordAuditEntry_def logs queryAuditLog_def k coalesce_def audit_query_def)
qed

text \<open>
  A status or log push without a bench id is answered as an internal error whose data carry the
  number of the parameter error, where every other method answers the parameter error itself.
\<close>

theorem push_hides_the_parameter_error:
  "snd (registerBrokerHandlers resolve h ''host.component.reportStatus'' (Some (JObj [(''name'', JStr ''api''), (''status'', JStr ''running'')])))
     = Inl (Response_error INTERNAL_ERROR_CODE ''host.component.reportStatus: benchId must be a finite number'' [(''code'', JStr ''-32602'')])
   \<and> snd (registerBrokerHandlers resolve h ''host.process.stop'' (Some (JObj [(''id'', JStr ''api'')])))
     = Inl (Response_error INVALID_PARAMS_CODE ''host.process.stop: benchId must be a finite number'' [(''code'', JStr ''invalid-params'')])"
proof
  have code: "int_str (- 32602) = ''-32602''" by (simp add: int_str_def nat_str.simps digit_char_def char_of_def bit_Suc bit_0)
  show "snd (registerBrokerHandlers resolve h ''host.component.reportStatus'' (Some (JObj [(''name'', JStr ''api''), (''status'', JStr ''running'')])))
     = Inl (Response_error INTERNAL_ERROR_CODE ''host.component.reportStatus: benchId must be a finite number'' [(''code'', JStr ''-32602'')])"
    by (simp add: registerBrokerHandlers_def gated_handlers_def component_reportStatus_def is_object_def requireString_def member_def
        and_then_def pass_def in_try_def requireCtx_def requireNumber_def invalidParams_def raise_def wrapInternal_def act_def
        INVALID_PARAMS_CODE_def code)
  show "snd (registerBrokerHandlers resolve h ''host.process.stop'' (Some (JObj [(''id'', JStr ''api'')])))
     = Inl (Response_error INVALID_PARAMS_CODE ''host.process.stop: benchId must be a finite number'' [(''code'', JStr ''invalid-params'')])"
    by (simp add: registerBrokerHandlers_def gated_handlers_def gated_def requireCtx_def requireNumber_def member_def and_then_def
        invalidParams_def raise_def)
qed

text \<open>
  A capability query asks a plain object, so the name of one of the members it inherits is
  reported as an available method.
\<close>

theorem inherited_names_are_available:
  "registerBrokerHandlers resolve h ''host.capability.query'' (Some (JObj [(''method'', JStr ''toString'')]))
     = ([], Inr (JObj [(''available'', JBool True)]))"
  by (simp add: registerBrokerHandlers_def gated_handlers_def capability_query_def requireString_def member_def and_then_def
      pass_def js_get_def BROKER_METHODS_def object_prototype_members_def)

subsection \<open>The type of a reply\<close>

text \<open>The result each method of the contract declares.\<close>

datatype reply_type = T_null | T_number | T_bool | T_string | T_strings | T_fields "(string \<times> reply_type \<times> bool) list"

text \<open>A field is its name, its type and whether it must be there.\<close>

fun has_type :: "reply_type \<Rightarrow> json \<Rightarrow> bool" where
  "has_type T_null v = (v = JNull)"
| "has_type T_number v = (case v of JNum i \<Rightarrow> True | _ \<Rightarrow> False)"
| "has_type T_bool v = (case v of JBool b \<Rightarrow> True | _ \<Rightarrow> False)"
| "has_type T_string v = (case v of JStr s \<Rightarrow> True | _ \<Rightarrow> False)"
| "has_type T_strings v = (case v of JArr vs \<Rightarrow> list_all (\<lambda>w. case w of JStr s \<Rightarrow> True | _ \<Rightarrow> False) vs | _ \<Rightarrow> False)"
| "has_type (T_fields fs) v = (case v of
       JObj kvs \<Rightarrow> list_all (\<lambda>(k, t, needed). case map_of kvs k of None \<Rightarrow> \<not> needed | Some w \<Rightarrow> has_type t w) fs
         \<and> set (map fst kvs) \<subseteq> fst ` set fs
     | _ \<Rightarrow> False)"

definition reply_types :: "reply_type jmap" where
  "reply_types =
     [(''host.process.start'', T_fields [(''pid'', T_number, True)]),
      (''host.process.run'', T_fields [(''exitCode'', T_number, True)]),
      (''host.process.stop'', T_null),
      (''host.process.status'', T_fields [(''alive'', T_bool, True), (''exitCode'', T_number, False)]),
      (''host.process.logs'', T_strings),
      (''host.docker.composeUp'', T_fields [(''containerId'', T_string, True)]),
      (''host.docker.waitForHealthy'', T_fields [(''healthy'', T_bool, True)]),
      (''host.docker.composeRunInit'', T_null),
      (''host.docker.composeStop'', T_null),
      (''host.docker.composeDown'', T_null),
      (''host.docker.assignContainer'', T_null),
      (''host.ports.get'', T_number),
      (''host.component.reportStatus'', T_null),
      (''host.component.reportLog'', T_null),
      (''host.capability.query'', T_fields [(''available'', T_bool, True), (''introducedIn'', T_string, False)])]"

text \<open>Every result of a flow satisfies \<open>P\<close>.\<close>

definition returns :: "('a \<Rightarrow> bool) \<Rightarrow> 'a broker_flow \<Rightarrow> bool" where
  "returns P flow \<longleftrightarrow> (case snd flow of Inl e \<Rightarrow> True | Inr x \<Rightarrow> P x)"

lemma returns_and_then: "(\<And>x. returns P (f x)) \<Longrightarrow> returns P (and_then m f)"
  by (cases m; cases "snd m") (simp_all add: returns_def and_then_def)

lemma returns_basic: "P x \<Longrightarrow> returns P (pass x)" "returns P (raise e)" "returns P (invalidParams m t)"
  by (simp_all add: returns_def pass_def raise_def invalidParams_def)

lemmas returns_rules = returns_and_then returns_basic

lemma process_replies:
  "returns (has_type (T_fields [(''pid'', T_number, True)])) (process_start h params cx)"
  "returns (has_type (T_fields [(''exitCode'', T_number, True)])) (process_run h params cx)"
  "returns (has_type T_null) (process_stop h params cx)"
  "returns (has_type (T_fields [(''alive'', T_bool, True), (''exitCode'', T_number, False)])) (process_status h params cx)"
  "returns (has_type T_strings) (process_logs h params cx)"
  unfolding process_start_def process_run_def process_stop_def process_status_def process_logs_def Let_def timeout_error_def
  by (auto intro!: returns_rules simp: list_all_iff split: prod.split option.split sum.split)

lemma docker_replies:
  "returns (has_type (T_fields [(''containerId'', T_string, True)])) (docker_composeUp h params cx)"
  "returns (has_type (T_fields [(''healthy'', T_bool, True)])) (docker_waitForHealthy h params cx)"
  "returns (has_type T_null) (docker_composeRunInit h params cx)" "returns (has_type T_null) (docker_composeStop h params cx)"
  "returns (has_type T_null) (docker_composeDown h params cx)" "returns (has_type T_null) (docker_assignContainer h params cx)"
  "returns (has_type T_number) (ports_get params cx)"
  unfolding docker_composeUp_def docker_waitForHealthy_def docker_composeRunInit_def docker_composeStop_def docker_composeDown_def
    docker_assignContainer_def ports_get_def Let_def
  by (auto intro!: returns_rules split: propval.split)

lemma push_replies:
  "returns (has_type T_null) (component_reportStatus resolve h params)" "returns (has_type T_null) (component_reportLog resolve h params)"
  "returns (has_type (T_fields [(''available'', T_bool, True), (''introducedIn'', T_string, False)])) (capability_query params)"
  "returns P (methodNotFound m)"
  unfolding component_reportStatus_def component_reportLog_def capability_query_def methodNotFound_def Let_def
  by (auto intro!: returns_rules split: propval.split)

lemma gated_reply: "map_of (gated_handlers h params) m = Some (c, body) \<Longrightarrow>
    \<exists>t. map_of reply_types m = Some t \<and> (\<forall>cx. returns (has_type t) (body cx))"
  unfolding gated_handlers_def reply_types_def
  using process_replies docker_replies by (auto simp del: has_type.simps split: if_splits)

lemma gated_returns: "(\<And>cx. returns P (body cx)) \<Longrightarrow> returns P (gated resolve m c params body)"
  unfolding gated_def by (intro returns_and_then)

text \<open>
  C26. A reply has the type its method declares: whatever the parameters and whatever the host answers,
  a call that returns a value is to a method of the contract, and the value has that method's shape.
\<close>

theorem replies_are_well_typed:
  "case registerBrokerHandlers resolve h m params of
     (es, Inl e) \<Rightarrow> True
   | (es, Inr v) \<Rightarrow> (case map_of reply_types m of None \<Rightarrow> False | Some t \<Rightarrow> has_type t v)"
proof -
  let ?ok = "\<lambda>v. case map_of reply_types m of None \<Rightarrow> False | Some t \<Rightarrow> has_type t v"
  have "returns ?ok (registerBrokerHandlers resolve h m params)"
  proof (cases rule: register_cases [of h params m resolve])
    case (privileged c body)
    from gated_reply [OF privileged(1)] obtain t where t: "map_of reply_types m = Some t" "\<And>cx. returns (has_type t) (body cx)" by blast
    from gated_returns [of "has_type t" body, OF t(2)] show ?thesis using privileged(2) t(1) by simp
  next
    case plain
    then show ?thesis unfolding registerBrokerHandlers_def
      using push_replies by (simp add: reply_types_def del: has_type.simps)
  qed
  then show ?thesis
    by (cases "registerBrokerHandlers resolve h m params") (simp add: returns_def del: has_type.simps split: sum.splits)
qed

end
