(* ===== verification/PermissionRules.thy ===== *)
theory PermissionRules
  imports Prelude "HOL-Library.Char_ord"
begin

section \<open>Permission rules of a project\<close>

text \<open>
  \<open>server/services/permission-rule-guard.ts\<close>, \<open>claude-settings-local.ts\<close>, the permission routes of
  \<open>server/routes/permissions.ts\<close>, their storage in \<open>state.ts\<close> and the harvest in \<open>bench-manager.ts\<close>.
  A rule is an opaque string to the host; the guard only looks for paths that leave the workspace.
  Rules are stored per project, injected into the settings file of a bench and harvested from it
  when the bench is cleared. The two regular expressions are written as scans of the string.
\<close>

subsection \<open>The guard\<close>

definition TOKEN_START :: "char list" where
  "TOKEN_START = ''(,;'' @ [dquote, squote] @ ''=[{|''"

definition starts_token :: "char \<Rightarrow> bool" where
  "starts_token c \<longleftrightarrow> is_ws c \<or> c \<in> set TOKEN_START"

definition is_sep :: "char \<Rightarrow> bool" where
  "is_sep c \<longleftrightarrow> c = CHR ''/'' \<or> c = CHR 0x5C"

text \<open>The characters that may follow a segment, besides the end of the rule.\<close>

definition ends_token :: "char \<Rightarrow> bool" where
  "ends_token c \<longleftrightarrow> is_ws c \<or> c \<in> set (''),;'' @ [dquote, squote] @ '']}|'')"

definition segment_ends :: "string \<Rightarrow> bool" where
  "segment_ends s = (case s of [] \<Rightarrow> True | c # _ \<Rightarrow> is_sep c \<or> ends_token c)"

text \<open>\<open>TRAVERSAL_SEGMENT\<close>; the flag says whether a segment may start here.\<close>

fun traverses :: "bool \<Rightarrow> string \<Rightarrow> bool" where
  "traverses fresh [] = False"
| "traverses fresh (c # s) =
     (fresh \<and> c = CHR ''.'' \<and> (case s of [] \<Rightarrow> False | d # t \<Rightarrow> d = CHR ''.'' \<and> segment_ends t)
      \<or> traverses (is_sep c \<or> c = CHR '':'' \<or> starts_token c) s)"

definition is_letter :: "char \<Rightarrow> bool" where
  "is_letter c \<longleftrightarrow> (CHR ''A'' \<le> c \<and> c \<le> CHR ''Z'') \<or> (CHR ''a'' \<le> c \<and> c \<le> CHR ''z'')"

definition root_here :: "string \<Rightarrow> bool" where
  "root_here s = (case s of [] \<Rightarrow> False
     | c # t \<Rightarrow> is_sep c \<or> c = CHR 0x7E
        \<or> is_letter c \<and> (case t of d # e # _ \<Rightarrow> d = CHR '':'' \<and> is_sep e | _ \<Rightarrow> False))"

text \<open>\<open>ABSOLUTE_ROOT\<close>; the flag says whether a token may start here.\<close>

fun names_root :: "bool \<Rightarrow> string \<Rightarrow> bool" where
  "names_root fresh [] = False"
| "names_root fresh (c # s) = (fresh \<and> root_here (c # s) \<or> names_root (starts_token c) s)"

datatype unsafe_reason = Traversal | Outside_root

definition describeUnsafeRule :: "string \<Rightarrow> unsafe_reason option" where
  "describeUnsafeRule rule =
     (if traverses True rule then Some Traversal else if names_root True rule then Some Outside_root else None)"

definition isSafeRule :: "string \<Rightarrow> bool" where
  "isSafeRule rule \<longleftrightarrow> describeUnsafeRule rule = None"

datatype agent_posture = Read_only | Guarded | Auto_edit | Full_auto

record project_permissions =
  allow :: "string list"
  deny :: "string list"
  ask :: "string list option"
  posture :: "agent_posture option"

text \<open>The first unsafe rule of the groups, with its group.\<close>

definition assertSafeRules :: "(string \<times> string list option) list \<Rightarrow> (string \<times> string) option" where
  "assertSafeRules groups =
     first_some (\<lambda>(g, rules). map_option (\<lambda>r. (g, r)) (find (\<lambda>r. \<not> isSafeRule r) (coalesce rules []))) groups"

definition filterSafeRules :: "project_permissions \<Rightarrow> project_permissions" where
  "filterSafeRules p = p\<lparr>allow := filter isSafeRule (allow p), ask := map_option (filter isSafeRule) (ask p)\<rparr>"

subsection \<open>Storage and routes\<close>

text \<open>The file of a project: absent or unreadable is \<open>None\<close>, and every group of it is optional.\<close>

record permissions_file =
  pf_allow :: "string list option"
  pf_deny :: "string list option"
  pf_ask :: "string list option"
  pf_posture :: "agent_posture option"

definition getProjectPermissions :: "permissions_file option \<Rightarrow> project_permissions" where
  "getProjectPermissions f = (case f of
       None \<Rightarrow> \<lparr>allow = [], deny = [], ask = Some [], posture = None\<rparr>
     | Some d \<Rightarrow> \<lparr>allow = coalesce (pf_allow d) [], deny = coalesce (pf_deny d) [], ask = Some (coalesce (pf_ask d) []),
         posture = pf_posture d\<rparr>)"

definition setProjectPermissions :: "project_permissions \<Rightarrow> permissions_file" where
  "setProjectPermissions p = \<lparr>pf_allow = Some (allow p), pf_deny = Some (deny p), pf_ask = ask p, pf_posture = posture p\<rparr>"

text \<open>The body of a request, as JSON: an absent group is \<open>None\<close>.\<close>

fun rule_strings :: "json list \<Rightarrow> string list option" where
  "rule_strings [] = Some []"
| "rule_strings (JStr s # vs) = (if length s \<le> 512 then map_option ((#) s) (rule_strings vs) else None)"
| "rule_strings (v # vs) = None"

definition isStringArray :: "json \<Rightarrow> string list option" where
  "isStringArray v = (case v of JArr vs \<Rightarrow> if length vs \<le> 100 then rule_strings vs else None | _ \<Rightarrow> None)"

definition body_group :: "json option \<Rightarrow> string list option option" where
  "body_group v = (case v of None \<Rightarrow> Some None | Some w \<Rightarrow> map_option Some (isStringArray w))"

definition AgentPostureSchema :: "(string \<times> agent_posture) list" where
  "AgentPostureSchema = [(''read-only'', Read_only), (''guarded'', Guarded), (''auto-edit'', Auto_edit), (''full-auto'', Full_auto)]"

definition body_posture :: "json option \<Rightarrow> agent_posture option option" where
  "body_posture v = (case v of None \<Rightarrow> Some None | Some JNull \<Rightarrow> Some None
     | Some (JStr s) \<Rightarrow> map_option Some (map_of AgentPostureSchema s) | Some _ \<Rightarrow> None)"

datatype put_error = Invalid_groups | Invalid_posture | Unsafe_rule string string

definition put_permissions :: "(string \<times> json) list \<Rightarrow> put_error + project_permissions" where
  "put_permissions body =
     (case (body_group (map_of body ''allow''), body_group (map_of body ''deny''), body_group (map_of body ''ask'')) of
        (Some a, Some d, Some q) \<Rightarrow>
          (case body_posture (map_of body ''posture'') of
             None \<Rightarrow> Inl Invalid_posture
           | Some p \<Rightarrow>
               (case assertSafeRules [(''allow'', a), (''ask'', q)] of
                  Some (g, r) \<Rightarrow> Inl (Unsafe_rule g r)
                | None \<Rightarrow> Inr \<lparr>allow = coalesce a [], deny = coalesce d [], ask = Some (coalesce q []), posture = p\<rparr>))
      | _ \<Rightarrow> Inl Invalid_groups)"

subsection \<open>The settings file of a workspace\<close>

text \<open>A \<open>Set\<close> holds one copy of a string, number, boolean or null, and every object as its own.\<close>

fun same_value :: "json \<Rightarrow> json \<Rightarrow> bool" where
  "same_value (JArr _) w = False"
| "same_value (JObj _) w = False"
| "same_value v w = (v = w)"

fun set_values :: "json list \<Rightarrow> json list \<Rightarrow> json list" where
  "set_values seen [] = []"
| "set_values seen (v # vs) = (if list_ex (same_value v) seen then set_values seen vs else v # set_values (v # seen) vs)"

definition existing_rules :: "(string \<times> json) list \<Rightarrow> string \<Rightarrow> json list" where
  "existing_rules perms k = (case map_of perms k of Some (JArr vs) \<Rightarrow> vs | _ \<Rightarrow> [])"

definition merge_group :: "(string \<times> json) list \<Rightarrow> string \<Rightarrow> string list \<Rightarrow> (string \<times> json) list \<Rightarrow> (string \<times> json) list" where
  "merge_group existing k rules perms =
     (let merged = set_values [] (existing_rules existing k @ map JStr rules)
      in if merged \<noteq> [] then jput k (JArr merged) perms else jdel k perms)"

definition readExistingSettings :: "json option \<Rightarrow> (string \<times> json) list" where
  "readExistingSettings parsed = (case parsed of Some (JObj m) \<Rightarrow> m | _ \<Rightarrow> [])"

definition extractExistingPerms :: "(string \<times> json) list \<Rightarrow> (string \<times> json) list" where
  "extractExistingPerms existing = (case map_of existing ''permissions'' of Some (JObj m) \<Rightarrow> m | _ \<Rightarrow> [])"

text \<open>What the file holds afterwards; \<open>None\<close> when nothing is written.\<close>

definition injectPermissions :: "json option \<Rightarrow> project_permissions \<Rightarrow> (string \<times> json) list option" where
  "injectPermissions file p =
     (if allow p = [] \<and> deny p = [] \<and> coalesce (ask p) [] = [] then None
      else
        let existing = readExistingSettings file; perms0 = extractExistingPerms existing;
            perms = merge_group perms0 ''ask'' (coalesce (ask p) []) (merge_group perms0 ''deny'' (deny p) (merge_group perms0 ''allow'' (allow p) perms0))
        in Some (if perms \<noteq> [] then jput ''permissions'' (JObj perms) existing else jdel ''permissions'' existing))"

definition extractStrings :: "json option \<Rightarrow> string list" where
  "extractStrings v = (case v of Some (JArr vs) \<Rightarrow> List.map_filter (\<lambda>w. case w of JStr s \<Rightarrow> Some s | _ \<Rightarrow> None) vs | _ \<Rightarrow> [])"

text \<open>The stored permissions after the harvest of a workspace; \<open>None\<close> when there was nothing to harvest.\<close>

definition extractWorkspacePermissions :: "json option \<Rightarrow> permissions_file option \<Rightarrow> permissions_file option" where
  "extractWorkspacePermissions file stored = (case file of
       Some (JObj m) \<Rightarrow> (case map_of m ''permissions'' of
           Some (JObj perms) \<Rightarrow>
             (let a = extractStrings (map_of perms ''allow''); d = extractStrings (map_of perms ''deny''); q = extractStrings (map_of perms ''ask'')
              in if a = [] \<and> d = [] \<and> q = [] then stored
                 else let p = getProjectPermissions stored in
                   Some (setProjectPermissions (filterSafeRules (p\<lparr>allow := dedupe (allow p @ a), deny := dedupe (deny p @ d),
                     ask := Some (dedupe (coalesce (ask p) [] @ q))\<rparr>))))
         | _ \<Rightarrow> stored)
     | _ \<Rightarrow> stored)"

subsection \<open>Paths a rule names\<close>

text \<open>
  What an agent may read as a path in a rule: a piece that starts at the front or after a token
  start, up to the next character that ends a token.
\<close>

fun tokens_from :: "bool \<Rightarrow> string \<Rightarrow> string list" where
  "tokens_from fresh [] = []"
| "tokens_from fresh (c # s) =
     (if fresh then [takeWhile (\<lambda>d. \<not> ends_token d) (c # s)] else []) @ tokens_from (starts_token c) s"

definition path_tokens :: "string \<Rightarrow> string list" where
  "path_tokens rule = tokens_from True rule"

definition segments_of :: "string \<Rightarrow> string list" where
  "segments_of t = split_on CHR ''/'' (map (\<lambda>c. if is_sep c then CHR ''/'' else c) t)"

text \<open>A walk from the workspace that steps above it.\<close>

fun climbs :: "nat \<Rightarrow> string list \<Rightarrow> bool" where
  "climbs n [] = False"
| "climbs n (s # ss) = (if s = ''..'' then n = 0 \<or> climbs (n - 1) ss
     else if s = [] \<or> s = ''.'' then climbs n ss else climbs (Suc n) ss)"

definition leaves_workspace :: "string \<Rightarrow> bool" where
  "leaves_workspace t \<longleftrightarrow> root_here t \<or> climbs 0 (segments_of t)"

definition stays_inside :: "string \<Rightarrow> bool" where
  "stays_inside rule \<longleftrightarrow> list_all (\<lambda>t. \<not> leaves_workspace t) (path_tokens rule)"

lemma climbs_up: "climbs n ss \<Longrightarrow> ''..'' \<in> set ss"
  by (induction n ss rule: climbs.induct) (auto split: if_splits)

lemma traverses_mono: "traverses False s \<Longrightarrow> traverses True s"
  by (cases s) auto

lemma segments_simps [simp]:
  "segments_of [] = [[]]"
  "segments_of (c # s) = (if is_sep c then [] # segments_of s else (c # hd (segments_of s)) # tl (segments_of s))"
  using split_on_nonempty [of "CHR ''/''" "map (\<lambda>c. if is_sep c then CHR ''/'' else c) s"]
  by (auto simp: segments_of_def is_sep_def split: list.split)

lemma segments_nonempty [simp]: "segments_of t \<noteq> []"
  by (simp add: segments_of_def)

abbreviation token_of :: "string \<Rightarrow> string" where "token_of s \<equiv> takeWhile (\<lambda>d. \<not> ends_token d) s"

lemma head_up: "hd (segments_of (token_of s)) = ''..'' \<Longrightarrow> traverses True s"
proof -
  assume h: "hd (segments_of (token_of s)) = ''..''"
  have dots: "\<not> ends_token CHR ''.''" "\<not> is_sep CHR ''.''" by code_simp+
  obtain c t where s: "s = c # t" using h by (cases s) auto
  with h obtain d u where t: "t = d # u" "c = CHR ''.''" by (cases t) (auto split: if_splits)
  with h s have d: "d = CHR ''.''" by (auto split: if_splits)
  then have e: "hd (segments_of (token_of u)) = []" using h s t dots by simp
  have "segment_ends u"
  proof (cases u)
    case (Cons x v)
    then show ?thesis using e by (auto simp: segment_ends_def split: if_splits)
  qed (simp add: segment_ends_def)
  then show ?thesis using s t d by simp
qed

lemma tail_up: "''..'' \<in> set (tl (segments_of (token_of s))) \<Longrightarrow> traverses f s"
proof (induction s arbitrary: f)
  case (Cons c s)
  have rest: "traverses g s" if "''..'' \<in> set (segments_of (token_of s))" "g" for g
    using that head_up [of s] Cons.IH [of True] by (cases "segments_of (token_of s)") auto
  from Cons.prems have ne: "\<not> ends_token c" by (auto split: if_splits)
  show ?case
  proof (cases "is_sep c")
    case True
    then show ?thesis using Cons.prems ne rest [of True] by simp
  next
    case False
    then show ?thesis using Cons.prems ne Cons.IH by simp
  qed
qed simp

lemma safe_segments: "\<not> traverses True s \<Longrightarrow> ''..'' \<notin> set (segments_of (token_of s))"
  using head_up [of s] tail_up [of s True] by (cases "segments_of (token_of s)") auto

lemma root_token: "root_here (token_of s) \<Longrightarrow> root_here s"
  by (cases s; cases "tl s"; cases "tl (tl s)") (auto simp: root_here_def split: if_splits list.splits)

lemma tokens_inside: "\<not> traverses f s \<Longrightarrow> \<not> names_root f s \<Longrightarrow> t \<in> set (tokens_from f s) \<Longrightarrow> \<not> leaves_workspace t"
proof (induction f s rule: tokens_from.induct)
  case (2 f c s)
  have rest: "\<not> traverses (starts_token c) s" using 2(2) traverses_mono [of s]
    by (cases "starts_token c"; cases "is_sep c \<or> c = CHR '':''") auto
  show ?case
  proof (cases "f \<and> t = token_of (c # s)")
    case True
    then have "\<not> root_here (c # s)" "\<not> traverses True (c # s)" using 2(2,3) by auto
    then show ?thesis using True root_token [of "c # s"] safe_segments [of "c # s"] climbs_up unfolding leaves_workspace_def by blast
  next
    case False
    then show ?thesis using 2 rest by (auto split: if_splits)
  qed
qed simp

lemma safe_rule_inside: "isSafeRule r \<Longrightarrow> stays_inside r"
  using tokens_inside [of True r]
  by (auto simp: isSafeRule_def describeUnsafeRule_def stays_inside_def path_tokens_def list_all_iff split: if_splits)

subsection \<open>Rules that are stored\<close>

lemma assertSafeRules_None: "assertSafeRules groups = None \<longleftrightarrow> (\<forall>(g, rules) \<in> set groups. list_all isSafeRule (coalesce rules []))"
proof -
  have "first_some (\<lambda>(g, rules). map_option (\<lambda>r. (g, r)) (find (\<lambda>r. \<not> isSafeRule r) (coalesce rules []))) groups = None
      \<longleftrightarrow> (\<forall>(g, rules) \<in> set groups. list_all isSafeRule (coalesce rules []))"
    by (induction groups) (auto simp: find_None_iff list_all_iff dest: find_SomeD split: option.split)
  then show ?thesis by (simp add: assertSafeRules_def)
qed

datatype permission_op = Put_rules "(string \<times> json) list" | Harvest_rules "json option"

fun permission_step :: "permission_op \<Rightarrow> permissions_file option \<Rightarrow> permissions_file option" where
  "permission_step (Put_rules body) stored = (case put_permissions body of Inl e \<Rightarrow> stored | Inr p \<Rightarrow> Some (setProjectPermissions p))"
| "permission_step (Harvest_rules file) stored = extractWorkspacePermissions file stored"

definition granting :: "project_permissions \<Rightarrow> string list" where
  "granting p = allow p @ coalesce (ask p) []"

definition stored_safe :: "permissions_file option \<Rightarrow> bool" where
  "stored_safe f \<longleftrightarrow> list_all isSafeRule (granting (getProjectPermissions f))"

lemma stored_safe_set: "list_all isSafeRule (granting p) \<Longrightarrow> stored_safe (Some (setProjectPermissions p))"
  by (simp add: stored_safe_def granting_def getProjectPermissions_def setProjectPermissions_def coalesce_def split: option.splits)

lemma filter_safe: "list_all isSafeRule (granting (filterSafeRules p))"
  by (auto simp: granting_def filterSafeRules_def list_all_iff coalesce_def split: option.split)

lemma put_safe: "put_permissions body = Inr p \<Longrightarrow> list_all isSafeRule (granting p)"
  by (auto simp: put_permissions_def granting_def assertSafeRules_None split: option.splits)

lemma step_safe: "stored_safe f \<Longrightarrow> stored_safe (permission_step op f)"
  by (cases op) (auto simp: extractWorkspacePermissions_def Let_def stored_safe_set filter_safe put_safe
      split: sum.split option.split json.split)


text \<open>Some shell paths are not seen: a redirection is no token start.\<close>

theorem redirections_are_safe_rules:
  "isSafeRule ''Bash(echo x >/etc/hosts)'' \<and> isSafeRule ''Bash(cat <../secret)''"
  by code_simp

subsection \<open>Rules in a workspace\<close>

lemma same_value_refl: "same_value v w \<Longrightarrow> v = w"
  by (cases v) auto

lemma set_values_set: "set (set_values seen vs) \<union> set seen = set vs \<union> set seen"
proof (induction seen vs rule: set_values.induct)
  case (2 seen v vs)
  have "v \<in> set seen" if "list_ex (same_value v) seen" using that same_value_refl by (auto simp: list_ex_iff)
  then show ?case using 2 by (auto split: if_splits)
qed simp

lemma set_values_all: "set (set_values [] vs) = set vs"
  using set_values_set [of "[]" vs] by simp

text \<open>Values that are not seen yet, and not twice among themselves, all stay.\<close>

lemma set_values_append: "set_values seen (vs @ ws) = set_values seen vs @ set_values (rev (set_values seen vs) @ seen) ws"
  by (induction seen vs rule: set_values.induct) simp_all

lemma set_values_seen: "list_all (\<lambda>v. list_ex (same_value v) seen) ws \<Longrightarrow> set_values seen ws = []"
  by (induction ws) simp_all

lemma set_values_idem: "set_values seen (set_values seen vs) = set_values seen vs"
  by (induction seen vs rule: set_values.induct) simp_all

lemma same_text [simp]: "same_value (JStr s) w \<longleftrightarrow> w = JStr s"
  by auto

lemma set_values_again: "set_values [] (set_values [] (vs @ map JStr rs) @ map JStr rs) = set_values [] (vs @ map JStr rs)"
proof -
  let ?m = "set_values [] (vs @ map JStr rs)"
  have "set ?m = set vs \<union> set (map JStr rs)" by (simp add: set_values_all)
  then have "set_values (rev ?m @ []) (map JStr rs) = []" by (intro set_values_seen) (auto simp: list_all_iff list_ex_iff)
  then show ?thesis by (simp add: set_values_append [of "[]" ?m] set_values_idem)
qed

lemma merged_rules: "existing_rules (merge_group e k rs m) k = set_values [] (existing_rules e k @ map JStr rs)"
  by (auto simp: merge_group_def Let_def existing_rules_def)

lemma merge_other: "k' \<noteq> k \<Longrightarrow> map_of (merge_group e k rs m) k' = map_of m k'"
  by (simp add: merge_group_def Let_def)

definition rule_groups :: "string list" where "rule_groups = [''allow'', ''deny'', ''ask'']"

definition group_rules :: "project_permissions \<Rightarrow> string \<Rightarrow> string list" where
  "group_rules p k = (if k = ''allow'' then allow p else if k = ''deny'' then deny p else if k = ''ask'' then coalesce (ask p) [] else [])"

definition merged_perms :: "(string \<times> json) list \<Rightarrow> project_permissions \<Rightarrow> (string \<times> json) list" where
  "merged_perms perms p = merge_group perms ''ask'' (coalesce (ask p) []) (merge_group perms ''deny'' (deny p) (merge_group perms ''allow'' (allow p) perms))"

lemma existing_cong: "map_of m k = map_of n k \<Longrightarrow> existing_rules m k = existing_rules n k"
  by (simp add: existing_rules_def)

lemma merged_group: "k \<in> set rule_groups \<Longrightarrow>
    existing_rules (merged_perms perms p) k = set_values [] (existing_rules perms k @ map JStr (group_rules p k))"
proof -
  have "existing_rules (merge_group e k' rs m) k = existing_rules m k" if "k' \<noteq> k" for e k' rs m
    using merge_other [of k k' e rs m] that by (intro existing_cong) simp
  then show "k \<in> set rule_groups \<Longrightarrow> ?thesis"
    by (auto simp: rule_groups_def merged_perms_def group_rules_def merged_rules)
qed

lemma merged_other: "k \<notin> set rule_groups \<Longrightarrow> map_of (merged_perms perms p) k = map_of perms k"
  by (simp add: rule_groups_def merged_perms_def merge_other)

lemma inject_writes: "injectPermissions file p = Some m \<Longrightarrow>
    m = (if merged_perms (extractExistingPerms (readExistingSettings file)) p \<noteq> []
         then jput ''permissions'' (JObj (merged_perms (extractExistingPerms (readExistingSettings file)) p)) (readExistingSettings file)
         else jdel ''permissions'' (readExistingSettings file))"
  by (auto simp: injectPermissions_def merged_perms_def Let_def split: if_splits)

lemma injected_perms: "injectPermissions file p = Some m \<Longrightarrow>
    extractExistingPerms m = merged_perms (extractExistingPerms (readExistingSettings file)) p"
  by (drule inject_writes) (auto simp: extractExistingPerms_def split: if_splits)

text \<open>
  Injecting rules into a workspace only adds: every other setting of the file is kept, every rule
  already there stays, and each group of the file then holds exactly those and the project's.
\<close>

theorem injection_only_adds:
  assumes "injectPermissions file p = Some m"
  shows "(k \<noteq> ''permissions'' \<longrightarrow> map_of m k = map_of (readExistingSettings file) k)
    \<and> (if k \<in> set rule_groups
       then set (existing_rules (extractExistingPerms m) k)
          = set (existing_rules (extractExistingPerms (readExistingSettings file)) k) \<union> JStr ` set (group_rules p k)
       else map_of (extractExistingPerms m) k = map_of (extractExistingPerms (readExistingSettings file)) k)"
proof
  show "k \<noteq> ''permissions'' \<longrightarrow> map_of m k = map_of (readExistingSettings file) k"
    using inject_writes [OF assms] by (simp split: if_splits)
  show "if k \<in> set rule_groups
       then set (existing_rules (extractExistingPerms m) k)
          = set (existing_rules (extractExistingPerms (readExistingSettings file)) k) \<union> JStr ` set (group_rules p k)
       else map_of (extractExistingPerms m) k = map_of (extractExistingPerms (readExistingSettings file)) k"
    by (simp add: injected_perms [OF assms] merged_group merged_other set_values_all)
qed

lemma jput_same: "map_of m k = Some v \<Longrightarrow> jput k v m = m"
  by (induction k v m rule: jput.induct) auto

lemma merge_at: "map_of (merge_group e k rs m) k = (let vs = set_values [] (existing_rules e k @ map JStr rs) in
    if vs = [] then None else Some (JArr vs))"
  by (simp add: merge_group_def Let_def)

lemma merge_again:
  assumes "map_of n k = map_of (merge_group e k rs m) k" and "existing_rules n k = set_values [] (existing_rules e k @ map JStr rs)"
    and "map_of x k = map_of n k"
  shows "merge_group n k rs x = x"
proof (cases "set_values [] (existing_rules e k @ map JStr rs) = []")
  case True
  then have "map_of x k = None" using assms(1,3) by (simp add: merge_group_def Let_def)
  then show ?thesis using True assms(2) set_values_again [of "existing_rules e k" rs] by (simp add: merge_group_def Let_def jdel_absent)
next
  case False
  then have "map_of x k = Some (JArr (set_values [] (existing_rules e k @ map JStr rs)))"
    using assms(1,3) by (simp add: merge_group_def Let_def)
  then show ?thesis using False assms(2) set_values_again [of "existing_rules e k" rs] by (simp add: merge_group_def Let_def jput_same)
qed

lemma merged_twice: "merged_perms (merged_perms perms p) p = merged_perms perms p"
proof -
  let ?n = "merged_perms perms p"
  have own: "map_of ?n k = map_of (merge_group perms k (group_rules p k) perms) k" if "k \<in> set rule_groups" for k
    using that by (auto simp: rule_groups_def merged_perms_def group_rules_def merge_other merge_at)
  have again: "merge_group ?n k (group_rules p k) ?n = ?n" if "k \<in> set rule_groups" for k
    by (rule merge_again [OF own [OF that] merged_group [OF that] refl])
  have "merged_perms ?n p = merge_group ?n ''ask'' (group_rules p ''ask'') (merge_group ?n ''deny'' (group_rules p ''deny'')
      (merge_group ?n ''allow'' (group_rules p ''allow'') ?n))" by (simp add: merged_perms_def group_rules_def)
  then show ?thesis using again by (simp add: rule_groups_def)
qed

text \<open>
  Injecting the same rules again changes nothing: a resync of an unchanged project leaves the file as it is.\<close>

theorem injection_is_idempotent:
  assumes "injectPermissions file p = Some m"
  shows "injectPermissions (Some (JObj m)) p = Some m"
proof -
  let ?perms = "merged_perms (extractExistingPerms (readExistingSettings file)) p"
  have some: "injectPermissions (Some (JObj m)) p = Some m'
      \<longleftrightarrow> m' = (if merged_perms (extractExistingPerms m) p \<noteq> [] then jput ''permissions'' (JObj (merged_perms (extractExistingPerms m) p)) m
           else jdel ''permissions'' m)" for m'
    using assms by (auto simp: injectPermissions_def merged_perms_def readExistingSettings_def Let_def split: if_splits)
  have twice: "merged_perms (extractExistingPerms m) p = ?perms" by (simp add: injected_perms [OF assms] merged_twice)
  have "map_of m ''permissions'' = (if ?perms \<noteq> [] then Some (JObj ?perms) else None)"
    by (subst inject_writes [OF assms]) simp
  then show ?thesis unfolding some twice by (simp add: jput_same jdel_absent split: if_splits)
qed

subsection \<open>Through a workspace and back\<close>

lemma set_values_texts: "distinct rs \<Longrightarrow> set_values [] (map JStr rs) = map JStr rs"
proof -
  have "distinct rs \<Longrightarrow> set seen \<inter> JStr ` set rs = {} \<Longrightarrow> set_values seen (map JStr rs) = map JStr rs" for seen
  proof (induction rs arbitrary: seen)
    case (Cons a rs)
    then have "set_values (JStr a # seen) (map JStr rs) = map JStr rs" by (intro Cons.IH) auto
    then show ?case using Cons.prems by (auto simp: list_ex_iff)
  qed simp
  then show "distinct rs \<Longrightarrow> ?thesis" by simp
qed

lemma extract_texts: "extractStrings (Some (JArr (map JStr rs))) = rs"
  by (induction rs) (simp_all add: extractStrings_def map_filter_def)

lemma extract_rules: "extractStrings (map_of m k) = extractStrings (Some (JArr (existing_rules m k)))"
  by (auto simp: extractStrings_def existing_rules_def map_filter_def split: option.split json.split)

definition clean_rules :: "project_permissions \<Rightarrow> bool" where
  "clean_rules p \<longleftrightarrow> list_all isSafeRule (granting p) \<and> distinct (allow p) \<and> distinct (deny p) \<and> (\<exists>q. ask p = Some q \<and> distinct q)"

text \<open>
  The rules of a project survive the trip through a workspace: injected into a bench without
  settings and harvested into an empty store when the bench is cleared, they come back as they were,
  but for the posture, which no settings file carries.
\<close>

theorem harvest_returns_the_rules:
  assumes "injectPermissions None p = Some m" and "clean_rules p"
  shows "extractWorkspacePermissions (Some (JObj m)) None = Some (setProjectPermissions (p\<lparr>posture := None\<rparr>))"
proof -
  let ?perms = "merged_perms [] p"
  obtain q where q: "ask p = Some q" "distinct q" "distinct (allow p)" "distinct (deny p)"
    and safe: "list_all isSafeRule (allow p)" "list_all isSafeRule q"
    using assms(2) by (auto simp: clean_rules_def granting_def)
  have some: "allow p \<noteq> [] \<or> deny p \<noteq> [] \<or> q \<noteq> []" using assms(1) q by (auto simp: injectPermissions_def split: if_splits)
  have "existing_rules [] k = []" for k by (simp add: existing_rules_def)
  then have "existing_rules ?perms k = map JStr (group_rules p k)" if "k \<in> set rule_groups" for k
    using merged_group [OF that, of "[]" p] q that by (auto simp: set_values_texts group_rules_def rule_groups_def)
  then have rules: "extractStrings (map_of ?perms k) = group_rules p k" if "k \<in> set rule_groups" for k
    using that by (simp only: extract_rules [of ?perms k] extract_texts)
  have "?perms \<noteq> []"
  proof
    assume none: "?perms = []"
    have "group_rules p k = []" if "k \<in> set rule_groups" for k using rules [OF that] none by (simp add: extractStrings_def)
    from this [of "''allow''"] this [of "''deny''"] this [of "''ask''"] show False
      using some q by (simp add: rule_groups_def group_rules_def)
  qed
  then have m: "map_of m ''permissions'' = Some (JObj ?perms)"
    using inject_writes [OF assms(1)] by (simp add: readExistingSettings_def extractExistingPerms_def)
  have "extractStrings (map_of ?perms ''allow'') = allow p" "extractStrings (map_of ?perms ''deny'') = deny p"
    "extractStrings (map_of ?perms ''ask'') = q" using rules q by (simp_all add: rule_groups_def group_rules_def)
  then have "extractWorkspacePermissions (Some (JObj m)) None = Some (setProjectPermissions (filterSafeRules
      \<lparr>allow = allow p, deny = deny p, ask = Some q, posture = None\<rparr>))"
    using some q m by (auto simp: extractWorkspacePermissions_def getProjectPermissions_def Let_def dedupe_id)
  moreover have "filterSafeRules \<lparr>allow = allow p, deny = deny p, ask = Some q, posture = None\<rparr> = p\<lparr>posture := None\<rparr>"
    using safe q by (simp add: filterSafeRules_def list_all_iff filter_id_conv)
  ultimately show ?thesis by simp
qed

definition sample_rules :: project_permissions where
  "sample_rules = \<lparr>allow = [''Read(./src)''], deny = [''Read(/etc)''], ask = Some [''Bash(make)''], posture = Some Guarded\<rparr>"

lemma sample_injected: "\<exists>m. injectPermissions None sample_rules = Some m"
  by (simp add: sample_rules_def injectPermissions_def Let_def)

lemma sample_clean: "clean_rules sample_rules"
  by (simp add: clean_rules_def granting_def sample_rules_def coalesce_def) code_simp

theorem injection_only_adds_witness:
  "\<exists>m. set (existing_rules (extractExistingPerms m) ''allow'') = {JStr ''Read(./src)''}"
proof -
  obtain m where m: "injectPermissions None sample_rules = Some m" using sample_injected by blast
  from injection_only_adds [OF m, of "''allow''"] show ?thesis
    by (auto simp: rule_groups_def group_rules_def sample_rules_def readExistingSettings_def extractExistingPerms_def existing_rules_def)
qed

theorem injection_is_idempotent_witness: "\<exists>m. injectPermissions (Some (JObj m)) sample_rules = Some m"
  using sample_injected injection_is_idempotent by blast

theorem harvest_returns_the_rules_witness:
  "\<exists>m. extractWorkspacePermissions (Some (JObj m)) None = Some (setProjectPermissions (sample_rules\<lparr>posture := None\<rparr>))"
  using sample_injected harvest_returns_the_rules [OF _ sample_clean] by blast

end
