(* ===== verification/IpRanges.thy ===== *)
theory IpRanges
  imports Prelude "HOL-Library.Word" "HOL-Library.Char_ord"
begin

unbundle bit_operations_syntax

section \<open>Address ranges of the guarded fetch\<close>

text \<open>
  The address part of \<open>server/services/guarded-fetch.ts\<close>: an IP literal is read into its octets and
  put into one of three classes. \<open>net.isIP\<close> has accepted the text before it gets here. Octets are
  bytes, \<open>8 word\<close>; the specification is the usual one, by network prefixes of the whole address.
\<close>

datatype host_kind = HARD | SOFT | PUBLIC | DNS

subsection \<open>IPv4\<close>

text \<open>\<open>Number\<close> on a run of decimal digits; anything else compares unequal to every number.\<close>

definition digit_of :: "char \<Rightarrow> nat option" where
  "digit_of c = (let n = (of_char c :: nat) in if 48 \<le> n \<and> n \<le> 57 then Some (n - 48) else None)"

definition push_digit :: "nat \<Rightarrow> char \<Rightarrow> nat option \<Rightarrow> nat option" where
  "push_digit base c acc = (case (acc, digit_of c) of (Some v, Some d) \<Rightarrow> Some (base * v + d) | _ \<Rightarrow> None)"

definition number_of :: "string \<Rightarrow> nat option" where
  "number_of s = (if s = [] then Some 0 else fold (push_digit 10) s (Some 0))"

definition octet :: "nat option list \<Rightarrow> nat \<Rightarrow> nat option" where
  "octet os i = (if i < length os then os ! i else None)"

definition classifyIPv4 :: "string \<Rightarrow> host_kind" where
  "classifyIPv4 ip =
     (let os = map number_of (split_on CHR ''.'' ip)
      in if octet os 0 = Some 169 \<and> octet os 1 = Some 254 then HARD
         else if octet os 0 = Some 127 then SOFT
         else if octet os 0 = Some 0 then SOFT
         else if octet os 0 = Some 10 then SOFT
         else if octet os 0 = Some 172 \<and> (case octet os 1 of None \<Rightarrow> False | Some n \<Rightarrow> 16 \<le> n \<and> n \<le> 31) then SOFT
         else if octet os 0 = Some 192 \<and> octet os 1 = Some 168 then SOFT
         else PUBLIC)"

definition dotted :: "8 word \<Rightarrow> 8 word \<Rightarrow> 8 word \<Rightarrow> 8 word \<Rightarrow> string" where
  "dotted a b c d = nat_str (unat a) @ ''.'' @ nat_str (unat b) @ ''.'' @ nat_str (unat c) @ ''.'' @ nat_str (unat d)"

subsection \<open>IPv6\<close>

definition hex_digit_of :: "char \<Rightarrow> nat option" where
  "hex_digit_of c = (let n = (of_char c :: nat) in
     if 48 \<le> n \<and> n \<le> 57 then Some (n - 48)
     else if 97 \<le> n \<and> n \<le> 102 then Some (n - 87)
     else if 65 \<le> n \<and> n \<le> 70 then Some (n - 55)
     else None)"

text \<open>\<open>parseInt(g, 16)\<close> reads digits up to the first other character; without one it is no number, which the bit operations read as 0.\<close>

fun parse_hex :: "nat \<Rightarrow> string \<Rightarrow> nat" where
  "parse_hex v [] = v"
| "parse_hex v (c # s) = (case hex_digit_of c of None \<Rightarrow> v | Some d \<Rightarrow> parse_hex (16 * v + d) s)"

definition parse_groups :: "string \<Rightarrow> string list" where
  "parse_groups s = (if s = [] then [] else split_on CHR '':'' s)"

definition group_bytes :: "string \<Rightarrow> 8 word list" where
  "group_bytes g = (let v = parse_hex 0 g in [word_of_nat (v div 256), word_of_nat v])"

fun expand_last :: "string list \<Rightarrow> 8 word list" where
  "expand_last [] = []"
| "expand_last [g] = (if CHR ''.'' \<in> set g then map (\<lambda>part. word_of_nat (coalesce (number_of part) 0)) (split_on CHR ''.'' g)
     else group_bytes g)"
| "expand_last (g # gs) = group_bytes g @ expand_last gs"

text \<open>The text before and after the first double colon.\<close>

fun cut_double :: "string \<Rightarrow> string \<times> string option" where
  "cut_double [] = ([], None)"
| "cut_double [c] = ([c], None)"
| "cut_double (c # d # s) = (if c = CHR '':'' \<and> d = CHR '':'' then ([], Some s)
     else case cut_double (d # s) of (h, t) \<Rightarrow> (c # h, t))"

definition ipv6ToBytes :: "string \<Rightarrow> 8 word list" where
  "ipv6ToBytes addr =
     (case cut_double addr of (head, tail) \<Rightarrow>
        let headBytes = expand_last (parse_groups head); tailBytes = expand_last (parse_groups (coalesce tail []));
            missing = 16 - int (length headBytes) - int (length tailBytes)
        in take 16 (headBytes @ replicate (nat missing) 0 @ tailBytes))"

definition bytes_dotted :: "8 word list \<Rightarrow> string" where
  "bytes_dotted b = dotted (b ! 12) (b ! 13) (b ! 14) (b ! 15)"

definition classify_bytes :: "8 word list \<Rightarrow> host_kind" where
  "classify_bytes b =
     (if list_all (\<lambda>x. x = 0) (take 15 b) \<and> b ! 15 = 1 then SOFT
      else if b ! 0 = 0xfe \<and> b ! 1 AND 0xc0 = 0x80 then HARD
      else if b ! 0 AND 0xfe = 0xfc then SOFT
      else if list_all (\<lambda>x. x = 0) (take 10 b) \<and> b ! 10 = 0xff \<and> b ! 11 = 0xff then classifyIPv4 (bytes_dotted b)
      else if list_all (\<lambda>x. x = 0) b then SOFT
      else PUBLIC)"

definition classifyIPv6 :: "string \<Rightarrow> host_kind" where
  "classifyIPv6 ip = classify_bytes (ipv6ToBytes ip)"

subsection \<open>The ranges\<close>

text \<open>An address as one number, most significant byte first, and its membership in a network of \<open>n\<close> bits.\<close>

definition address :: "8 word list \<Rightarrow> nat" where
  "address bs = fold (\<lambda>b v. 256 * v + unat b) bs 0"

definition in_network :: "nat \<Rightarrow> 8 word list \<Rightarrow> nat \<Rightarrow> 8 word list \<Rightarrow> bool" where
  "in_network width net n bs \<longleftrightarrow> address bs div 2 ^ (width - n) = address net div 2 ^ (width - n)"

definition range4 :: "8 word list \<Rightarrow> host_kind" where
  "range4 bs =
     (if in_network 32 [169, 254, 0, 0] 16 bs then HARD
      else if in_network 32 [127, 0, 0, 0] 8 bs \<or> in_network 32 [0, 0, 0, 0] 8 bs \<or> in_network 32 [10, 0, 0, 0] 8 bs
         \<or> in_network 32 [172, 16, 0, 0] 12 bs \<or> in_network 32 [192, 168, 0, 0] 16 bs then SOFT
      else PUBLIC)"

definition net6 :: "8 word list \<Rightarrow> 8 word list" where
  "net6 bs = bs @ replicate (16 - length bs) 0"

definition range6 :: "8 word list \<Rightarrow> host_kind" where
  "range6 bs =
     (if in_network 128 (net6 [0xfe, 0x80]) 10 bs then HARD
      else if in_network 128 (net6 [0xfc]) 7 bs \<or> in_network 128 (replicate 15 0 @ [1]) 128 bs
         \<or> in_network 128 (net6 []) 128 bs then SOFT
      else if in_network 128 (net6 (replicate 10 0 @ [0xff, 0xff])) 96 bs then range4 (drop 12 bs)
      else PUBLIC)"

lemma address_bound: "address bs < 256 ^ length bs"
proof (induction bs rule: rev_induct)
  case (snoc b bs)
  have "256 * address bs + unat b < 256 * address bs + 256" using unsigned_less [of b] by simp
  also have "\<dots> \<le> 256 * 256 ^ length bs" using snoc.IH by (simp flip: mult_Suc_right)
  finally show ?case by (simp add: address_def)
qed (simp add: address_def)

lemma address_append: "address (xs @ ys) = address xs * 256 ^ length ys + address ys"
proof (induction ys rule: rev_induct)
  case (snoc y ys)
  have "address (xs @ ys @ [y]) = 256 * address (xs @ ys) + unat y" by (simp add: address_def)
  also have "\<dots> = address xs * 256 ^ length (ys @ [y]) + (256 * address ys + unat y)" by (simp add: snoc.IH algebra_simps)
  finally show ?case by (simp add: address_def)
qed (simp add: address_def)

lemma address_div: "address (xs @ ys) div 256 ^ length ys = address xs"
  using address_bound [of ys] by (simp add: address_append)

subsection \<open>Decimal octets\<close>

lemma digit_of_digit: "d < 10 \<Longrightarrow> digit_of (digit_char d) = Some d"
  by (simp add: digit_of_def digit_char_def Let_def)

lemma number_run: "fold (push_digit 10) (nat_str n) (Some 0) = Some n"
proof (induction n rule: nat_str.induct)
  case (1 n)
  show ?case
  proof (cases "n < 10")
    case True
    then show ?thesis by (simp add: nat_str.simps push_digit_def digit_of_digit)
  next
    case False
    then have "nat_str n = nat_str (n div 10) @ [digit_char (n mod 10)]" by (subst nat_str.simps) simp
    then show ?thesis using 1 [OF False] by (simp add: push_digit_def digit_of_digit)
  qed
qed

lemma number_nat: "number_of (nat_str n) = Some n"
  by (simp add: number_of_def number_run)

lemma digits_only: "c \<in> set (nat_str n) \<Longrightarrow> digit_of c \<noteq> None"
proof (induction n rule: nat_str.induct)
  case (1 n)
  show ?case
  proof (cases "n < 10")
    case True
    then show ?thesis using 1(2) by (simp add: nat_str.simps digit_of_digit)
  next
    case False
    then have "nat_str n = nat_str (n div 10) @ [digit_char (n mod 10)]" by (subst nat_str.simps) simp
    then show ?thesis using 1 False by (auto simp: digit_of_digit)
  qed
qed

lemma no_dot: "CHR ''.'' \<notin> set (nat_str n)"
  using digits_only [of "CHR ''.''" n] by (auto simp: digit_of_def Let_def)

lemma split_dotted: "split_on CHR ''.'' (dotted a b c d) = map (\<lambda>x. nat_str (unat x)) [a, b, c, d]"
  using split_join [of "map (\<lambda>x. nat_str (unat x)) [a, b, c, d]" "CHR ''.''"] no_dot by (simp add: dotted_def)

lemma octets_dotted: "map number_of (split_on CHR ''.'' (dotted a b c d)) = map (\<lambda>x. Some (unat x)) [a, b, c, d]"
  by (simp add: split_dotted number_nat)

lemma address4: "address [a, b, c, d] = ((unat a * 256 + unat b) * 256 + unat c) * 256 + unat d"
  by (simp add: address_def)

lemma prefixes4:
  "address [a, b, c, d] div 2 ^ 24 = unat a" "address [a, b, c, d] div 2 ^ 20 = 16 * unat a + unat b div 16"
  "address [a, b, c, d] div 2 ^ 16 = 256 * unat a + unat b" for a b c d :: "8 word"
proof -
  have lt: "unat a < 256" "unat b < 256" "unat c < 256" "unat d < 256"
    using unsigned_less [of a] unsigned_less [of b] unsigned_less [of c] unsigned_less [of d] by simp_all
  show "address [a, b, c, d] div 2 ^ 24 = unat a" unfolding address4 using lt by simp
  show "address [a, b, c, d] div 2 ^ 20 = 16 * unat a + unat b div 16" unfolding address4 using lt by simp
  show "address [a, b, c, d] div 2 ^ 16 = 256 * unat a + unat b" unfolding address4 using lt by simp
qed

lemma unat_num: "unat (169 :: 8 word) = 169" "unat (254 :: 8 word) = 254" "unat (127 :: 8 word) = 127" "unat (10 :: 8 word) = 10"
  "unat (172 :: 8 word) = 172" "unat (16 :: 8 word) = 16" "unat (192 :: 8 word) = 192" "unat (168 :: 8 word) = 168"
  by simp_all

lemma high_low: "b < m \<Longrightarrow> e < m \<Longrightarrow> a * m + b = d * m + e \<longleftrightarrow> a = d \<and> b = e" for a b d e m :: nat
  by (metis div_mult_self3 mod_mult_self3 add_cancel_right_left div_less mod_less mult.commute neq0_conv not_less_zero add.commute)

lemma classify4: "classifyIPv4 (dotted a b c d) = range4 [a, b, c, d]"
proof -
  have lt: "unat a < 256" "unat b < 256" using unsigned_less [of a] unsigned_less [of b] by simp_all
  have byte: "256 * unat a + unat b = 256 * m + n \<longleftrightarrow> unat a = m \<and> unat b = n" if "n < 256" for m n
    using high_low [OF lt(2) that, of "unat a" m] by (simp add: mult.commute)
  have half: "16 * unat a + unat b div 16 = 16 * m + n \<longleftrightarrow> unat a = m \<and> unat b div 16 = n" if "n < 16" for m n
    using high_low [of "unat b div 16" 16 n "unat a" m] lt that by (simp add: mult.commute)
  have "in_network 32 [169, 254, 0, 0] 16 [a, b, c, d] \<longleftrightarrow> unat a = 169 \<and> unat b = 254"
    using byte [of 254 169] by (simp add: in_network_def prefixes4 [simplified] unat_num)
  moreover have "in_network 32 [127, 0, 0, 0] 8 [a, b, c, d] \<longleftrightarrow> unat a = 127" by (simp add: in_network_def prefixes4 [simplified] unat_num)
  moreover have "in_network 32 [0, 0, 0, 0] 8 [a, b, c, d] \<longleftrightarrow> unat a = 0" by (simp add: in_network_def prefixes4 [simplified])
  moreover have "in_network 32 [10, 0, 0, 0] 8 [a, b, c, d] \<longleftrightarrow> unat a = 10" by (simp add: in_network_def prefixes4 [simplified] unat_num)
  moreover have "in_network 32 [172, 16, 0, 0] 12 [a, b, c, d] \<longleftrightarrow> unat a = 172 \<and> 16 \<le> unat b \<and> unat b \<le> 31"
    using half [of 1 172] by (auto simp: in_network_def prefixes4 [simplified] unat_num)
  moreover have "in_network 32 [192, 168, 0, 0] 16 [a, b, c, d] \<longleftrightarrow> unat a = 192 \<and> unat b = 168"
    using byte [of 168 192] by (simp add: in_network_def prefixes4 [simplified] unat_num)
  ultimately show ?thesis by (simp add: classifyIPv4_def octets_dotted octet_def Let_def range4_def)
qed

subsection \<open>Networks of IPv6 addresses\<close>

lemma address_eq: "length xs = length ys \<Longrightarrow> address xs = address ys \<longleftrightarrow> xs = ys"
proof (induction xs arbitrary: ys rule: rev_induct)
  case (snoc x xs)
  then obtain y zs where ys: "ys = zs @ [y]" "length xs = length zs" by (metis length_append_singleton rev_exhaust length_0_conv nat.distinct(1) nat.inject)
  have "unat x < 256" "unat y < 256" using unsigned_less [of x] unsigned_less [of y] by simp_all
  then have "address xs * 256 + unat x = address zs * 256 + unat y \<longleftrightarrow> address xs = address zs \<and> unat x = unat y"
    by (rule high_low)
  then show ?case using snoc.IH [OF ys(2)] ys(1) by (simp add: address_def mult.commute unsigned_word_eqI word_unat_eq_iff)
qed simp

lemma address_prefix:
  assumes "k \<le> length bs"
  shows "address bs div 2 ^ (8 * (length bs - k)) = address (take k bs)"
  using address_div [of "take k bs" "drop k bs"] by (simp add: power_mult)

lemma whole_bytes:
  assumes "length bs = 16" "length net = 16" "k \<le> 16"
  shows "in_network 128 net (8 * k) bs \<longleftrightarrow> take k bs = take k net"
proof -
  have "128 - 8 * k = 8 * (16 - k)" by simp
  then show ?thesis using address_prefix [of k bs] address_prefix [of k net] assms
    by (simp add: in_network_def address_eq)
qed

lemma byte_masks:
  "x AND 0xc0 = 0x80 \<longleftrightarrow> unat x div 64 = 2" "x AND 0xfe = 0xfc \<longleftrightarrow> unat x div 2 = 126" for x :: "8 word"
proof -
  have all: "list_all (\<lambda>n. (word_of_nat n AND 0xc0 = (0x80 :: 8 word) \<longleftrightarrow> n div 64 = 2)
      \<and> (word_of_nat n AND 0xfe = (0xfc :: 8 word) \<longleftrightarrow> n div 2 = 126)) [0..<256]" by code_simp
  have "unat x \<in> set [0..<256]" using unsigned_less [of x] by (simp only: set_upt) simp
  from bspec [OF all [unfolded list_all_iff] this]
  show "x AND 0xc0 = 0x80 \<longleftrightarrow> unat x div 64 = 2" "x AND 0xfe = 0xfc \<longleftrightarrow> unat x div 2 = 126" by (simp_all only: of_nat_unat ucast_id)
qed

lemma first_bytes:
  assumes "length bs = 16"
  shows "take 1 bs = [bs ! 0]" "take 2 bs = [bs ! 0, bs ! 1]"
  using assms by (simp_all add: take_Suc_conv_app_nth numeral_2_eq_2)

lemma split_byte:
  assumes "length bs = 16" "length net = 16"
  shows "in_network 128 net 10 bs \<longleftrightarrow> bs ! 0 = net ! 0 \<and> unat (bs ! 1) div 64 = unat (net ! 1) div 64"
    "in_network 128 net 7 bs \<longleftrightarrow> unat (bs ! 0) div 2 = unat (net ! 0) div 2"
proof -
  have "address cs div 2 ^ 118 = 4 * unat (cs ! 0) + unat (cs ! 1) div 64" if "length cs = 16" for cs :: "8 word list"
  proof -
    have "address cs div 2 ^ 118 = address cs div (2 ^ 112 * 2 ^ 6)" by (simp flip: power_add)
    also have "\<dots> = address (take 2 cs) div 2 ^ 6" using address_prefix [of 2 cs] that by (simp add: div_mult2_eq)
    also have "\<dots> = (256 * unat (cs ! 0) + unat (cs ! 1)) div 64" using first_bytes [OF that] by (simp add: address_def)
    finally show ?thesis by simp
  qed
  moreover have "unat (cs ! 1) div 64 < 4" for cs :: "8 word list"
  proof -
    have "unat (cs ! 1) < 256" using unsigned_less [of "cs ! 1"] by simp
    then show ?thesis by simp
  qed
  ultimately show "in_network 128 net 10 bs \<longleftrightarrow> bs ! 0 = net ! 0 \<and> unat (bs ! 1) div 64 = unat (net ! 1) div 64"
    using assms high_low [of "unat (bs ! 1) div 64" 4 "unat (net ! 1) div 64" "unat (bs ! 0)" "unat (net ! 0)"]
    by (simp add: in_network_def mult.commute word_unat_eq_iff)
  have "address cs div 2 ^ 121 = unat (cs ! 0) div 2" if "length cs = 16" for cs :: "8 word list"
  proof -
    have "address cs div 2 ^ 121 = address cs div (2 ^ 120 * 2)" by simp
    also have "\<dots> = address (take 1 cs) div 2" using address_prefix [of 1 cs] that by (simp only: div_mult2_eq) simp
    finally show ?thesis using first_bytes [OF that] by (simp add: address_def)
  qed
  then show "in_network 128 net 7 bs \<longleftrightarrow> unat (bs ! 0) div 2 = unat (net ! 0) div 2" using assms by (simp add: in_network_def)
qed

lemma all_zero: "list_all (\<lambda>x. x = 0) xs \<longleftrightarrow> xs = replicate (length xs) 0"
  by (induction xs) auto

lemma classify6:
  assumes "length bs = 16"
  shows "classify_bytes bs = range6 bs"
proof -
  have len: "length (net6 cs) = 16" if "length cs \<le> 16" for cs using that by (simp add: net6_def)
  have "in_network 128 (net6 [0xfe, 0x80]) 10 bs \<longleftrightarrow> bs ! 0 = 0xfe \<and> bs ! 1 AND 0xc0 = 0x80"
    using split_byte(1) [OF assms len, of "[0xfe, 0x80]"] by (simp add: net6_def byte_masks)
  moreover have "in_network 128 (net6 [0xfc]) 7 bs \<longleftrightarrow> bs ! 0 AND 0xfe = 0xfc"
    using split_byte(2) [OF assms len, of "[0xfc]"] by (simp add: net6_def byte_masks)
  moreover have "in_network 128 (replicate 15 0 @ [1]) 128 bs \<longleftrightarrow> list_all (\<lambda>x. x = 0) (take 15 bs) \<and> bs ! 15 = 1"
  proof -
    have "bs = take 15 bs @ [bs ! 15]" using assms by (simp flip: take_Suc_conv_app_nth)
    then have "bs = replicate 15 0 @ [1] \<longleftrightarrow> take 15 bs = replicate 15 0 \<and> bs ! 15 = 1" by (metis append1_eq_conv)
    then show ?thesis using whole_bytes [OF assms, of "replicate 15 0 @ [1]" 16] assms by (simp add: all_zero)
  qed
  moreover have "in_network 128 (net6 []) 128 bs \<longleftrightarrow> list_all (\<lambda>x. x = 0) bs"
    using whole_bytes [OF assms len, of "[]" 16] assms by (simp add: all_zero net6_def)
  moreover have "in_network 128 (net6 (replicate 10 0 @ [0xff, 0xff])) 96 bs
      \<longleftrightarrow> list_all (\<lambda>x. x = 0) (take 10 bs) \<and> bs ! 10 = 0xff \<and> bs ! 11 = 0xff"
  proof -
    have "take 12 bs = take 10 bs @ [bs ! 10, bs ! 11]"
      using assms take_Suc_conv_app_nth [of 10 bs] take_Suc_conv_app_nth [of 11 bs] by simp
    then show ?thesis using whole_bytes [OF assms len, of "replicate 10 0 @ [0xff, 0xff]" 12] assms
      by (simp add: all_zero net6_def)
  qed
  moreover have "drop 12 bs = [bs ! 12, bs ! 13, bs ! 14, bs ! 15]"
    using assms by (auto simp: list_eq_iff_nth_eq less_Suc_eq_0_disj numeral_eq_Suc)
  moreover have "bs ! 0 = 0" "bs ! 10 = 0" if "list_all (\<lambda>x. x = 0) (take 15 bs)"
    using that assms by (auto simp: list_all_length dest: spec [of _ 0] spec [of _ 10])
  moreover have "list_all (\<lambda>x. x = 0) (take 15 bs)" if "list_all (\<lambda>x. x = 0) bs"
    using that by (auto simp: list_all_iff dest: in_set_takeD)
  ultimately show ?thesis
    by (auto simp: classify_bytes_def range6_def bytes_dotted_def classify4)
qed

end
