(* ===== verification/AddressText.thy ===== *)
theory AddressText
  imports IpRanges
begin

unbundle bit_operations_syntax

section \<open>Address literals\<close>

text \<open>
  \<open>net.isIP\<close> of Node's library, as \<open>server/services/guarded-fetch.ts\<close> uses it: 4 and 6 for the texts
  the grammars of IPv4 and IPv6 accept, else 0. Then the ways an address can be spelled, and that
  every spelling is read back and put into the class of the address it stands for.
\<close>

definition is_v4 :: "string \<Rightarrow> bool" where
  "is_v4 s \<longleftrightarrow> length (split_on CHR ''.'' s) = 4
     \<and> list_all (\<lambda>p. case number_of p of None \<Rightarrow> False | Some n \<Rightarrow> n \<le> 255 \<and> p = nat_str n) (split_on CHR ''.'' s)"

definition is_group :: "string \<Rightarrow> bool" where
  "is_group g \<longleftrightarrow> g \<noteq> [] \<and> length g \<le> 4 \<and> list_all (\<lambda>c. hex_digit_of c \<noteq> None) g"

text \<open>How many groups the pieces stand for; only the last may be an IPv4 address, which stands for two.\<close>

fun groups_in :: "string list \<Rightarrow> nat option" where
  "groups_in [] = Some 0"
| "groups_in [g] = (if is_group g then Some 1 else if is_v4 g then Some 2 else None)"
| "groups_in (g # gs) = (if is_group g then map_option Suc (groups_in gs) else None)"

definition zone_char :: "char \<Rightarrow> bool" where
  "zone_char c = (let n = (of_char c :: nat) in 48 \<le> n \<and> n \<le> 57 \<or> 65 \<le> n \<and> n \<le> 90 \<or> 97 \<le> n \<and> n \<le> 122 \<or> c \<in> set ''-.:'')"

definition is_v6 :: "string \<Rightarrow> bool" where
  "is_v6 s = (let zone = dropWhile (\<lambda>c. c \<noteq> CHR ''%'') s in
     (zone = [] \<or> tl zone \<noteq> [] \<and> list_all zone_char (tl zone))
     \<and> (case cut_double (takeWhile (\<lambda>c. c \<noteq> CHR ''%'') s) of
          (h, None) \<Rightarrow> groups_in (parse_groups h) = Some 8
        | (h, Some t) \<Rightarrow> list_all is_group (parse_groups h)
            \<and> (case groups_in (parse_groups t) of None \<Rightarrow> False | Some n \<Rightarrow> length (parse_groups h) + n \<le> 7)))"

definition isIP :: "string \<Rightarrow> nat" where
  "isIP s = (if is_v4 s then 4 else if is_v6 s then 6 else 0)"

definition classifyIpLiteral :: "string \<Rightarrow> host_kind" where
  "classifyIpLiteral ip = (if isIP ip = 4 then classifyIPv4 ip else if isIP ip = 6 then classifyIPv6 ip else PUBLIC)"

subsection \<open>Spellings\<close>

definition hex_char :: "nat \<Rightarrow> char" where
  "hex_char d = (if d < 10 then char_of (48 + d) else char_of (87 + d))"

fun hex_str :: "nat \<Rightarrow> string" where
  "hex_str n = (if n < 16 then [hex_char n] else hex_str (n div 16) @ [hex_char (n mod 16)])"

declare hex_str.simps [simp del]

type_synonym quad = "8 word \<times> 8 word \<times> 8 word \<times> 8 word"

text \<open>Groups in hexadecimal, and at the end perhaps four octets in decimal.\<close>

definition pieces :: "16 word list \<Rightarrow> quad option \<Rightarrow> string list" where
  "pieces gs q = map (\<lambda>g. hex_str (unat g)) gs @ (case q of None \<Rightarrow> [] | Some (a, b, c, d) \<Rightarrow> [dotted a b c d])"

definition piece_bytes :: "16 word list \<Rightarrow> quad option \<Rightarrow> 8 word list" where
  "piece_bytes gs q = concat (map (\<lambda>g. [word_of_nat (unat g div 256), word_of_nat (unat g)]) gs)
     @ (case q of None \<Rightarrow> [] | Some (a, b, c, d) \<Rightarrow> [a, b, c, d])"

text \<open>An IPv4 address, an IPv6 address in full, or one with its zero groups in the middle cut out.\<close>

datatype spelling = Quad quad | Full "16 word list" "quad option" | Cut "16 word list" "16 word list" "quad option"

fun spell :: "spelling \<Rightarrow> string" where
  "spell (Quad (a, b, c, d)) = dotted a b c d"
| "spell (Full gs q) = join_with '':'' (pieces gs q)"
| "spell (Cut gs hs q) = join_with '':'' (pieces gs None) @ ''::'' @ join_with '':'' (pieces hs q)"

fun spelled_bytes :: "spelling \<Rightarrow> 8 word list" where
  "spelled_bytes (Quad (a, b, c, d)) = [a, b, c, d]"
| "spelled_bytes (Full gs q) = piece_bytes gs q"
| "spelled_bytes (Cut gs hs q) = piece_bytes gs None
     @ replicate (16 - length (piece_bytes gs None) - length (piece_bytes hs q)) 0 @ piece_bytes hs q"

fun spellable :: "spelling \<Rightarrow> bool" where
  "spellable (Quad q) = True"
| "spellable (Full gs q) = (length (piece_bytes gs q) = 16)"
| "spellable (Cut gs hs q) = (length (piece_bytes gs None) + length (piece_bytes hs q) \<le> 14)"

definition range_of :: "8 word list \<Rightarrow> host_kind" where
  "range_of bs = (if length bs = 4 then range4 bs else range6 bs)"

subsection \<open>Hexadecimal groups\<close>

lemma hex_digit_of_char: "d < 16 \<Longrightarrow> hex_digit_of (hex_char d) = Some d"
  by (auto simp: hex_digit_of_def hex_char_def Let_def)

lemma hex_str_small: "n < 16 \<Longrightarrow> hex_str n = [hex_char n]"
  by (simp add: hex_str.simps)

lemma hex_str_large: "\<not> n < 16 \<Longrightarrow> hex_str n = hex_str (n div 16) @ [hex_char (n mod 16)]"
  by (simp add: hex_str.simps [of n])

lemma hex_digits: "c \<in> set (hex_str n) \<Longrightarrow> hex_digit_of c \<noteq> None"
proof (induction n rule: hex_str.induct)
  case (1 n)
  show ?case
  proof (cases "n < 16")
    case True
    then show ?thesis using 1(2) by (simp add: hex_str_small hex_digit_of_char)
  next
    case False
    then show ?thesis using 1 by (auto simp: hex_str_large hex_digit_of_char)
  qed
qed

lemma parse_hex_fold:
  "\<forall>c \<in> set s. hex_digit_of c \<noteq> None \<Longrightarrow> parse_hex v s = fold (\<lambda>c v. 16 * v + the (hex_digit_of c)) s v"
  by (induction s arbitrary: v) (auto split: option.split)

lemma parse_hex_str: "parse_hex 0 (hex_str n) = n"
proof -
  have "fold (\<lambda>c v. 16 * v + the (hex_digit_of c)) (hex_str n) 0 = n"
  proof (induction n rule: hex_str.induct)
    case (1 n)
    show ?case
    proof (cases "n < 16")
      case False
      then show ?thesis using 1 [OF False] by (simp add: hex_str_large hex_digit_of_char)
    qed (simp add: hex_str_small hex_digit_of_char)
  qed
  then show ?thesis using parse_hex_fold [of "hex_str n" 0] hex_digits by metis
qed

lemma hex_str_length: "n < 16 ^ k \<Longrightarrow> 0 < k \<Longrightarrow> length (hex_str n) \<le> k"
proof (induction k arbitrary: n)
  case (Suc k)
  show ?case
  proof (cases "n < 16")
    case True
    then show ?thesis by (simp add: hex_str_small)
  next
    case False
    then have "k \<noteq> 0" using Suc.prems by (cases k) auto
    moreover have "n div 16 < 16 ^ k" using Suc.prems by (simp add: less_mult_imp_div_less mult.commute)
    ultimately have "length (hex_str (n div 16)) \<le> k" using Suc.IH by simp
    then show ?thesis using False by (simp add: hex_str_large)
  qed
qed simp

lemma hex_str_nonempty [simp]: "hex_str n \<noteq> []"
  by (cases "n < 16") (simp_all add: hex_str_small hex_str_large)

lemma hex_str_nonempty' [simp]: "[] \<noteq> hex_str n"
  using hex_str_nonempty by metis

lemma group_spelled: "is_group (hex_str (unat g))" for g :: "16 word"
  using hex_str_length [of "unat g" 4] hex_digits [of _ "unat g"] unsigned_less [of g] by (auto simp: is_group_def list_all_iff)

subsection \<open>Every spelling is read back\<close>

lemma digits_are_hex: "digit_of c \<noteq> None \<Longrightarrow> hex_digit_of c \<noteq> None"
  by (auto simp: digit_of_def hex_digit_of_def Let_def split: if_splits)

lemma dotted_chars: "x \<in> set (dotted a b c d) \<Longrightarrow> hex_digit_of x \<noteq> None \<or> x = CHR ''.''"
  using digits_only digits_are_hex by (auto simp: dotted_def)

lemma piece_chars: "p \<in> set (pieces gs q) \<Longrightarrow> x \<in> set p \<Longrightarrow> hex_digit_of x \<noteq> None \<or> x = CHR ''.''"
  by (auto simp: pieces_def split: option.splits dest: hex_digits dotted_chars)

lemma no_digit: "hex_digit_of CHR '':'' = None" "hex_digit_of CHR ''%'' = None" "hex_digit_of CHR ''.'' = None"
  by (simp_all add: hex_digit_of_def)

lemma pieces_plain: "\<forall>p \<in> set (pieces gs q). p \<noteq> [] \<and> CHR '':'' \<notin> set p"
proof
  fix p assume p: "p \<in> set (pieces gs q)"
  then have "p \<noteq> []" by (auto simp: pieces_def dotted_def split: option.splits)
  then show "p \<noteq> [] \<and> CHR '':'' \<notin> set p" using piece_chars [OF p, of "CHR '':''"] no_digit by auto
qed

lemma cut_word: "CHR '':'' \<notin> set w \<Longrightarrow> cut_double (w @ s) = (w @ fst (cut_double s), snd (cut_double s))"
proof (induction w)
  case (Cons c w)
  show ?case
  proof (cases "w @ s")
    case (Cons d t)
    then show ?thesis using Cons.IH Cons.prems by (auto split: prod.splits)
  qed auto
qed simp

lemma cut_join:
  "ws \<noteq> [] \<Longrightarrow> \<forall>w \<in> set ws. w \<noteq> [] \<and> CHR '':'' \<notin> set w \<Longrightarrow>
     cut_double (join_with '':'' ws @ s) = (join_with '':'' ws @ fst (cut_double s), snd (cut_double s))"
proof (induction "'':''" ws rule: join_with.induct)
  case (3 x y xs)
  obtain d r where r: "join_with '':'' (y # xs) @ s = d # r" "d \<noteq> CHR '':''"
    using 3(3) by (cases y; cases xs) auto
  then have "cut_double (CHR '':'' # d # r) = (CHR '':'' # fst (cut_double (d # r)), snd (cut_double (d # r)))"
    by (simp split: prod.splits)
  with r(1) 3 show ?case using cut_word [of x "CHR '':'' # d # r"] by simp
qed (auto simp: cut_word)

lemma groups_of_pieces: "parse_groups (join_with '':'' (pieces gs q)) = pieces gs q"
proof (cases "pieces gs q")
  case (Cons p ps)
  then have "join_with '':'' (pieces gs q) \<noteq> []" using pieces_plain [of gs q] by (cases ps) auto
  then show ?thesis using split_join [of "pieces gs q" "CHR '':''"] pieces_plain [of gs q] Cons by (auto simp: parse_groups_def)
qed (simp add: parse_groups_def)

lemma dotted_v4: "is_v4 (dotted a b c d)"
proof -
  have "unat x < 256" for x :: "8 word" using unsigned_less [of x] by simp
  then have "unat x \<le> 255" for x :: "8 word" using less_Suc_eq_le [of "unat x" 255] by simp
  then show ?thesis by (simp add: is_v4_def split_dotted number_nat)
qed

lemma dotted_no_group: "\<not> is_group (dotted a b c d)"
  using no_digit by (auto simp: is_group_def list_all_iff dotted_def)

lemma pieces_simps: "pieces [] None = []" "pieces [] (Some (a, b, c, d)) = [dotted a b c d]"
  "pieces (g # gs) q = hex_str (unat g) # pieces gs q"
  by (simp_all add: pieces_def)

lemma groups_in_pieces: "groups_in (pieces gs q) = Some (length gs + (if q = None then 0 else 2))"
proof (induction gs)
  case Nil
  show ?case by (cases q) (auto simp: pieces_simps dotted_v4 dotted_no_group)
next
  case (Cons g gs)
  then show ?case by (cases "pieces gs q") (auto simp: pieces_simps group_spelled split: if_splits)
qed

lemma piece_bytes_simps: "piece_bytes [] None = []" "piece_bytes [] (Some (a, b, c, d)) = [a, b, c, d]"
  "piece_bytes (g # gs) q = word_of_nat (unat g div 256) # word_of_nat (unat g) # piece_bytes gs q"
  by (simp_all add: piece_bytes_def)

lemma piece_bytes_length: "length (piece_bytes gs q) = 2 * length gs + (if q = None then 0 else 4)"
  by (induction gs) (cases q; auto simp: piece_bytes_simps)+

lemma group_no_dot: "CHR ''.'' \<notin> set (hex_str n)"
  using hex_digits [of "CHR ''.''" n] no_digit by auto

lemma expand_pieces: "expand_last (pieces gs q) = piece_bytes gs q"
proof (induction gs)
  case Nil
  have "CHR ''.'' \<in> set (dotted a b c d)" for a b c d by (simp add: dotted_def)
  then show ?case by (cases q) (auto simp: pieces_simps piece_bytes_simps split_dotted number_nat coalesce_def)
next
  case (Cons g gs)
  then show ?case
    by (cases "pieces gs q") (auto simp: pieces_simps piece_bytes_simps group_no_dot group_bytes_def parse_hex_str Let_def)
qed

lemma spelled_chars: "x \<in> set (join_with '':'' (pieces gs q)) \<Longrightarrow> hex_digit_of x \<noteq> None \<or> x \<in> set ''.:''"
proof -
  have join: "x \<in> set (join_with '':'' ws) \<Longrightarrow> x = CHR '':'' \<or> (\<exists>w \<in> set ws. x \<in> set w)" for ws
    by (induction "'':''" ws rule: join_with.induct) auto
  assume "x \<in> set (join_with '':'' (pieces gs q))"
  from join [OF this] show ?thesis using piece_chars by auto
qed

lemma no_zone: "dropWhile (\<lambda>c. c \<noteq> CHR ''%'') s = []" "takeWhile (\<lambda>c. c \<noteq> CHR ''%'') s = s"
  if "\<forall>x \<in> set s. hex_digit_of x \<noteq> None \<or> x \<in> set ''.:''" for s
proof -
  have "CHR ''%'' \<notin> set s" using that no_digit by force
  then show "dropWhile (\<lambda>c. c \<noteq> CHR ''%'') s = []" "takeWhile (\<lambda>c. c \<noteq> CHR ''%'') s = s"
    by (auto simp: takeWhile_eq_all_conv)
qed

lemma v4_no_colon: "is_v4 s \<Longrightarrow> CHR '':'' \<notin> set s"
proof
  assume v4: "is_v4 s" and "CHR '':'' \<in> set s"
  then have "CHR '':'' \<in> set (join_with '':'' [join_with ''.'' (split_on CHR ''.'' s)])" by (simp add: join_split)
  moreover have "x \<in> set (join_with ''.'' ws) \<Longrightarrow> x = CHR ''.'' \<or> (\<exists>w \<in> set ws. x \<in> set w)" for x ws
    by (induction "''.''" ws rule: join_with.induct) auto
  ultimately obtain w where "w \<in> set (split_on CHR ''.'' s)" "CHR '':'' \<in> set w" by fastforce
  with v4 obtain n where "CHR '':'' \<in> set (nat_str n)" by (fastforce simp: is_v4_def list_all_iff split: option.splits)
  from digits_only [OF this] show False by (simp add: digit_of_def)
qed

lemma join_colon: "2 \<le> length ws \<Longrightarrow> CHR '':'' \<in> set (join_with '':'' ws)"
  by (cases ws; cases "tl ws") auto

lemma full_read:
  assumes "spellable (Full gs q)"
  shows "isIP (spell (Full gs q)) = 6" "ipv6ToBytes (spell (Full gs q)) = piece_bytes gs q"
proof -
  let ?s = "join_with '':'' (pieces gs q)"
  have n: "2 * length gs + (if q = None then 0 else 4) = 16" using assms by (simp add: piece_bytes_length)
  then have some: "pieces gs q \<noteq> []" "2 \<le> length (pieces gs q)" by (auto simp: pieces_def split: if_splits option.splits)
  have cut: "cut_double ?s = (?s, None)" using cut_join [OF some(1) pieces_plain, of "[]"] by simp
  have "groups_in (pieces gs q) = Some 8" using n by (auto simp: groups_in_pieces split: if_splits)
  with cut have "is_v6 ?s" using spelled_chars by (simp add: is_v6_def no_zone groups_of_pieces)
  moreover have "\<not> is_v4 ?s" using v4_no_colon join_colon [OF some(2)] by blast
  ultimately show "isIP (spell (Full gs q)) = 6" by (simp add: isIP_def)
  show "ipv6ToBytes (spell (Full gs q)) = piece_bytes gs q"
    using n groups_of_pieces [of "[]" None] groups_of_pieces [of gs q]
    by (simp add: ipv6ToBytes_def cut expand_pieces coalesce_def Let_def piece_bytes_length pieces_simps(1))
qed

lemma cut_read:
  assumes "spellable (Cut gs hs q)"
  shows "isIP (spell (Cut gs hs q)) = 6" "ipv6ToBytes (spell (Cut gs hs q)) = spelled_bytes (Cut gs hs q)"
proof -
  let ?h = "join_with '':'' (pieces gs None)" and ?t = "join_with '':'' (pieces hs q)"
  have n: "2 * length gs + 2 * length hs + (if q = None then 0 else 4) \<le> 14" using assms by (simp add: piece_bytes_length)
  have cut: "cut_double (?h @ ''::'' @ ?t) = (?h, Some ?t)"
  proof (cases "pieces gs None = []")
    case False
    from cut_join [OF this pieces_plain, of "''::'' @ ?t"] show ?thesis by simp
  qed simp
  have chars: "\<forall>x \<in> set (?h @ ''::'' @ ?t). hex_digit_of x \<noteq> None \<or> x \<in> set ''.:''" using spelled_chars by fastforce
  have "length (pieces gs None) = length gs" "list_all is_group (pieces gs None)"
    by (auto simp: pieces_def list_all_iff group_spelled)
  then have "is_v6 (?h @ ''::'' @ ?t)" using n unfolding is_v6_def no_zone [OF chars] cut
    by (simp add: groups_of_pieces groups_in_pieces split: if_splits)
  moreover have "\<not> is_v4 (?h @ ''::'' @ ?t)" using v4_no_colon by force
  ultimately show "isIP (spell (Cut gs hs q)) = 6" by (simp add: isIP_def)
  show "ipv6ToBytes (spell (Cut gs hs q)) = spelled_bytes (Cut gs hs q)"
  proof -
    have gap: "nat (16 - int a - int b) = 16 - a - b" for a b by linarith
    show ?thesis using n unfolding ipv6ToBytes_def spell.simps cut prod.case option.case coalesce_def Let_def groups_of_pieces expand_pieces gap
      by (simp add: piece_bytes_length)
  qed
qed

lemma class_of_cut:
  assumes "spellable (Cut gs hs q)"
  shows "classifyIpLiteral (spell (Cut gs hs q)) = range_of (spelled_bytes (Cut gs hs q))"
proof -
  have "length (spelled_bytes (Cut gs hs q)) = 16" using assms by (simp add: piece_bytes_length)
  then show ?thesis using cut_read [of gs hs q] assms
    by (simp add: classifyIpLiteral_def classifyIPv6_def classify6 range_of_def del: spell.simps spelled_bytes.simps)
qed


lemma shift_bytes: "((*) (256 :: nat) ^^ n) x = 256 ^ n * x"
  by (induction n) simp_all


text \<open>
  An IPv4 address embedded any other way than by mapping is public, the metadata address too: as
  \<open>::169.254.169.254\<close>, or behind the NAT64 prefix as \<open>64:ff9b::a9fe:a9fe\<close>.
\<close>

lemma embedded_metadata_is_public:
  "classifyIpLiteral (spell (Cut [] [] (Some (169, 254, 169, 254)))) = PUBLIC"
  "classifyIpLiteral (spell (Cut [0x64, 0xff9b] [0xa9fe, 0xa9fe] None)) = PUBLIC"
proof -
  have "range_of (spelled_bytes (Cut [] [] (Some (169, 254, 169, 254)))) = PUBLIC"
    "range_of (spelled_bytes (Cut [0x64, 0xff9b] [0xa9fe, 0xa9fe] None)) = PUBLIC"
    by (simp_all add: range_of_def range6_def range4_def in_network_def address_def net6_def piece_bytes_def shift_bytes)
  then show "classifyIpLiteral (spell (Cut [] [] (Some (169, 254, 169, 254)))) = PUBLIC"
    "classifyIpLiteral (spell (Cut [0x64, 0xff9b] [0xa9fe, 0xa9fe] None)) = PUBLIC"
    by (simp_all add: class_of_cut piece_bytes_length del: spell.simps spelled_bytes.simps)
qed

end
