(* ===== verification/GuardedFetch.thy ===== *)
theory GuardedFetch
  imports AddressText Flow
begin

section \<open>The guarded fetch\<close>

text \<open>
  The rest of \<open>server/services/guarded-fetch.ts\<close>, through which catalogs and plugin artifacts are
  downloaded. The URL parser, the name resolver and the transport are the record \<open>fetch_env\<close>, the
  last two by the number of the hop. A run is the requests it sent and the look-ups it made, in order.
\<close>

record parsed_url =
  u_protocol :: string
  u_hostname :: string
  u_origin :: string

record request =
  rq_url :: string
  rq_headers :: "string jmap"
  rq_timeout :: "int option"
  rq_pinned :: "string list"

record response =
  rs_status :: int
  rs_location :: "string option"

record fetch_env =
  fe_parse :: "string \<Rightarrow> parsed_url option"
  fe_join :: "string \<Rightarrow> string \<Rightarrow> string option"
  fe_lookup :: "int \<Rightarrow> string \<Rightarrow> string list option"
  fe_answer :: "int \<Rightarrow> request \<Rightarrow> string + response"

datatype fetch_event = Looked_up string | Requested request | Discarded

datatype fetch_error = Blocked string string "string option" | Transport string | Invalid_url

type_synonym 'a fetch_flow = "(fetch_event, fetch_error, 'a) action"

text \<open>A time-out left out is \<open>None\<close>, and \<open>null\<close> is \<open>Some None\<close>.\<close>

record fetch_options =
  sourceOrigin :: string
  credential :: "string option"
  accept :: "string option"
  opt_allowHttp :: "bool option"
  opt_maxHops :: "int option"
  opt_timeoutMs :: "int option option"

definition REDIRECT_STATUSES :: "int list" where "REDIRECT_STATUSES = [301, 302, 303, 307, 308]"

definition RECOGNISED_AUTH_PREFIXES :: "string list" where
  "RECOGNISED_AUTH_PREFIXES = [''Bearer '', ''Basic '', ''token '']"

definition DEFAULT_TIMEOUT_MS :: int where "DEFAULT_TIMEOUT_MS = 5000"
definition DEFAULT_MAX_HOPS :: int where "DEFAULT_MAX_HOPS = 5"

subsection \<open>Classifying and validating\<close>

definition stripBrackets :: "string \<Rightarrow> string" where
  "stripBrackets h = (if starts_with ''['' h \<and> ends_with '']'' h then butlast (tl h) else h)"

record host_classification =
  hc_kind :: host_kind
  hc_ipVersion :: nat
  hc_host :: string

definition classifyHost :: "parsed_url \<Rightarrow> host_classification" where
  "classifyHost url =
     (let host = stripBrackets (u_hostname url); v = isIP host
      in if v = 4 then \<lparr>hc_kind = classifyIPv4 host, hc_ipVersion = 4, hc_host = host\<rparr>
         else if v = 6 then \<lparr>hc_kind = classifyIPv6 host, hc_ipVersion = 6, hc_host = host\<rparr>
         else \<lparr>hc_kind = DNS, hc_ipVersion = 0, hc_host = host\<rparr>)"

record scope_policy =
  allowHttp :: bool
  allowedOrigins :: "string list"

record url_base =
  classification :: host_kind
  base_scheme :: string
  base_host :: string
  base_origin :: string

text \<open>The spread of \<open>base\<close> into a verdict is there or left out as a whole; two verdicts have the scheme only.\<close>

record url_verdict =
  vd_ok :: bool
  vd_reason :: string
  vd_scheme :: "string option"
  vd_base :: "url_base option"

definition verdict_on :: "bool \<Rightarrow> string \<Rightarrow> url_base \<Rightarrow> url_verdict" where
  "verdict_on ok reason b = \<lparr>vd_ok = ok, vd_reason = reason, vd_scheme = Some (base_scheme b), vd_base = Some b\<rparr>"

definition validateSourceUrl :: "(string \<Rightarrow> parsed_url option) \<Rightarrow> string \<Rightarrow> scope_policy \<Rightarrow> int \<Rightarrow> url_verdict" where
  "validateSourceUrl parse rawUrl policy hop =
     (case parse rawUrl of
        None \<Rightarrow> \<lparr>vd_ok = False, vd_reason = ''unparseable-url'', vd_scheme = None, vd_base = None\<rparr>
      | Some url \<Rightarrow>
          if u_protocol url \<noteq> ''https:'' \<and> u_protocol url \<noteq> ''http:''
          then \<lparr>vd_ok = False, vd_reason = ''scheme-not-allowed'', vd_scheme = Some (u_protocol url), vd_base = None\<rparr>
          else if u_protocol url = ''http:'' \<and> \<not> allowHttp policy
          then \<lparr>vd_ok = False, vd_reason = ''http-not-permitted'', vd_scheme = Some (u_protocol url), vd_base = None\<rparr>
          else let hc = classifyHost url; kind = hc_kind hc; origin = u_origin url;
                   consented = (origin \<in> set (allowedOrigins policy));
                   base = \<lparr>classification = kind, base_scheme = u_protocol url, base_host = hc_host hc, base_origin = origin\<rparr>
               in if kind = HARD then verdict_on False ''hard-blocked-range'' base
                  else if kind = SOFT
                  then (if consented then verdict_on True ''soft-range-consented-origin'' base
                        else verdict_on False ''soft-blocked-range-unconsented'' base)
                  else if hop = 0
                  then (if consented then verdict_on True ''consented-origin'' base
                        else verdict_on False ''origin-not-consented'' base)
                  else verdict_on True ''public-redirect-target'' base)"

definition isRedirect :: "int \<Rightarrow> bool" where
  "isRedirect status \<longleftrightarrow> status \<in> set REDIRECT_STATUSES"

definition formAuthorization :: "string option \<Rightarrow> string option" where
  "formAuthorization cred =
     (case cred of
        None \<Rightarrow> None
      | Some c \<Rightarrow>
          if trim c = [] then None
          else if list_ex (\<lambda>p. starts_with p c) RECOGNISED_AUTH_PREFIXES then Some c
          else Some (''Bearer '' @ c))"

subsection \<open>Resolving a name\<close>

definition check_address :: "bool \<Rightarrow> string \<Rightarrow> string \<Rightarrow> string \<Rightarrow> unit fetch_flow" where
  "check_address consented host url ip =
     (let kind = classifyIpLiteral ip
      in if kind = HARD
         then raise (Blocked ''hard-blocked-range-resolved''
           (host @ '' resolves to a link-local / cloud-metadata address ('' @ ip @ ''); blocked'') (Some url))
         else if kind = SOFT \<and> \<not> consented
         then raise (Blocked ''soft-blocked-range-resolved-unconsented''
           (host @ '' resolves to a private / loopback address ('' @ ip @ '') and is not a consented origin; blocked'') (Some url))
         else pass ())"

definition recheckResolvedAddresses ::
    "host_kind \<Rightarrow> string \<Rightarrow> bool \<Rightarrow> (string \<Rightarrow> string list option) \<Rightarrow> string \<Rightarrow> string list fetch_flow" where
  "recheckResolvedAddresses kind host consented lookup url =
     (if kind \<noteq> DNS then pass []
      else and_then (act [Looked_up host]) (\<lambda>_.
        case lookup host of
          None \<Rightarrow> pass []
        | Some addresses \<Rightarrow> and_then (each_of (check_address consented host url) addresses) (\<lambda>_. pass addresses)))"

datatype lookup_answer = All_records "(string \<times> nat) list" | One_record string nat | Lookup_error

text \<open>What the socket is told; the options ask for every record or for one.\<close>

definition buildPinnedLookup :: "string list \<Rightarrow> bool \<Rightarrow> lookup_answer" where
  "buildPinnedLookup addresses every =
     (let records = map (\<lambda>a. (a, isIP a)) addresses
      in if every then All_records records
         else case records of [] \<Rightarrow> Lookup_error | (a, f) # _ \<Rightarrow> One_record a f)"

subsection \<open>The loop over redirects\<close>

definition policy_of :: "fetch_options \<Rightarrow> scope_policy" where
  "policy_of opts = \<lparr>allowHttp = coalesce (opt_allowHttp opts) False, allowedOrigins = [sourceOrigin opts]\<rparr>"

definition max_hops :: "fetch_options \<Rightarrow> int" where
  "max_hops opts = coalesce (opt_maxHops opts) DEFAULT_MAX_HOPS"

definition timeout_of :: "fetch_options \<Rightarrow> int option" where
  "timeout_of opts =
     (case (case opt_timeoutMs opts of None \<Rightarrow> Some DEFAULT_TIMEOUT_MS | Some t \<Rightarrow> t) of
        Some t \<Rightarrow> (if t > 0 then Some t else None)
      | None \<Rightarrow> None)"

definition request_headers :: "fetch_options \<Rightarrow> bool \<Rightarrow> bool \<Rightarrow> string jmap" where
  "request_headers opts home left =
     (case formAuthorization (credential opts) of
        Some v \<Rightarrow> (if home \<and> \<not> left then [(''authorization'', v)] else [])
      | None \<Rightarrow> [])
     @ (case accept opts of None \<Rightarrow> [] | Some a \<Rightarrow> [(''accept'', a)])"

text \<open>One turn of the loop up to the answer: the latch as it is then, and the response.\<close>

definition request_at :: "fetch_env \<Rightarrow> fetch_options \<Rightarrow> int \<Rightarrow> string \<Rightarrow> bool \<Rightarrow> (bool \<times> response) fetch_flow" where
  "request_at env opts hop cur left =
     (let verdict = validateSourceUrl (fe_parse env) cur (policy_of opts) hop in
      if \<not> vd_ok verdict
      then raise (Blocked (vd_reason verdict) (''guarded-fetch blocked '' @ cur @ '': '' @ vd_reason verdict) (Some cur))
      else
        let home = (map_option base_origin (vd_base verdict) = Some (sourceOrigin opts)); left' = (left \<or> \<not> home);
            origin = (case vd_base verdict of None \<Rightarrow> [] | Some b \<Rightarrow> base_origin b);
            kind = (case vd_base verdict of None \<Rightarrow> DNS | Some b \<Rightarrow> classification b);
            host = (case vd_base verdict of None \<Rightarrow> [] | Some b \<Rightarrow> base_host b)
        in and_then (recheckResolvedAddresses kind host (origin \<in> set (allowedOrigins (policy_of opts))) (fe_lookup env hop) cur)
             (\<lambda>pinned.
                let rq = \<lparr>rq_url = cur, rq_headers = request_headers opts home left', rq_timeout = timeout_of opts, rq_pinned = pinned\<rparr>
                in and_then (ask (Requested rq) (case fe_answer env hop rq of Inl e \<Rightarrow> Inl (Transport e) | Inr res \<Rightarrow> Inr res))
                     (\<lambda>res. pass (left', res))))"

definition redirect_target :: "response \<Rightarrow> string option" where
  "redirect_target res = (if isRedirect (rs_status res) then rs_location res else None)"

function hops :: "fetch_env \<Rightarrow> fetch_options \<Rightarrow> int \<Rightarrow> string \<Rightarrow> bool \<Rightarrow> response fetch_flow" where
  "hops env opts hop cur left =
     (case request_at env opts hop cur left of
        (es, Inl e) \<Rightarrow> (es, Inl e)
      | (es, Inr (left', res)) \<Rightarrow>
          (case redirect_target res of
             None \<Rightarrow> (es, Inr res)
           | Some location \<Rightarrow>
               if hop + 1 > max_hops opts
               then (es @ [Discarded], Inl (Blocked ''too-many-redirects''
                 (''guarded-fetch exceeded the '' @ int_str (max_hops opts) @ ''-hop redirect cap'') (Some cur)))
               else (case fe_join env location cur of
                       None \<Rightarrow> (es @ [Discarded], Inl Invalid_url)
                     | Some target \<Rightarrow>
                         (case hops env opts (hop + 1) target left' of (es', r) \<Rightarrow> (es @ Discarded # es', r)))))"
  by pat_completeness auto
termination by (relation "measure (\<lambda>(env, opts, hop, cur, left). nat (max_hops opts - hop))") auto

declare hops.simps [simp del]

definition guardedFetch :: "fetch_env \<Rightarrow> string \<Rightarrow> fetch_options \<Rightarrow> response fetch_flow" where
  "guardedFetch env url opts = hops env opts 0 url False"

subsection \<open>What is sent where\<close>

fun requests :: "fetch_event list \<Rightarrow> request list" where
  "requests [] = []"
| "requests (Requested rq # es) = rq # requests es"
| "requests (Looked_up h # es) = requests es"
| "requests (Discarded # es) = requests es"

lemma requests_append [simp]: "requests (xs @ ys) = requests xs @ requests ys"
  by (induction xs rule: requests.induct) simp_all

definition at_source :: "fetch_env \<Rightarrow> fetch_options \<Rightarrow> request \<Rightarrow> bool" where
  "at_source env opts rq = (case fe_parse env (rq_url rq) of None \<Rightarrow> False | Some u \<Rightarrow> u_origin u = sourceOrigin opts)"

definition reachable :: "host_kind \<Rightarrow> bool \<Rightarrow> bool" where
  "reachable kind home \<longleftrightarrow> kind \<noteq> HARD \<and> (kind = SOFT \<longrightarrow> home)"

text \<open>A request the policy allows: its scheme, its host, and every address the socket may connect to.\<close>

definition permitted :: "fetch_env \<Rightarrow> fetch_options \<Rightarrow> request \<Rightarrow> bool" where
  "permitted env opts rq =
     (case fe_parse env (rq_url rq) of
        None \<Rightarrow> False
      | Some u \<Rightarrow>
          (u_protocol u = ''https:'' \<or> u_protocol u = ''http:'' \<and> opt_allowHttp opts = Some True)
          \<and> reachable (hc_kind (classifyHost u)) (at_source env opts rq)
          \<and> list_all (\<lambda>a. reachable (classifyIpLiteral a) (at_source env opts rq)) (rq_pinned rq))"

definition carried :: "fetch_options \<Rightarrow> bool \<Rightarrow> request \<Rightarrow> bool" where
  "carried opts home rq \<longleftrightarrow> map_of (rq_headers rq) ''authorization'' = (if home then formAuthorization (credential opts) else None)"

text \<open>A run of requests, the flag saying whether all before it went to the source.\<close>

fun guarded :: "fetch_env \<Rightarrow> fetch_options \<Rightarrow> bool \<Rightarrow> request list \<Rightarrow> bool" where
  "guarded env opts home [] = True"
| "guarded env opts home (rq # rqs) =
     (permitted env opts rq \<and> carried opts (home \<and> at_source env opts rq) rq \<and> guarded env opts (home \<and> at_source env opts rq) rqs)"

lemma guarded_append: "guarded env opts home (xs @ ys) \<longleftrightarrow>
    guarded env opts home xs \<and> guarded env opts (home \<and> list_all (at_source env opts) xs) ys"
  by (induction xs arbitrary: home) (auto simp: conj_assoc)

lemma check_one: "\<exists>e. check_address consented host url a = ([], if reachable (classifyIpLiteral a) consented then Inr () else Inl e)"
  by (auto simp: check_address_def reachable_def Let_def flow_defs)

lemma addresses_checked:
  "each_of (check_address consented host url) addresses = (es, r) \<Longrightarrow>
     es = [] \<and> (r = Inr () \<longrightarrow> list_all (\<lambda>a. reachable (classifyIpLiteral a) consented) addresses)"
proof (induction addresses arbitrary: es r)
  case (Cons a as)
  obtain es' r' where rest: "each_of (check_address consented host url) as = (es', r')" by fastforce
  obtain e where one: "check_address consented host url a = ([], if reachable (classifyIpLiteral a) consented then Inr () else Inl e)"
    using check_one by blast
  from Cons.IH [OF rest] Cons.prems rest one show ?case by (auto simp: and_then_def split: if_splits)
qed (auto simp: flow_defs)

lemma recheck_results:
  assumes "recheckResolvedAddresses kind host consented lookup url = (es, r)"
  shows "requests es = []" and "r = Inr pinned \<Longrightarrow> list_all (\<lambda>a. reachable (classifyIpLiteral a) consented) pinned"
proof -
  have each: "each_of (check_address consented host url) as = ([], Inr ()) \<and> list_all (\<lambda>a. reachable (classifyIpLiteral a) consented) as
      \<or> (\<exists>e. each_of (check_address consented host url) as = ([], Inl e))" for as
    using addresses_checked [of consented host url as] by (cases "each_of (check_address consented host url) as"; cases "snd (each_of (check_address consented host url) as)") auto
  show "requests es = []"
    using assms each [of "the (lookup host)"] by (auto simp: recheckResolvedAddresses_def flow_defs split: if_splits option.splits)
  show "r = Inr pinned \<Longrightarrow> list_all (\<lambda>a. reachable (classifyIpLiteral a) consented) pinned"
    using assms each [of "the (lookup host)"] by (auto simp: recheckResolvedAddresses_def flow_defs split: if_splits option.splits)
qed

lemma valid_url:
  assumes "vd_ok (validateSourceUrl parse raw policy hop)"
  obtains u where "parse raw = Some u" "u_protocol u = ''https:'' \<or> u_protocol u = ''http:'' \<and> allowHttp policy"
    "reachable (hc_kind (classifyHost u)) (u_origin u \<in> set (allowedOrigins policy))" "hop = 0 \<Longrightarrow> u_origin u \<in> set (allowedOrigins policy)"
    "vd_base (validateSourceUrl parse raw policy hop) = Some \<lparr>classification = hc_kind (classifyHost u), base_scheme = u_protocol u,
       base_host = hc_host (classifyHost u), base_origin = u_origin u\<rparr>"
  using assms by (auto simp: validateSourceUrl_def verdict_on_def reachable_def Let_def split: option.splits if_splits)

lemma headers_carried: "carried opts (home \<and> \<not> left) \<lparr>rq_url = c, rq_headers = request_headers opts home left, rq_timeout = t, rq_pinned = p\<rparr>"
  by (auto simp: carried_def request_headers_def split: option.split)

text \<open>One turn sends nothing and throws, or sends one request that is right.\<close>

lemma request_at_cases:
  assumes "request_at env opts hop cur left = (es, r)"
  obtains (refused) e where "requests es = []" "r = Inl e"
  | (sent) rq where "requests es = [rq]" "guarded env opts (\<not> left) [rq]" "hop = 0 \<Longrightarrow> at_source env opts rq"
      "\<And>left' res. r = Inr (left', res) \<Longrightarrow> left' \<longleftrightarrow> left \<or> \<not> at_source env opts rq"
proof (cases "vd_ok (validateSourceUrl (fe_parse env) cur (policy_of opts) hop)")
  case False
  then show ?thesis using assms that(1) by (auto simp: request_at_def Let_def flow_defs)
next
  case True
  from valid_url [OF True] obtain u where u: "fe_parse env cur = Some u"
      "u_protocol u = ''https:'' \<or> u_protocol u = ''http:'' \<and> allowHttp (policy_of opts)"
      "reachable (hc_kind (classifyHost u)) (u_origin u = sourceOrigin opts)" "hop = 0 \<Longrightarrow> u_origin u = sourceOrigin opts"
      "vd_base (validateSourceUrl (fe_parse env) cur (policy_of opts) hop) = Some \<lparr>classification = hc_kind (classifyHost u),
         base_scheme = u_protocol u, base_host = hc_host (classifyHost u), base_origin = u_origin u\<rparr>"
    by (auto simp: policy_of_def)
  let ?home = "u_origin u = sourceOrigin opts"
  obtain es1 r1 where check: "recheckResolvedAddresses (hc_kind (classifyHost u)) (hc_host (classifyHost u)) ?home (fe_lookup env hop) cur = (es1, r1)"
    by fastforce
  have home: "(u_origin u \<in> set (allowedOrigins (policy_of opts))) = ?home" by (simp add: policy_of_def)
  have http: "allowHttp (policy_of opts) \<longleftrightarrow> opt_allowHttp opts = Some True" by (auto simp: policy_of_def coalesce_def split: option.split)
  show ?thesis
  proof (cases r1)
    case (Inl e)
    then show ?thesis using assms that(1) [of e] True u(5) check recheck_results(1) [OF check] unfolding request_at_def
      by (simp add: Let_def home and_then_def)
  next
    case (Inr pinned)
    define rq where "rq = \<lparr>rq_url = cur, rq_headers = request_headers opts ?home (left \<or> \<not> ?home), rq_timeout = timeout_of opts, rq_pinned = pinned\<rparr>"
    have src: "at_source env opts rq = ?home" by (simp add: at_source_def rq_def u(1))
    have "permitted env opts rq" using u(1,2,3) http recheck_results(2) [OF check Inr] src by (simp add: permitted_def rq_def)
    moreover have "carried opts (\<not> left \<and> ?home) rq"
    proof -
      have "(?home \<and> \<not> (left \<or> \<not> ?home)) = (\<not> left \<and> ?home)" by blast
      with headers_carried [of opts ?home "left \<or> \<not> ?home"] show ?thesis unfolding rq_def by (simp only:)
    qed
    ultimately have "guarded env opts (\<not> left) [rq]" by (simp add: src)
    moreover have "es = es1 @ [Requested rq]" "\<And>l res. r = Inr (l, res) \<Longrightarrow> l \<longleftrightarrow> left \<or> \<not> ?home"
      using assms True u(5) check Inr unfolding request_at_def
      by (auto simp: Let_def home flow_defs rq_def split: sum.splits)
    ultimately show ?thesis using that(2) [of rq] u(4) recheck_results(1) [OF check] src by simp
  qed
qed

text \<open>The runs of the loop: the turn that ends it, or a turn, a discarded body and the rest.\<close>

lemma hops_cases:
  assumes "hops env opts hop cur left = (es, r)"
  obtains (last) "requests es = requests (fst (request_at env opts hop cur left))"
  | (turn) es1 left' res target es2 where "request_at env opts hop cur left = (es1, Inr (left', res))" "hop + 1 \<le> max_hops opts"
      "hops env opts (hop + 1) target left' = (es2, r)" "requests es = requests es1 @ requests es2"
  using assms by (subst (asm) hops.simps) (fastforce split: prod.splits sum.splits option.splits if_splits)

lemma hops_guarded:
  "hops env opts hop cur left = (es, r) \<Longrightarrow> guarded env opts (\<not> left) (requests es)
     \<and> length (requests es) \<le> nat (max_hops opts - hop) + 1
     \<and> (hop = 0 \<longrightarrow> requests es = [] \<or> at_source env opts (hd (requests es)))"
proof (induction "nat (max_hops opts - hop)" arbitrary: hop cur left es r rule: less_induct)
  case less
  from less.prems show ?case
  proof (cases rule: hops_cases)
    case last
    obtain es1 r1 where one: "request_at env opts hop cur left = (es1, r1)" by fastforce
    with last have "requests es = requests es1" by simp
    with one show ?thesis by (cases rule: request_at_cases) auto
  next
    case (turn es1 left' res target es2)
    have "nat (max_hops opts - (hop + 1)) < nat (max_hops opts - hop)" using turn(2) by linarith
    note rest = less.hyps [OF this turn(3)]
    from turn(1) obtain rq where rq: "requests es1 = [rq]" "guarded env opts (\<not> left) [rq]" "hop = 0 \<Longrightarrow> at_source env opts rq"
        "left' \<longleftrightarrow> left \<or> \<not> at_source env opts rq"
      by (cases rule: request_at_cases) auto
    have "length (requests es2) \<le> nat (max_hops opts - hop)" using rest turn(2) by linarith
    with rq rest turn(4) show ?thesis by auto
  qed
qed

text \<open>
  C5. A guarded fetch sends no request its policy forbids: the scheme is https, or http where that was
  opted into; the host is never a link-local or metadata address, and a private or loopback one only
  at the source the user consented to; the same holds of every address a name was resolved to, which
  are the only ones the socket is told; and the first request goes to the source itself.
\<close>

theorem fetch_reaches_permitted_hosts:
  assumes "fst (guardedFetch env url opts) = pre @ Requested rq # post"
  shows "permitted env opts rq \<and> (requests pre = [] \<longrightarrow> at_source env opts rq)
    \<and> (case buildPinnedLookup (rq_pinned rq) every of
         All_records rs \<Rightarrow> list_all (\<lambda>(a, f). reachable (classifyIpLiteral a) (at_source env opts rq)) rs
       | One_record a f \<Rightarrow> reachable (classifyIpLiteral a) (at_source env opts rq)
       | Lookup_error \<Rightarrow> rq_pinned rq = [])"
proof -
  obtain es r where run: "hops env opts 0 url False = (es, r)" by fastforce
  then have "es = pre @ Requested rq # post" using assms by (simp add: guardedFetch_def)
  with hops_guarded [OF run] have ok: "permitted env opts rq" "requests pre = [] \<Longrightarrow> at_source env opts rq"
    by (auto simp: guarded_append)
  then have "list_all (\<lambda>a. reachable (classifyIpLiteral a) (at_source env opts rq)) (rq_pinned rq)"
    by (auto simp: permitted_def split: option.splits)
  then have "case buildPinnedLookup (rq_pinned rq) every of
         All_records rs \<Rightarrow> list_all (\<lambda>(a, f). reachable (classifyIpLiteral a) (at_source env opts rq)) rs
       | One_record a f \<Rightarrow> reachable (classifyIpLiteral a) (at_source env opts rq)
       | Lookup_error \<Rightarrow> rq_pinned rq = []"
    by (cases "rq_pinned rq") (auto simp: buildPinnedLookup_def Let_def list_all_iff)
  with ok show ?thesis by simp
qed

text \<open>
  C12. The credential of a source stays at the source: a request carries it, in the form the hybrid rule
  gives it, exactly as long as it and every request before it went to the source's own origin.
\<close>

theorem credential_stays_at_the_source:
  assumes "fst (guardedFetch env url opts) = pre @ Requested rq # post"
  shows "map_of (rq_headers rq) ''authorization'' =
    (if list_all (at_source env opts) (requests pre @ [rq]) then formAuthorization (credential opts) else None)"
proof -
  obtain es r where run: "hops env opts 0 url False = (es, r)" by fastforce
  then have "es = pre @ Requested rq # post" using assms by (simp add: guardedFetch_def)
  with hops_guarded [OF run] have "carried opts (list_all (at_source env opts) (requests pre) \<and> at_source env opts rq) rq"
    by (auto simp: guarded_append)
  then show ?thesis by (simp add: carried_def)
qed

text \<open>
  However a server redirects, the loop ends, and a fetch has sent at most one request more than its
  cap on redirects.
\<close>

theorem redirects_are_bounded:
  "length (requests (fst (guardedFetch env url opts))) \<le> nat (max_hops opts) + 1"
proof -
  obtain es r where run: "hops env opts 0 url False = (es, r)" by fastforce
  from hops_guarded [OF run] show ?thesis by (simp add: guardedFetch_def run)
qed

subsection \<open>A sample download\<close>

definition sample_fetch_env :: fetch_env where
  "sample_fetch_env = \<lparr>
     fe_parse = (\<lambda>s. if s = ''https://s/a'' then Some \<lparr>u_protocol = ''https:'', u_hostname = ''s'', u_origin = ''https://s''\<rparr>
       else if s = ''https://c/b'' then Some \<lparr>u_protocol = ''https:'', u_hostname = ''c'', u_origin = ''https://c''\<rparr> else None),
     fe_join = (\<lambda>l b. Some l), fe_lookup = (\<lambda>n h. Some [''203.0.113.7'']),
     fe_answer = (\<lambda>n rq. Inr (if n = 0 then \<lparr>rs_status = 302, rs_location = Some ''https://c/b''\<rparr>
       else \<lparr>rs_status = 200, rs_location = None\<rparr>))\<rparr>"

definition sample_options :: fetch_options where
  "sample_options = \<lparr>sourceOrigin = ''https://s'', credential = Some ''t'', accept = None, opt_allowHttp = None,
     opt_maxHops = None, opt_timeoutMs = None\<rparr>"

definition sample_request :: "string \<Rightarrow> string jmap \<Rightarrow> request" where
  "sample_request u hs = \<lparr>rq_url = u, rq_headers = hs, rq_timeout = Some 5000, rq_pinned = [''203.0.113.7'']\<rparr>"

lemma sample_download:
  "fst (guardedFetch sample_fetch_env ''https://s/a'' sample_options) =
     [Looked_up ''s'', Requested (sample_request ''https://s/a'' [(''authorization'', ''Bearer t'')]), Discarded, Looked_up ''c'']
     @ Requested (sample_request ''https://c/b'' []) # []"
  by code_simp

theorem fetch_reaches_permitted_hosts_witness: "permitted sample_fetch_env sample_options (sample_request ''https://c/b'' [])"
  using fetch_reaches_permitted_hosts [OF sample_download] by blast

theorem credential_stays_at_the_source_witness:
  "(if list_all (at_source sample_fetch_env sample_options)
        [sample_request ''https://s/a'' [(''authorization'', ''Bearer t'')], sample_request ''https://c/b'' []]
    then formAuthorization (credential sample_options) else None) = None"
  using credential_stays_at_the_source [OF sample_download] by (simp add: sample_request_def)

text \<open>
  When the look-up of a redirect target fails, the request goes out with nothing pinned, so that the
  transport resolves the name again, unchecked.
\<close>

lemma unresolved_hosts_go_unpinned:
  "requests (fst (guardedFetch (sample_fetch_env\<lparr>fe_lookup := \<lambda>n h. None\<rparr>) ''https://s/a'' sample_options))
     = [(sample_request ''https://s/a'' [(''authorization'', ''Bearer t'')])\<lparr>rq_pinned := []\<rparr>, (sample_request ''https://c/b'' [])\<lparr>rq_pinned := []\<rparr>]"
  by code_simp

end
