(* ===== verification/TestFiles.thy ===== *)
theory TestFiles
  imports TestDomain Descriptors
begin

section \<open>The two TestBench files\<close>

text \<open>
  \<open>shared/testbench-contracts.ts\<close>: the schemas of \<open>test-cases.json\<close> and \<open>test-results.json\<close>, as
  parsers of JSON values, and the JSON value a results file is written as. Only the wording of a
  refusal is left out. The keys of a printed record are in the order of its schema.
\<close>

subsection \<open>Schemas\<close>

definition TEST_CASES_SCHEMA_ID :: string where
  "TEST_CASES_SCHEMA_ID = ''https://roubo.dev/schema/testbench/test-cases/v1.2.0.json''"

definition TEST_CASES_SCHEMA_VERSION :: string where "TEST_CASES_SCHEMA_VERSION = ''1.2.0''"

definition TEST_RESULTS_SCHEMA_ID :: string where
  "TEST_RESULTS_SCHEMA_ID = ''https://roubo.dev/schema/testbench/test-results/v2.0.0.json''"

definition TEST_RESULTS_SCHEMA_VERSION :: string where "TEST_RESULTS_SCHEMA_VERSION = ''2.0.0''"

definition TESTBENCH_MIGRATION_GUIDE_PATH :: string where
  "TESTBENCH_MIGRATION_GUIDE_PATH = ''docs/testbench-schema-migrations.md''"

text \<open>\<open>z.enum\<close>, \<open>z.array\<close>, \<open>z.record\<close> and a strict \<open>z.object\<close>.\<close>

definition enum_of :: "(string \<times> 'a) list \<Rightarrow> json \<Rightarrow> 'a option" where
  "enum_of names v = Option.bind (any_string v) (map_of names)"

fun array_of :: "(json \<Rightarrow> 'a option) \<Rightarrow> json \<Rightarrow> 'a list option" where
  "array_of p (JArr xs) = all_some (map p xs)"
| "array_of p _ = None"

fun record_of :: "(json \<Rightarrow> 'a option) \<Rightarrow> json \<Rightarrow> 'a jmap option" where
  "record_of p (JObj m) = all_some (map (\<lambda>(k, v). map_option (Pair k) (p v)) m)"
| "record_of p _ = None"

fun strict_object :: "string list \<Rightarrow> (json jmap \<Rightarrow> 'a option) \<Rightarrow> json \<Rightarrow> 'a option" where
  "strict_object ks p (JObj m) = (if list_all (\<lambda>k. k \<in> set ks) (jkeys m) then p m else None)"
| "strict_object ks p _ = None"

fun literal_true :: "json \<Rightarrow> bool option" where
  "literal_true (JBool True) = Some True"
| "literal_true _ = None"

definition status_names :: "(string \<times> case_status) list" where
  "status_names = [(''not_started'', Not_started), (''in_progress'', In_progress), (''passed'', Passed),
     (''failed'', Failed), (''blocked'', Blocked)]"

definition CaseStatusSchema :: "json \<Rightarrow> case_status option" where
  "CaseStatusSchema = enum_of status_names"

definition AuthorSchema :: "json \<Rightarrow> author option" where
  "AuthorSchema = strict_object [''name'', ''email'', ''isSentinel''] (\<lambda>m. do {
     n \<leftarrow> required ''name'' any_string m;
     e \<leftarrow> required ''email'' any_string m;
     s \<leftarrow> optional ''isSentinel'' literal_true m;
     Some \<lparr>author_name = n, author_email = e, isSentinel = s\<rparr> })"

definition TargetingFieldSchema :: "json \<Rightarrow> targeting_field option" where
  "TargetingFieldSchema = strict_object [''cssSelector'', ''ariaRole'', ''ariaName'', ''textAnchor'', ''routeContext'', ''region''] (\<lambda>m. do {
     c \<leftarrow> optional ''cssSelector'' any_string m;
     r \<leftarrow> optional ''ariaRole'' any_string m;
     n \<leftarrow> optional ''ariaName'' any_string m;
     t \<leftarrow> optional ''textAnchor'' any_string m;
     x \<leftarrow> optional ''routeContext'' any_string m;
     g \<leftarrow> optional ''region'' any_string m;
     Some \<lparr>cssSelector = c, ariaRole = r, ariaName = n, textAnchor = t, routeContext = x, tf_region = g\<rparr> })"

definition ObservationSchema :: "json \<Rightarrow> observation option" where
  "ObservationSchema = strict_object [''id'', ''expected'', ''observe''] (\<lambda>m. do {
     i \<leftarrow> required ''id'' any_string m;
     x \<leftarrow> required ''expected'' any_string m;
     b \<leftarrow> optional ''observe'' TargetingFieldSchema m;
     Some \<lparr>obs_id = i, expected = x, observe = b\<rparr> })"

definition StepSchema :: "json \<Rightarrow> test_step option" where
  "StepSchema = strict_object [''id'', ''instruction'', ''observations'', ''target''] (\<lambda>m. do {
     i \<leftarrow> required ''id'' any_string m;
     n \<leftarrow> required ''instruction'' any_string m;
     bs \<leftarrow> required ''observations'' (array_of ObservationSchema) m;
     t \<leftarrow> optional ''target'' TargetingFieldSchema m;
     Some \<lparr>step_id = i, instruction = n, observations = bs, step_target = t\<rparr> })"

definition RetiredSchema :: "json \<Rightarrow> case_lifecycle option" where
  "RetiredSchema = strict_object [''state'', ''reason''] (\<lambda>m. do {
     r \<leftarrow> required ''reason'' min1_string m;
     Some (Retired r) })"

definition SupersededSchema :: "json \<Rightarrow> case_lifecycle option" where
  "SupersededSchema = strict_object [''state'', ''replacement'', ''reason''] (\<lambda>m. do {
     p \<leftarrow> required ''replacement'' min1_string m;
     r \<leftarrow> optional ''reason'' min1_string m;
     Some (Superseded p r) })"

fun CaseLifecycleSchema :: "json \<Rightarrow> case_lifecycle option" where
  "CaseLifecycleSchema (JObj m) =
     (if map_of m ''state'' = Some (JStr ''retired'') then RetiredSchema (JObj m)
      else if map_of m ''state'' = Some (JStr ''superseded'') then SupersededSchema (JObj m)
      else None)"
| "CaseLifecycleSchema _ = None"

fun level_int :: "json \<Rightarrow> int option" where
  "level_int (JNum n) = (if 1 \<le> n \<and> n \<le> 4 then Some n else None)"
| "level_int _ = None"

definition min1_array :: "json \<Rightarrow> string list option" where
  "min1_array v = Option.bind (array_of any_string v) (\<lambda>xs. if xs = [] then None else Some xs)"

definition CaseSchema :: "json \<Rightarrow> test_case option" where
  "CaseSchema = strict_object [''id'', ''title'', ''area'', ''level'', ''type'', ''priority'', ''preconditions'', ''steps'', ''tags'',
       ''linked_requirement_ids'', ''linked_user_story_ids'', ''lifecycle''] (\<lambda>m. do {
     i \<leftarrow> required ''id'' any_string m;
     t \<leftarrow> required ''title'' any_string m;
     a \<leftarrow> required ''area'' any_string m;
     l \<leftarrow> required ''level'' level_int m;
     y \<leftarrow> required ''type'' min1_string m;
     p \<leftarrow> optional ''priority'' any_string m;
     cs \<leftarrow> optional ''preconditions'' (array_of any_string) m;
     ss \<leftarrow> required ''steps'' (array_of StepSchema) m;
     gs \<leftarrow> required ''tags'' (array_of any_string) m;
     rs \<leftarrow> required ''linked_requirement_ids'' min1_array m;
     us \<leftarrow> required ''linked_user_story_ids'' (array_of any_string) m;
     lc \<leftarrow> optional ''lifecycle'' CaseLifecycleSchema m;
     Some \<lparr>tc_id = i, tc_title = t, tc_area = a, tc_level = l, tc_type = y, priority = p, preconditions = cs, steps = ss,
       tags = gs, linked_requirement_ids = rs, linked_user_story_ids = us, tc_lifecycle = lc\<rparr> })"

definition TestCasesPlanSchema :: "json \<Rightarrow> test_cases_plan option" where
  "TestCasesPlanSchema = strict_object [''$schema'', ''schemaVersion'', ''specSlug'', ''cases''] (\<lambda>m. do {
     s \<leftarrow> required ''$schema'' any_string m;
     v \<leftarrow> required ''schemaVersion'' any_string m;
     g \<leftarrow> required ''specSlug'' any_string m;
     cs \<leftarrow> required ''cases'' (array_of CaseSchema) m;
     Some \<lparr>tp_schema = s, tp_schemaVersion = v, specSlug = g, cases_of = cs\<rparr> })"

definition mark_names :: "(string \<times> mark_value) list" where
  "mark_names = [(''pass'', Pass), (''fail'', Fail)]"

definition ObservationMarkSchema :: "json \<Rightarrow> observation_mark option" where
  "ObservationMarkSchema = strict_object [''result'', ''author'', ''timestamp''] (\<lambda>m. do {
     r \<leftarrow> required ''result'' (enum_of mark_names) m;
     a \<leftarrow> required ''author'' AuthorSchema m;
     t \<leftarrow> required ''timestamp'' any_string m;
     Some \<lparr>mark_result = r, mark_author = a, mark_timestamp = t\<rparr> })"

definition StatusOverrideSchema :: "json \<Rightarrow> status_override option" where
  "StatusOverrideSchema = strict_object [''status'', ''author'', ''timestamp''] (\<lambda>m. do {
     s \<leftarrow> required ''status'' CaseStatusSchema m;
     a \<leftarrow> required ''author'' AuthorSchema m;
     t \<leftarrow> required ''timestamp'' any_string m;
     Some \<lparr>so_status = s, so_author = a, so_timestamp = t\<rparr> })"

definition NoteSchema :: "json \<Rightarrow> case_note option" where
  "NoteSchema = strict_object [''id'', ''text'', ''author'', ''timestamp'', ''statusAtWrite''] (\<lambda>m. do {
     i \<leftarrow> required ''id'' any_string m;
     x \<leftarrow> required ''text'' any_string m;
     a \<leftarrow> required ''author'' AuthorSchema m;
     t \<leftarrow> required ''timestamp'' any_string m;
     s \<leftarrow> required ''statusAtWrite'' CaseStatusSchema m;
     Some \<lparr>note_id = i, note_text = x, note_author = a, note_timestamp = t, statusAtWrite = s\<rparr> })"

definition tier_names :: "(string \<times> verification_tier) list" where
  "tier_names = [(''a'', Tier_a), (''b'', Tier_b), (''c'', Tier_c), (''d'', Tier_d)]"

definition confidence_names :: "(string \<times> verification_confidence) list" where
  "confidence_names = [(''high'', High), (''medium'', Medium), (''low'', Low)]"

definition VerificationSchema :: "json \<Rightarrow> verification option" where
  "VerificationSchema = strict_object [''tier'', ''confidence'', ''evidence'', ''author'', ''timestamp''] (\<lambda>m. do {
     r \<leftarrow> required ''tier'' (enum_of tier_names) m;
     c \<leftarrow> required ''confidence'' (enum_of confidence_names) m;
     e \<leftarrow> required ''evidence'' (array_of any_string) m;
     a \<leftarrow> required ''author'' AuthorSchema m;
     t \<leftarrow> required ''timestamp'' any_string m;
     Some \<lparr>v_tier = r, v_confidence = c, v_evidence = e, v_author = a, v_timestamp = t\<rparr> })"

definition CaseResultSchema :: "json \<Rightarrow> case_result option" where
  "CaseResultSchema = strict_object [''observationMarks'', ''derivedStatus'', ''statusOverride'', ''notes'', ''verification'',
       ''orphaned'', ''caseCanon''] (\<lambda>m. do {
     ms \<leftarrow> required ''observationMarks'' (record_of ObservationMarkSchema) m;
     d \<leftarrow> required ''derivedStatus'' CaseStatusSchema m;
     v \<leftarrow> optional ''statusOverride'' StatusOverrideSchema m;
     ns \<leftarrow> required ''notes'' (array_of NoteSchema) m;
     f \<leftarrow> optional ''verification'' VerificationSchema m;
     r \<leftarrow> optional ''orphaned'' literal_true m;
     c \<leftarrow> optional ''caseCanon'' any_string m;
     Some \<lparr>observationMarks = ms, derivedStatus = d, statusOverride = v, case_notes = ns, verification_of = f,
       orphaned = r, caseCanon = c\<rparr> })"

record results_file =
  rf_schema :: string
  rf_schemaVersion :: string
  rf_planHash :: string
  rf_caseResults :: "case_result jmap"
  rf_updatedAt :: string

definition TestResultsFileSchema :: "json \<Rightarrow> results_file option" where
  "TestResultsFileSchema = strict_object [''$schema'', ''schemaVersion'', ''planHash'', ''caseResults'', ''updatedAt''] (\<lambda>m. do {
     s \<leftarrow> required ''$schema'' any_string m;
     v \<leftarrow> required ''schemaVersion'' any_string m;
     h \<leftarrow> required ''planHash'' any_string m;
     rs \<leftarrow> required ''caseResults'' (record_of CaseResultSchema) m;
     u \<leftarrow> required ''updatedAt'' any_string m;
     Some \<lparr>rf_schema = s, rf_schemaVersion = v, rf_planHash = h, rf_caseResults = rs, rf_updatedAt = u\<rparr> })"

definition validateTestCases :: "json \<Rightarrow> test_cases_plan option" where
  "validateTestCases = TestCasesPlanSchema"

definition validateTestResults :: "json \<Rightarrow> results_file option" where
  "validateTestResults = TestResultsFileSchema"

subsection \<open>Writing results\<close>

definition name_in :: "(string \<times> 'a) list \<Rightarrow> 'a \<Rightarrow> json" where
  "name_in names v = (case find (\<lambda>e. snd e = v) names of Some (k, _) \<Rightarrow> JStr k | None \<Rightarrow> JNull)"

definition opt_field :: "string \<Rightarrow> ('a \<Rightarrow> json) \<Rightarrow> 'a option \<Rightarrow> json jmap" where
  "opt_field k f v = (case v of None \<Rightarrow> [] | Some x \<Rightarrow> [(k, f x)])"

definition author_json :: "author \<Rightarrow> json" where
  "author_json a = JObj ([(''name'', JStr (author_name a)), (''email'', JStr (author_email a))]
     @ opt_field ''isSentinel'' JBool (isSentinel a))"

definition mark_json :: "observation_mark \<Rightarrow> json" where
  "mark_json m = JObj [(''result'', name_in mark_names (mark_result m)), (''author'', author_json (mark_author m)),
     (''timestamp'', JStr (mark_timestamp m))]"

definition override_json :: "status_override \<Rightarrow> json" where
  "override_json v = JObj [(''status'', name_in status_names (so_status v)), (''author'', author_json (so_author v)),
     (''timestamp'', JStr (so_timestamp v))]"

definition note_json :: "case_note \<Rightarrow> json" where
  "note_json n = JObj [(''id'', JStr (note_id n)), (''text'', JStr (note_text n)), (''author'', author_json (note_author n)),
     (''timestamp'', JStr (note_timestamp n)), (''statusAtWrite'', name_in status_names (statusAtWrite n))]"

definition verification_json :: "verification \<Rightarrow> json" where
  "verification_json v = JObj [(''tier'', name_in tier_names (v_tier v)), (''confidence'', name_in confidence_names (v_confidence v)),
     (''evidence'', JArr (map JStr (v_evidence v))), (''author'', author_json (v_author v)), (''timestamp'', JStr (v_timestamp v))]"

definition case_result_json :: "case_result \<Rightarrow> json" where
  "case_result_json r = JObj ([(''observationMarks'', JObj (map (\<lambda>(k, m). (k, mark_json m)) (observationMarks r))),
       (''derivedStatus'', name_in status_names (derivedStatus r))]
     @ opt_field ''statusOverride'' override_json (statusOverride r)
     @ [(''notes'', JArr (map note_json (case_notes r)))]
     @ opt_field ''verification'' verification_json (verification_of r)
     @ opt_field ''orphaned'' JBool (orphaned r)
     @ opt_field ''caseCanon'' JStr (caseCanon r))"

definition results_json :: "results_file \<Rightarrow> json" where
  "results_json f = JObj [(''$schema'', JStr (rf_schema f)), (''schemaVersion'', JStr (rf_schemaVersion f)),
     (''planHash'', JStr (rf_planHash f)), (''caseResults'', JObj (map (\<lambda>(k, r). (k, case_result_json r)) (rf_caseResults f))),
     (''updatedAt'', JStr (rf_updatedAt f))]"

subsection \<open>What is written is read back\<close>

text \<open>Two flags are only ever written as true.\<close>

definition author_ok :: "author \<Rightarrow> bool" where "author_ok a \<longleftrightarrow> isSentinel a \<noteq> Some False"

definition result_ok :: "case_result \<Rightarrow> bool" where
  "result_ok r \<longleftrightarrow> orphaned r \<noteq> Some False \<and> list_all (\<lambda>(k, m). author_ok (mark_author m)) (observationMarks r)
     \<and> pred_option (\<lambda>v. author_ok (so_author v)) (statusOverride r)
     \<and> list_all (\<lambda>n. author_ok (note_author n)) (case_notes r)
     \<and> pred_option (\<lambda>v. author_ok (v_author v)) (verification_of r)"

definition file_ok :: "results_file \<Rightarrow> bool" where
  "file_ok f \<longleftrightarrow> list_all (\<lambda>(k, r). result_ok r) (rf_caseResults f)"

lemma all_some_print: "(\<And>x. x \<in> set xs \<Longrightarrow> p (f x) = Some x) \<Longrightarrow> all_some (map p (map f xs)) = Some xs"
  by (induction xs) simp_all

lemma array_print: "(\<And>x. x \<in> set xs \<Longrightarrow> p (f x) = Some x) \<Longrightarrow> array_of p (JArr (map f xs)) = Some xs"
  by (simp only: array_of.simps all_some_print)

lemma record_print: "(\<And>k x. (k, x) \<in> set m \<Longrightarrow> p (f x) = Some x) \<Longrightarrow> record_of p (JObj (map (\<lambda>(k, x). (k, f x)) m)) = Some m"
  by (induction m) (force split: prod.splits)+

lemma enum_print:
  "enum_of status_names (name_in status_names s) = Some s" "enum_of mark_names (name_in mark_names v) = Some v"
  "enum_of tier_names (name_in tier_names t) = Some t" "enum_of confidence_names (name_in confidence_names c) = Some c"
  by (cases s; cases v; cases t; cases c;
      simp add: enum_of_def name_in_def status_names_def mark_names_def tier_names_def confidence_names_def)+

lemmas schema_defs = required_def optional_def opt_field_def

lemma flag_print: "b \<noteq> False \<Longrightarrow> literal_true (JBool b) = Some b"
  by (cases b) simp_all

lemma author_print [simp]: "author_ok a \<Longrightarrow> AuthorSchema (author_json a) = Some a"
  by (cases "isSentinel a") (auto simp: AuthorSchema_def author_json_def author_ok_def schema_defs flag_print)

lemma mark_print: "author_ok (mark_author m) \<Longrightarrow> ObservationMarkSchema (mark_json m) = Some m"
  by (simp add: ObservationMarkSchema_def mark_json_def schema_defs enum_print)

lemma override_print: "author_ok (so_author v) \<Longrightarrow> StatusOverrideSchema (override_json v) = Some v"
  by (simp add: StatusOverrideSchema_def CaseStatusSchema_def override_json_def schema_defs enum_print)

lemma note_print: "author_ok (note_author n) \<Longrightarrow> NoteSchema (note_json n) = Some n"
  by (simp add: NoteSchema_def CaseStatusSchema_def note_json_def schema_defs enum_print)

lemma verification_print: "author_ok (v_author v) \<Longrightarrow> VerificationSchema (verification_json v) = Some v"
  using array_print [of "v_evidence v" any_string JStr]
  by (simp add: VerificationSchema_def verification_json_def schema_defs enum_print del: array_of.simps)

lemma result_print:
  assumes "result_ok r"
  shows "CaseResultSchema (case_result_json r) = Some r"
proof -
  have marks: "record_of ObservationMarkSchema (JObj (map (\<lambda>(k, m). (k, mark_json m)) (observationMarks r))) = Some (observationMarks r)"
    using assms by (intro record_print mark_print) (auto simp: result_ok_def list_all_iff)
  have written: "array_of NoteSchema (JArr (map note_json (case_notes r))) = Some (case_notes r)"
    using assms by (intro array_print note_print) (auto simp: result_ok_def list_all_iff)
  show ?thesis using assms marks written
    by (cases "statusOverride r"; cases "verification_of r"; cases "orphaned r"; cases "caseCanon r")
      (auto simp: result_ok_def CaseResultSchema_def case_result_json_def CaseStatusSchema_def schema_defs enum_print
        override_print verification_print flag_print simp del: record_of.simps array_of.simps)
qed

lemma file_print: "file_ok f \<Longrightarrow> validateTestResults (results_json f) = Some f"
proof -
  assume "file_ok f"
  then have "record_of CaseResultSchema (JObj (map (\<lambda>(k, r). (k, case_result_json r)) (rf_caseResults f))) = Some (rf_caseResults f)"
    by (intro record_print result_print) (auto simp: file_ok_def list_all_iff)
  then show ?thesis
    by (simp add: validateTestResults_def TestResultsFileSchema_def results_json_def schema_defs del: record_of.simps)
qed

subsection \<open>What is read is well formed\<close>

lemma all_some_all: "all_some (map p xs) = Some ys \<Longrightarrow> (\<And>x y. p x = Some y \<Longrightarrow> Q y) \<Longrightarrow> list_all Q ys"
  by (induction xs arbitrary: ys) (auto split: Option.bind_splits)

lemma array_all: "array_of p v = Some ys \<Longrightarrow> (\<And>x y. p x = Some y \<Longrightarrow> Q y) \<Longrightarrow> list_all Q ys"
  by (cases v) (auto intro: all_some_all)

lemma record_all: "record_of p v = Some m \<Longrightarrow> (\<And>x y. p x = Some y \<Longrightarrow> Q y) \<Longrightarrow> list_all (\<lambda>(k, y). Q y) m"
  by (cases v) (auto elim!: all_some_all [where Q = "\<lambda>(k, y). Q y"])

lemma strict_Some: "strict_object ks p v = Some x \<Longrightarrow> \<exists>m. p m = Some x"
  by (cases v) (auto split: if_splits)

lemma flag_read: "optional k literal_true m = Some v \<Longrightarrow> v \<noteq> Some False"
proof -
  have "literal_true x \<noteq> Some False" for x by (cases x rule: literal_true.cases) auto
  then show "optional k literal_true m = Some v \<Longrightarrow> v \<noteq> Some False" by (auto simp: optional_def split: option.splits)
qed

lemma author_read: "AuthorSchema v = Some a \<Longrightarrow> author_ok a"
  using flag_read by (fastforce simp: AuthorSchema_def author_ok_def dest!: strict_Some split: Option.bind_splits)

lemma required_read: "required k p m = Some x \<Longrightarrow> \<exists>v. p v = Some x"
  by (auto simp: required_def split: Option.bind_splits)

lemma optional_read: "optional k p m = Some x \<Longrightarrow> (\<And>v y. p v = Some y \<Longrightarrow> Q y) \<Longrightarrow> pred_option Q x"
  by (auto simp: optional_def split: option.splits)

lemma mark_read: "ObservationMarkSchema v = Some r \<Longrightarrow> author_ok (mark_author r)"
  by (auto simp: ObservationMarkSchema_def dest!: strict_Some required_read [where p = AuthorSchema] author_read split: Option.bind_splits)

lemma override_read: "StatusOverrideSchema v = Some r \<Longrightarrow> author_ok (so_author r)"
  by (auto simp: StatusOverrideSchema_def dest!: strict_Some required_read [where p = AuthorSchema] author_read split: Option.bind_splits)

lemma note_read: "NoteSchema v = Some r \<Longrightarrow> author_ok (note_author r)"
  by (auto simp: NoteSchema_def dest!: strict_Some required_read [where p = AuthorSchema] author_read split: Option.bind_splits)

lemma verification_read: "VerificationSchema v = Some r \<Longrightarrow> author_ok (v_author r)"
  by (auto simp: VerificationSchema_def dest!: strict_Some required_read [where p = AuthorSchema] author_read split: Option.bind_splits)

lemma result_fields:
  "CaseResultSchema v = Some r \<Longrightarrow> \<exists>m. required ''observationMarks'' (record_of ObservationMarkSchema) m = Some (observationMarks r)
     \<and> optional ''statusOverride'' StatusOverrideSchema m = Some (statusOverride r)
     \<and> required ''notes'' (array_of NoteSchema) m = Some (case_notes r)
     \<and> optional ''verification'' VerificationSchema m = Some (verification_of r)
     \<and> optional ''orphaned'' literal_true m = Some (orphaned r)"
  unfolding CaseResultSchema_def
  by (drule strict_Some, erule exE, rule_tac x = m in exI) (clarsimp simp: bind_eq_Some_conv)

lemma result_read:
  assumes "CaseResultSchema v = Some r"
  shows "result_ok r"
proof -
  obtain m where m: "required ''observationMarks'' (record_of ObservationMarkSchema) m = Some (observationMarks r)"
      "optional ''statusOverride'' StatusOverrideSchema m = Some (statusOverride r)"
      "required ''notes'' (array_of NoteSchema) m = Some (case_notes r)"
      "optional ''verification'' VerificationSchema m = Some (verification_of r)"
      "optional ''orphaned'' literal_true m = Some (orphaned r)"
    using result_fields [OF assms] by (elim exE conjE)
  from required_read [OF m(1)] required_read [OF m(3)]
  obtain v w where v: "record_of ObservationMarkSchema v = Some (observationMarks r)"
    and w: "array_of NoteSchema w = Some (case_notes r)" by (elim exE)
  have "list_all (\<lambda>(k, m). author_ok (mark_author m)) (observationMarks r)" by (rule record_all [OF v mark_read])
  moreover have "list_all (\<lambda>n. author_ok (note_author n)) (case_notes r)" by (rule array_all [OF w note_read])
  moreover have "pred_option (\<lambda>v. author_ok (so_author v)) (statusOverride r)" by (rule optional_read [OF m(2) override_read])
  moreover have "pred_option (\<lambda>v. author_ok (v_author v)) (verification_of r)" by (rule optional_read [OF m(4) verification_read])
  ultimately show ?thesis using flag_read [OF m(5)] by (simp add: result_ok_def)
qed

lemma file_fields: "validateTestResults v = Some f \<Longrightarrow>
    \<exists>m. required ''caseResults'' (record_of CaseResultSchema) m = Some (rf_caseResults f)
      \<and> required ''schemaVersion'' any_string m = Some (rf_schemaVersion f)"
  unfolding validateTestResults_def TestResultsFileSchema_def
  by (drule strict_Some, erule exE, rule_tac x = m in exI) (clarsimp simp: bind_eq_Some_conv)

lemma file_read:
  assumes "validateTestResults v = Some f"
  shows "file_ok f"
proof -
  obtain m where m: "required ''caseResults'' (record_of CaseResultSchema) m = Some (rf_caseResults f)"
    using file_fields [OF assms] by (elim exE conjE)
  from required_read [OF m] obtain w where w: "record_of CaseResultSchema w = Some (rf_caseResults f)" by (elim exE)
  show ?thesis unfolding file_ok_def by (rule record_all [OF w result_read])
qed

lemma strict_object_Some: "strict_object ks p v = Some x \<longleftrightarrow> (\<exists>m. v = JObj m \<and> list_all (\<lambda>k. k \<in> set ks) (jkeys m) \<and> p m = Some x)"
  by (cases v) auto

text \<open>
  A results file survives the trip through the program: whatever value the schema accepts, the
  results read from it, written out again, are accepted again and are the same results.
\<close>

theorem results_file_roundtrip:
  assumes "validateTestResults v = Some f"
  shows "validateTestResults (results_json f) = Some f"
  by (rule file_print [OF file_read [OF assms]])

definition sample_file :: json where
  "sample_file = results_json \<lparr>rf_schema = ''s'', rf_schemaVersion = ''2.0.0'', rf_planHash = ''h'',
     rf_caseResults = [(''T1'', sample_result [(''O1'', sample_mark Fail)] Failed (Some True))], rf_updatedAt = ''t''\<rparr>"

theorem results_file_roundtrip_witness:
  "\<exists>f. validateTestResults sample_file = Some f \<and> validateTestResults (results_json f) = Some f"
proof -
  have "\<exists>f. validateTestResults sample_file = Some f"
    unfolding sample_file_def
    by (rule exI, rule file_print) (simp add: file_ok_def result_ok_def sample_result_def sample_mark_def author_ok_def)
  then show ?thesis using results_file_roundtrip by blast
qed

end
