(* ===== verification/TestStore.thy ===== *)
theory TestStore
  imports TestFiles "HOL-Library.Sublist"
begin

section \<open>The TestBench store\<close>

text \<open>
  \<open>server/lib/testbench-store.ts\<close>, \<open>testbench-results-write.ts\<close> and \<open>testbench-lifecycle-write.ts\<close>:
  reading a plan with its results, marking, noting and overriding a case, reconciling, and retiring
  or superseding a case in the plan itself. The folder of a spec holds at most three files; a file is
  its text and what \<open>JSON.parse\<close> makes of it. The digest, the printer of JSON text, the clock, fresh
  ids, the identity git reports and the outcome of writes are the record \<open>store_env\<close>, with whether a
  symbolic link takes the folder (the empty name) or a file of it out of the repository.
\<close>

record spec_file =
  raw :: string
  parsed :: "json option"

record spec_folder =
  plan_file :: "spec_file option"
  results_of :: "spec_file option"
  manifest_of :: "spec_file option"

record store_env =
  se_escapes :: "string \<Rightarrow> bool"
  se_sha :: "string \<Rightarrow> string"
  se_text :: "json \<Rightarrow> string"
  se_now :: string
  se_uuid :: string
  se_identity :: author
  se_write_fails :: bool

datatype store_error =
    Unsafe_path
  | Missing_plan
  | Empty_note
  | Type_error
  | Write_failed
  | Missing_case_file
  | Case_not_found
  | Lifecycle_conflict string

subsection \<open>Paths and writes\<close>

definition slug_char :: "char \<Rightarrow> bool" where
  "slug_char c = (let n = (of_char c :: nat) in 97 \<le> n \<and> n \<le> 122 \<or> 48 \<le> n \<and> n \<le> 57 \<or> c = CHR ''_'' \<or> c = CHR ''-'')"

definition slug_ok :: "string \<Rightarrow> bool" where
  "slug_ok s \<longleftrightarrow> s \<noteq> [] \<and> list_all slug_char s"

definition spec_path :: "store_env \<Rightarrow> string \<Rightarrow> string \<Rightarrow> store_error + unit" where
  "spec_path env slug name = (if slug_ok slug \<and> \<not> se_escapes env name then Inr () else Inl Unsafe_path)"

definition planPath :: "store_env \<Rightarrow> string \<Rightarrow> store_error + unit" where
  "planPath env slug = spec_path env slug ''test-cases.json''"

definition resultsPath :: "store_env \<Rightarrow> string \<Rightarrow> store_error + unit" where
  "resultsPath env slug = spec_path env slug ''test-results.json''"

definition PERMITTED_SPEC_FILENAMES :: "string list" where
  "PERMITTED_SPEC_FILENAMES = [''test-results.json'', ''test-cases.json'', ''manifest.json'']"

definition PERMITTED_LIFECYCLE_FILENAMES :: "string list" where
  "PERMITTED_LIFECYCLE_FILENAMES = [''test-cases.json'', ''manifest.json'']"

text \<open>The rename is the commit point: a write that fails leaves the file as it was.\<close>

definition writeSpecFile :: "store_env \<Rightarrow> string \<Rightarrow> string \<Rightarrow> spec_file \<Rightarrow> spec_folder \<Rightarrow> (store_error + unit) \<times> spec_folder" where
  "writeSpecFile env slug name data d =
     (if \<not> slug_ok slug \<or> name \<notin> set PERMITTED_SPEC_FILENAMES \<or> se_escapes env [] then (Inl Unsafe_path, d)
      else if se_write_fails env then (Inl Write_failed, d)
      else (Inr (), if name = ''test-cases.json'' then d\<lparr>plan_file := Some data\<rparr>
               else if name = ''manifest.json'' then d\<lparr>manifest_of := Some data\<rparr> else d\<lparr>results_of := Some data\<rparr>))"

definition writeResults :: "store_env \<Rightarrow> string \<Rightarrow> spec_file \<Rightarrow> spec_folder \<Rightarrow> (store_error + unit) \<times> spec_folder" where
  "writeResults env slug data = writeSpecFile env slug ''test-results.json'' data"

definition writeLifecycleFile :: "store_env \<Rightarrow> string \<Rightarrow> string \<Rightarrow> spec_file \<Rightarrow> spec_folder \<Rightarrow> (store_error + unit) \<times> spec_folder" where
  "writeLifecycleFile env slug name data d =
     (if name \<in> set PERMITTED_LIFECYCLE_FILENAMES then writeSpecFile env slug name data d else (Inl Unsafe_path, d))"

subsection \<open>Reading\<close>

definition computePlanHash :: "store_env \<Rightarrow> test_cases_plan \<Rightarrow> string" where
  "computePlanHash env plan = se_sha env (canonicalize plan)"

definition computeCaseFileFingerprint :: "store_env \<Rightarrow> string \<Rightarrow> string" where
  "computeCaseFileFingerprint env t = se_sha env t"

definition major_of :: "string \<Rightarrow> int option" where
  "major_of version = parse_int (hd (split_on CHR ''.'' version))"

definition currentResultsMajor :: "int option" where
  "currentResultsMajor = major_of TEST_RESULTS_SCHEMA_VERSION"

fun parseMajor :: "json \<Rightarrow> int option" where
  "parseMajor (JObj m) = (case map_of m ''schemaVersion'' of Some (JStr v) \<Rightarrow> major_of v | _ \<Rightarrow> None)"
| "parseMajor _ = None"

datatype recovery_reason = Missing_file | Corrupt_json | Future_version | Version_migration_required | Schema_invalid

text \<open>The outcome of reading a results file: the file, or the reason there is none.\<close>

definition read_results :: "spec_file option \<Rightarrow> recovery_reason + results_file" where
  "read_results f =
     (case f of
        None \<Rightarrow> Inl Missing_file
      | Some t \<Rightarrow>
          (case parsed t of
             None \<Rightarrow> Inl Corrupt_json
           | Some v \<Rightarrow>
               (case (parseMajor v, currentResultsMajor) of
                  (Some n, Some k) \<Rightarrow>
                    if n > k then Inl Future_version
                    else if n < k then Inl Version_migration_required
                    else (case validateTestResults v of None \<Rightarrow> Inl Schema_invalid | Some x \<Rightarrow> Inr x)
                | _ \<Rightarrow> (case validateTestResults v of None \<Rightarrow> Inl Schema_invalid | Some x \<Rightarrow> Inr x))))"

definition loadFile :: "store_env \<Rightarrow> string \<Rightarrow> spec_folder \<Rightarrow> store_error + (results_file option \<times> recovery_reason option)" where
  "loadFile env slug d =
     (case resultsPath env slug of
        Inl e \<Rightarrow> Inl e
      | Inr _ \<Rightarrow> Inr (case read_results (results_of d) of Inl why \<Rightarrow> (None, Some why) | Inr f \<Rightarrow> (Some f, None)))"

definition loadResultsFile :: "store_env \<Rightarrow> string \<Rightarrow> spec_folder \<Rightarrow> store_error + (results_file option \<times> recovery_reason option)" where
  "loadResultsFile = loadFile"

definition load_plan :: "store_env \<Rightarrow> string \<Rightarrow> spec_folder \<Rightarrow> store_error + test_cases_plan" where
  "load_plan env slug d =
     (case planPath env slug of
        Inl e \<Rightarrow> Inl e
      | Inr _ \<Rightarrow>
          (case Option.bind (Option.bind (plan_file d) parsed) validateTestCases of
             None \<Rightarrow> Inl Missing_plan
           | Some plan \<Rightarrow> Inr plan))"

record plan_and_results =
  pr_plan :: test_cases_plan
  pr_results :: "bench_results option"
  pr_stale :: bool
  pr_planHash :: string
  pr_fingerprint :: string
  pr_recovered :: bool
  pr_reason :: "recovery_reason option"
  pr_guide :: "string option"

definition fileResults :: "results_file \<Rightarrow> bench_results" where
  "fileResults f = \<lparr>caseResults = rf_caseResults f, updatedAt = rf_updatedAt f\<rparr>"

definition readPlanAndResults :: "store_env \<Rightarrow> string \<Rightarrow> spec_folder \<Rightarrow> store_error + plan_and_results" where
  "readPlanAndResults env slug d =
     (case load_plan env slug d of
        Inl e \<Rightarrow> Inl e
      | Inr plan \<Rightarrow>
          (case loadFile env slug d of
             Inl e \<Rightarrow> Inl e
           | Inr (loaded, reason) \<Rightarrow>
               let planHash = computePlanHash env plan
               in Inr \<lparr>pr_plan = plan, pr_results = map_option fileResults loaded,
                    pr_stale = (case loaded of None \<Rightarrow> False | Some f \<Rightarrow> rf_planHash f \<noteq> planHash), pr_planHash = planHash,
                    pr_fingerprint = computeCaseFileFingerprint env (case plan_file d of None \<Rightarrow> [] | Some t \<Rightarrow> raw t),
                    pr_recovered = (reason \<noteq> None), pr_reason = reason,
                    pr_guide = (if reason = Some Version_migration_required then Some TESTBENCH_MIGRATION_GUIDE_PATH else None)\<rparr>))"

subsection \<open>Writing results\<close>

definition persist :: "store_env \<Rightarrow> string \<Rightarrow> results_file \<Rightarrow> spec_folder \<Rightarrow> (store_error + unit) \<times> spec_folder" where
  "persist env slug f = writeResults env slug \<lparr>raw = se_text env (results_json f), parsed = Some (results_json f)\<rparr>"

definition emptyFile :: "store_env \<Rightarrow> string \<Rightarrow> results_file" where
  "emptyFile env planHash = \<lparr>rf_schema = TEST_RESULTS_SCHEMA_ID, rf_schemaVersion = TEST_RESULTS_SCHEMA_VERSION,
     rf_planHash = planHash, rf_caseResults = [], rf_updatedAt = se_now env\<rparr>"

definition emptyCaseResult :: case_result where
  "emptyCaseResult = \<lparr>observationMarks = [], derivedStatus = Not_started, statusOverride = None, case_notes = [],
     verification_of = None, orphaned = None, caseCanon = None\<rparr>"

definition toAuthor :: "author \<Rightarrow> author" where
  "toAuthor who = who\<lparr>isSentinel := (if isSentinel who = Some True then Some True else None)\<rparr>"

definition stamp :: "test_cases_plan \<Rightarrow> string \<Rightarrow> case_result \<Rightarrow> case_result" where
  "stamp plan caseId r =
     (case find (\<lambda>c. tc_id c = caseId) (cases_of plan) of None \<Rightarrow> r | Some c \<Rightarrow> r\<lparr>caseCanon := Some (canonicalizeCase c)\<rparr>)"

text \<open>
  A case id that names an inherited member and has no result of its own yields that member, a
  function: reading its fields throws (\<open>on_inherited\<close> is the error), setting one does not, and the
  printer of JSON leaves it out, so that nothing about the case is written.
\<close>

definition mutateCaseResult ::
    "store_env \<Rightarrow> string \<Rightarrow> string \<Rightarrow> store_error option \<Rightarrow> (author \<Rightarrow> test_cases_plan \<Rightarrow> case_result \<Rightarrow> case_result) \<Rightarrow>
     spec_folder \<Rightarrow> (store_error + case_result option) \<times> spec_folder" where
  "mutateCaseResult env slug caseId on_inherited mutate d =
     (if caseId \<in> {''__proto__'', ''constructor'', ''prototype''} then (Inl Unsafe_path, d)
      else case load_plan env slug d of
        Inl e \<Rightarrow> (Inl e, d)
      | Inr plan \<Rightarrow>
          (case loadFile env slug d of
             Inl e \<Rightarrow> (Inl e, d)
           | Inr (loaded, _) \<Rightarrow>
               let planHash = computePlanHash env plan; f = coalesce loaded (emptyFile env planHash);
                   base = f\<lparr>rf_updatedAt := se_now env, rf_planHash := planHash\<rparr>;
                   save = (\<lambda>r g. case persist env slug g d of (Inl e, d') \<Rightarrow> (Inl e, d') | (Inr _, d') \<Rightarrow> (Inr r, d'))
               in case js_get (rf_caseResults f) caseId of
                    Inherited \<Rightarrow> (case on_inherited of Some e \<Rightarrow> (Inl e, d) | None \<Rightarrow> save None base)
                  | found \<Rightarrow>
                      let r = stamp plan caseId (mutate (toAuthor (se_identity env)) plan
                                (case found of Own r0 \<Rightarrow> r0 | _ \<Rightarrow> emptyCaseResult))
                      in save (Some r) (base\<lparr>rf_caseResults := jput caseId r (rf_caseResults f)\<rparr>)))"

definition mark_case :: "store_env \<Rightarrow> string \<Rightarrow> string \<Rightarrow> mark_value option \<Rightarrow> author \<Rightarrow> test_cases_plan \<Rightarrow> case_result \<Rightarrow> case_result" where
  "mark_case env caseId obsId v who plan r =
     (let marks = (case v of
                     None \<Rightarrow> jdel obsId (observationMarks r)
                   | Some x \<Rightarrow> jput obsId \<lparr>mark_result = x, mark_author = who, mark_timestamp = se_now env\<rparr> (observationMarks r))
      in r\<lparr>observationMarks := marks, derivedStatus := deriveStatus (planCaseObservationIds plan caseId) marks\<rparr>)"

definition markObservation :: "store_env \<Rightarrow> string \<Rightarrow> string \<Rightarrow> string \<Rightarrow> mark_value option \<Rightarrow> spec_folder \<Rightarrow>
    (store_error + case_result option) \<times> spec_folder" where
  "markObservation env slug caseId obsId v = mutateCaseResult env slug caseId (Some Type_error) (mark_case env caseId obsId v)"

definition note_case :: "store_env \<Rightarrow> string \<Rightarrow> author \<Rightarrow> test_cases_plan \<Rightarrow> case_result \<Rightarrow> case_result" where
  "note_case env t who plan r =
     r\<lparr>case_notes := case_notes r @ [\<lparr>note_id = se_uuid env, note_text = t, note_author = who, note_timestamp = se_now env,
        statusAtWrite = effectiveStatus r\<rparr>]\<rparr>"

definition appendNote :: "store_env \<Rightarrow> string \<Rightarrow> string \<Rightarrow> string \<Rightarrow> spec_folder \<Rightarrow> (store_error + case_result option) \<times> spec_folder" where
  "appendNote env slug caseId t d =
     (if trim t = [] then (Inl Empty_note, d) else mutateCaseResult env slug caseId (Some Type_error) (note_case env (trim t)) d)"

definition override_case :: "store_env \<Rightarrow> case_status option \<Rightarrow> author \<Rightarrow> test_cases_plan \<Rightarrow> case_result \<Rightarrow> case_result" where
  "override_case env v who plan r =
     r\<lparr>statusOverride := map_option (\<lambda>s. \<lparr>so_status = s, so_author = who, so_timestamp = se_now env\<rparr>) v\<rparr>"

definition setStatusOverride :: "store_env \<Rightarrow> string \<Rightarrow> string \<Rightarrow> case_status option \<Rightarrow> spec_folder \<Rightarrow>
    (store_error + case_result option) \<times> spec_folder" where
  "setStatusOverride env slug caseId v = mutateCaseResult env slug caseId None (override_case env v)"

definition store_reconcile :: "store_env \<Rightarrow> string \<Rightarrow> bool \<Rightarrow> bool \<Rightarrow> spec_folder \<Rightarrow>
    (store_error + classification \<times> bool) \<times> spec_folder" where
  "store_reconcile env slug confirm purge d =
     (case load_plan env slug d of
        Inl e \<Rightarrow> (Inl e, d)
      | Inr plan \<Rightarrow>
          (case loadFile env slug d of
             Inl e \<Rightarrow> (Inl e, d)
           | Inr (loaded, _) \<Rightarrow>
               let planHash = computePlanHash env plan; f = coalesce loaded (emptyFile env planHash);
                   out = reconcile plan (fileResults f)
               in if \<not> confirm then (Inr (classification out, False), d)
                  else let kept = (if purge then purgeOrphans (nextResults out) else nextResults out)
                       in case persist env slug (f\<lparr>rf_caseResults := caseResults kept, rf_updatedAt := se_now env,
                                rf_planHash := planHash\<rparr>) d of
                            (Inl e, d') \<Rightarrow> (Inl e, d')
                          | (Inr _, d') \<Rightarrow> (Inr (classification out, True), d')))"

subsection \<open>The lifecycle of a case\<close>

fun at_least :: "int option list \<Rightarrow> int option list \<Rightarrow> bool" where
  "at_least ls [] = True"
| "at_least [] (r # rs) = False"
| "at_least (None # ls) (r # rs) = False"
| "at_least (Some a # ls) (r # rs) = (case r of None \<Rightarrow> False | Some b \<Rightarrow> if a \<noteq> b then a > b else at_least ls rs)"

fun isAtLeast :: "json option \<Rightarrow> string \<Rightarrow> bool" where
  "isAtLeast (Some (JStr recorded)) minimum = at_least (map parse_int (split_on CHR ''.'' recorded)) (map parse_int (split_on CHR ''.'' minimum))"
| "isAtLeast _ minimum = False"

fun lifecycle_json :: "case_lifecycle \<Rightarrow> json" where
  "lifecycle_json (Retired r) = JObj [(''state'', JStr ''retired''), (''reason'', JStr r)]"
| "lifecycle_json (Superseded p r) = JObj ([(''state'', JStr ''superseded''), (''replacement'', JStr p)] @ opt_field ''reason'' JStr r)"

definition withoutLifecycle :: "json jmap \<Rightarrow> json jmap" where
  "withoutLifecycle m = filter (\<lambda>(k, v). k \<noteq> ''lifecycle'') m"

definition with_lifecycle :: "case_lifecycle option \<Rightarrow> json jmap \<Rightarrow> json jmap" where
  "with_lifecycle lc m = (case lc of None \<Rightarrow> withoutLifecycle m | Some l \<Rightarrow> jput ''lifecycle'' (lifecycle_json l) m)"

fun entry_id :: "json \<Rightarrow> json option" where
  "entry_id (JObj m) = map_of m ''id''"
| "entry_id _ = None"

text \<open>The first entry with the id, changed; \<open>None\<close> when there is none.\<close>

fun edit_case :: "string \<Rightarrow> case_lifecycle option \<Rightarrow> json list \<Rightarrow> json list option" where
  "edit_case caseId lc [] = None"
| "edit_case caseId lc (v # vs) =
     (case v of
        JObj m \<Rightarrow> if map_of m ''id'' = Some (JStr caseId) then Some (JObj (with_lifecycle lc m) # vs)
                  else map_option (Cons v) (edit_case caseId lc vs)
      | _ \<Rightarrow> map_option (Cons v) (edit_case caseId lc vs))"

definition raise_version :: "case_lifecycle option \<Rightarrow> json jmap \<Rightarrow> json jmap" where
  "raise_version lc m =
     (if lc \<noteq> None \<and> \<not> isAtLeast (map_of m ''schemaVersion'') TEST_CASES_SCHEMA_VERSION
      then jput ''$schema'' (JStr TEST_CASES_SCHEMA_ID) (jput ''schemaVersion'' (JStr TEST_CASES_SCHEMA_VERSION) m)
      else m)"

record lifecycle_result =
  lr_case :: "test_case option"
  lr_fingerprint :: string
  lr_schemaVersion :: string

definition setCaseLifecycle :: "store_env \<Rightarrow> string \<Rightarrow> string \<Rightarrow> case_lifecycle option \<Rightarrow> string \<Rightarrow> spec_folder \<Rightarrow>
    (store_error + lifecycle_result) \<times> spec_folder" where
  "setCaseLifecycle env slug caseId lc expectedFingerprint d =
     (case planPath env slug of
        Inl e \<Rightarrow> (Inl e, d)
      | Inr _ \<Rightarrow>
          if caseId = [] \<or> expectedFingerprint = [] then (Inl Unsafe_path, d)
          else case plan_file d of
            None \<Rightarrow> (Inl Missing_case_file, d)
          | Some t \<Rightarrow>
              let actual = computeCaseFileFingerprint env (raw t) in
              if actual \<noteq> expectedFingerprint then (Inl (Lifecycle_conflict actual), d)
              else case parsed t of
                Some (JObj m) \<Rightarrow>
                  (case (validateTestCases (JObj m), map_of m ''cases'') of
                     (Some plan, Some (JArr entries)) \<Rightarrow>
                       (case edit_case caseId lc entries of
                          None \<Rightarrow> (Inl Case_not_found, d)
                        | Some entries' \<Rightarrow>
                            let doc = JObj (raise_version lc (jput ''cases'' (JArr entries') m));
                                serialized = se_text env doc @ (if ends_with [newline] (raw t) then [newline] else [])
                            in case validateTestCases doc of
                                 None \<Rightarrow> (Inl Missing_case_file, d)
                               | Some written \<Rightarrow>
                                   (case writeLifecycleFile env slug ''test-cases.json'' \<lparr>raw = serialized, parsed = Some doc\<rparr> d of
                                      (Inl e, d') \<Rightarrow> (Inl e, d')
                                    | (Inr _, d') \<Rightarrow> (Inr \<lparr>lr_case = find (\<lambda>c. tc_id c = caseId) (cases_of written),
                                        lr_fingerprint = computeCaseFileFingerprint env serialized,
                                        lr_schemaVersion = tp_schemaVersion written\<rparr>, d')))
                   | _ \<Rightarrow> (Inl Missing_case_file, d))
              | _ \<Rightarrow> (Inl Missing_case_file, d))"

subsection \<open>What a write leaves\<close>

definition recorded :: "spec_folder \<Rightarrow> case_result jmap" where
  "recorded d = (case read_results (results_of d) of Inl why \<Rightarrow> [] | Inr f \<Rightarrow> rf_caseResults f)"

definition version_ok :: "results_file \<Rightarrow> bool" where
  "version_ok f \<longleftrightarrow> (case (major_of (rf_schemaVersion f), currentResultsMajor) of (Some n, Some k) \<Rightarrow> n = k | _ \<Rightarrow> True)"

lemma parse_written: "parseMajor (results_json f) = major_of (rf_schemaVersion f)"
  by (simp add: results_json_def)

lemma version_read: "validateTestResults v = Some f \<Longrightarrow> parseMajor v = major_of (rf_schemaVersion f)"
proof -
  have str: "any_string x = Some s \<longleftrightarrow> x = JStr s" for x s by (cases x) auto
  assume "validateTestResults v = Some f"
  then show "parseMajor v = major_of (rf_schemaVersion f)"
    unfolding validateTestResults_def TestResultsFileSchema_def strict_object_Some
    by (clarsimp simp: bind_eq_Some_conv required_def str)
qed

lemma major_now: "currentResultsMajor = Some 2"
  by code_simp

lemma read_results_ok:
  assumes "read_results x = Inr f"
  shows "file_ok f" "version_ok f"
proof -
  obtain t v where v: "validateTestResults v = Some f" "x = Some t" "parsed t = Some v"
    using assms by (auto simp: read_results_def split: option.splits if_splits)
  show "file_ok f" by (rule file_read [OF v(1)])
  show "version_ok f" using assms v version_read [OF v(1)]
    by (cases "major_of (rf_schemaVersion f)") (auto simp: major_now read_results_def version_ok_def split: if_splits option.splits)
qed

lemma read_written:
  assumes "file_ok f" "version_ok f"
  shows "read_results (Some \<lparr>raw = t, parsed = Some (results_json f)\<rparr>) = Inr f"
  using assms file_print [OF assms(1)]
  by (cases "major_of (rf_schemaVersion f)") (simp_all add: major_now read_results_def parse_written version_ok_def)

lemma empty_ok: "file_ok (emptyFile env h)" "version_ok (emptyFile env h)"
  by (simp_all add: file_ok_def version_ok_def emptyFile_def currentResultsMajor_def split: option.split)

lemma persist_done: "persist env slug f d = (Inr u, d') \<longleftrightarrow> slug_ok slug \<and> \<not> se_escapes env [] \<and> \<not> se_write_fails env
    \<and> d' = d\<lparr>results_of := Some \<lparr>raw = se_text env (results_json f), parsed = Some (results_json f)\<rparr>\<rparr>"
  by (auto simp: persist_def writeResults_def writeSpecFile_def PERMITTED_SPEC_FILENAMES_def)

lemma persist_failed: "persist env slug f d = (Inl e, d') \<Longrightarrow> d' = d"
  by (auto simp: persist_def writeResults_def writeSpecFile_def split: if_splits)

lemma author_made: "author_ok (toAuthor who)"
  by (simp add: author_ok_def toAuthor_def)

lemma list_all_jput: "list_all (\<lambda>(k, v). P v) m \<Longrightarrow> P v \<Longrightarrow> list_all (\<lambda>(k, v). P v) (jput k v m)"
  by (induction m) (auto split: if_splits)

lemma stamp_ok: "result_ok r \<Longrightarrow> result_ok (stamp plan i r)"
  by (simp add: stamp_def result_ok_def split: option.split)

text \<open>A results file as a write starts from it: the one that was read, or a fresh one.\<close>

definition base_file :: "store_env \<Rightarrow> string \<Rightarrow> spec_folder \<Rightarrow> results_file" where
  "base_file env h d = (case read_results (results_of d) of Inl why \<Rightarrow> emptyFile env h | Inr f \<Rightarrow> f)"

lemma base_ok: "file_ok (base_file env h d)" "version_ok (base_file env h d)" "rf_caseResults (base_file env h d) = recorded d"
  using read_results_ok [of "results_of d"] empty_ok
  by (auto simp: base_file_def recorded_def emptyFile_def split: sum.split)

lemma load_base: "loadFile env slug d = Inr (loaded, reason) \<Longrightarrow> coalesce loaded (emptyFile env h) = base_file env h d"
  by (auto simp: loadFile_def base_file_def coalesce_def split: sum.splits)

lemma mutate_written:
  assumes "mutateCaseResult env slug i inh mutate d = (Inr (Some r), d')"
    and keeps: "\<And>who plan r. author_ok who \<Longrightarrow> result_ok r \<Longrightarrow> result_ok (mutate who plan r)"
  obtains plan g where "load_plan env slug d = Inr plan" "resultsPath env slug = Inr ()" "read_results (results_of d') = Inr g"
    "rf_caseResults g = jput i r (recorded d)" "rf_planHash g = computePlanHash env plan" "rf_updatedAt g = se_now env"
    "plan_file d' = plan_file d"
    "r = stamp plan i (mutate (toAuthor (se_identity env)) plan (case map_of (recorded d) i of Some r0 \<Rightarrow> r0 | None \<Rightarrow> emptyCaseResult))"
proof -
  obtain plan loaded reason where load: "load_plan env slug d = Inr plan" "loadFile env slug d = Inr (loaded, reason)"
    using assms(1) by (auto simp: mutateCaseResult_def split: if_splits sum.splits)
  let ?h = "computePlanHash env plan"
  let ?f = "base_file env ?h d"
  let ?start = "case map_of (recorded d) i of Some r0 \<Rightarrow> r0 | None \<Rightarrow> emptyCaseResult"
  let ?r = "stamp plan i (mutate (toAuthor (se_identity env)) plan ?start)"
  let ?g = "?f\<lparr>rf_updatedAt := se_now env, rf_planHash := ?h, rf_caseResults := jput i ?r (recorded d)\<rparr>"
  have path: "resultsPath env slug = Inr ()" using load(2) by (auto simp: loadFile_def split: sum.splits)
  have r: "r = ?r" "persist env slug ?g d = (Inr (), d')"
    using assms(1) load load_base [OF load(2), of ?h] base_ok(3) [of env ?h d]
    by (auto simp: mutateCaseResult_def Let_def js_get_def split: if_splits option.splits sum.splits prod.splits)
  have fresh: "result_ok emptyCaseResult" by (simp add: result_ok_def emptyCaseResult_def)
  have found: "result_ok r0" if "map_of (recorded d) i = Some r0" for r0
    using map_of_SomeD [OF that] base_ok(1) [of env ?h d] by (auto simp: file_ok_def base_ok(3) list_all_iff)
  have kept: "result_ok ?start" by (simp add: fresh found split: option.split)
  have "result_ok ?r" by (rule stamp_ok [OF keeps [OF author_made kept]])
  then have "file_ok ?g" "version_ok ?g"
    using base_ok [of env ?h d] by (simp_all add: file_ok_def version_ok_def list_all_jput)
  then have "read_results (results_of d') = Inr ?g" using r(2) by (simp add: persist_done read_written)
  then show ?thesis using that [of plan ?g] load(1) path r by (simp add: persist_done)
qed

subsection \<open>Operations on a case\<close>

datatype case_op = Mark_op string "mark_value option" | Note_op string | Override_op "case_status option"

fun run_case_op :: "store_env \<Rightarrow> string \<Rightarrow> string \<Rightarrow> case_op \<Rightarrow> spec_folder \<Rightarrow> (store_error + case_result option) \<times> spec_folder" where
  "run_case_op env slug i (Mark_op obsId v) d = markObservation env slug i obsId v d"
| "run_case_op env slug i (Note_op t) d = appendNote env slug i t d"
| "run_case_op env slug i (Override_op v) d = setStatusOverride env slug i v d"

fun case_change :: "store_env \<Rightarrow> string \<Rightarrow> case_op \<Rightarrow> author \<Rightarrow> test_cases_plan \<Rightarrow> case_result \<Rightarrow> case_result" where
  "case_change env i (Mark_op obsId v) = mark_case env i obsId v"
| "case_change env i (Note_op t) = note_case env (trim t)"
| "case_change env i (Override_op v) = override_case env v"

lemma list_all_jdel: "list_all P m \<Longrightarrow> list_all P (jdel k m)"
  by (auto simp: jdel_def list_all_iff)

lemma case_change_ok: "author_ok who \<Longrightarrow> result_ok r \<Longrightarrow> result_ok (case_change env i op who plan r)"
  by (cases op) (auto simp: mark_case_def note_case_def override_case_def result_ok_def Let_def list_all_jput list_all_jdel
      option.pred_map pred_option_def split: option.split)

lemma run_case_op_mutates:
  assumes "run_case_op env slug i op d = (Inr (Some r), d')"
  obtains inh where "mutateCaseResult env slug i inh (case_change env i op) d = (Inr (Some r), d')"
  using assms by (cases op) (auto simp: markObservation_def appendNote_def setStatusOverride_def split: if_splits)


text \<open>
  An override of a case whose id is the name of an inherited member, with no result yet, is
  reported as done and is not recorded.
\<close>

lemma override_of_inherited_id_is_lost:
  assumes "setStatusOverride env slug i v d = (Inr None, d')" and "map_of (recorded d) i = None"
  shows "recorded d' = recorded d"
proof -
  obtain plan loaded reason where load: "load_plan env slug d = Inr plan" "loadFile env slug d = Inr (loaded, reason)"
    using assms(1) by (auto simp: setStatusOverride_def mutateCaseResult_def split: if_splits sum.splits)
  let ?h = "computePlanHash env plan"
  let ?g = "(base_file env ?h d)\<lparr>rf_updatedAt := se_now env, rf_planHash := ?h\<rparr>"
  have "persist env slug ?g d = (Inr (), d')"
    using assms load load_base [OF load(2), of ?h] base_ok(3) [of env ?h d]
    by (auto simp: setStatusOverride_def mutateCaseResult_def Let_def js_get_def split: if_splits option.splits sum.splits prod.splits)
  moreover have "file_ok ?g" "version_ok ?g" using base_ok [of env ?h d] by (simp_all add: file_ok_def version_ok_def)
  ultimately have "read_results (results_of d') = Inr ?g" by (simp add: persist_done read_written)
  then show ?thesis by (simp add: recorded_def [of d'] base_ok(3))
qed

subsection \<open>Notes\<close>

datatype store_op =
    Case_op string case_op
  | Reconcile_op bool bool
  | Lifecycle_op string "case_lifecycle option" string

fun store_step :: "store_env \<times> string \<times> store_op \<Rightarrow> spec_folder \<Rightarrow> spec_folder" where
  "store_step (env, slug, Case_op i op) d = snd (run_case_op env slug i op d)"
| "store_step (env, slug, Reconcile_op confirm purge) d = snd (store_reconcile env slug confirm purge d)"
| "store_step (env, slug, Lifecycle_op i lc fp) d = snd (setCaseLifecycle env slug i lc fp d)"

fun purges :: "store_env \<times> string \<times> store_op \<Rightarrow> bool" where
  "purges (env, slug, Reconcile_op confirm purge) = purge"
| "purges _ = False"

definition notes_at :: "spec_folder \<Rightarrow> string \<Rightarrow> case_note list" where
  "notes_at d i = (case map_of (recorded d) i of None \<Rightarrow> [] | Some r \<Rightarrow> case_notes r)"

definition keeps_notes :: "spec_folder \<Rightarrow> spec_folder \<Rightarrow> bool" where
  "keeps_notes d d' \<longleftrightarrow> jwf (recorded d') \<and> (\<forall>i. prefix (notes_at d i) (notes_at d' i))"

lemma mutate_failed: "mutateCaseResult env slug i inh mutate d = (Inl e, d') \<Longrightarrow> d' = d"
  by (auto simp: mutateCaseResult_def Let_def dest: persist_failed split: if_splits sum.splits option.splits propval.splits prod.splits)

lemma run_case_op_failed: "run_case_op env slug i op d = (Inl e, d') \<Longrightarrow> d' = d"
  by (cases op) (auto simp: markObservation_def appendNote_def setStatusOverride_def dest: mutate_failed split: if_splits)

lemma run_case_op_inherited:
  assumes "run_case_op env slug i op d = (Inr None, d')"
  shows "recorded d' = recorded d"
proof (cases op)
  case (Override_op v)
  have "map_of (recorded d) i = None"
  proof (rule ccontr)
    assume "map_of (recorded d) i \<noteq> None"
    then show False using assms Override_op base_ok(3) load_base
      by (auto simp: setStatusOverride_def mutateCaseResult_def Let_def js_get_def split: if_splits option.splits sum.splits prod.splits)
  qed
  then show ?thesis using assms Override_op override_of_inherited_id_is_lost by simp
qed (use assms in \<open>auto simp: markObservation_def appendNote_def mutateCaseResult_def Let_def
       split: if_splits sum.splits option.splits propval.splits prod.splits\<close>)

lemma change_notes: "\<exists>ns. case_notes (stamp plan i (case_change env i op who plan r)) = case_notes r @ ns"
  by (cases op) (auto simp: mark_case_def note_case_def override_case_def stamp_def Let_def split: option.split)

lemma case_op_keeps_notes:
  assumes "jwf (recorded d)"
  shows "keeps_notes d (snd (run_case_op env slug i op d))"
proof (cases "run_case_op env slug i op d")
  case (Pair res d')
  consider e where "res = Inl e" | "res = Inr None" | r where "res = Inr (Some r)"
    by (cases res; cases "projr res") auto
  then show ?thesis
  proof cases
    case 1
    then have "d' = d" using Pair run_case_op_failed by blast
    then show ?thesis using Pair assms by (simp add: keeps_notes_def)
  next
    case 2
    then show ?thesis using Pair run_case_op_inherited assms by (auto simp: keeps_notes_def notes_at_def)
  next
    case (3 r)
    with Pair obtain inh where m: "mutateCaseResult env slug i inh (case_change env i op) d = (Inr (Some r), d')"
      using run_case_op_mutates by blast
    from mutate_written [OF m case_change_ok] obtain plan g where g: "read_results (results_of d') = Inr g"
        "rf_caseResults g = jput i r (recorded d)" 
        "r = stamp plan i (case_change env i op (toAuthor (se_identity env)) plan
          (case map_of (recorded d) i of Some r0 \<Rightarrow> r0 | None \<Rightarrow> emptyCaseResult))" by blast
    have new: "recorded d' = jput i r (recorded d)" using g(1,2) by (simp add: recorded_def [of d'])
    have "case_notes (case map_of (recorded d) i of Some r0 \<Rightarrow> r0 | None \<Rightarrow> emptyCaseResult) = notes_at d i"
      by (simp add: notes_at_def emptyCaseResult_def split: option.split)
    then have "prefix (notes_at d i) (case_notes r)" using change_notes g(3) by (metis prefixI)
    then show ?thesis using Pair new assms by (auto simp: keeps_notes_def notes_at_def)
  qed
qed

lemma reconciled_ok:
  assumes "jwf (caseResults rs)" "list_all (\<lambda>(k, r). result_ok r) (caseResults rs)"
  shows "list_all (\<lambda>(k, r). result_ok r) (caseResults (nextResults (reconcile p rs)))"
proof -
  have "result_ok r'" if r': "(i, r') \<in> set (caseResults (nextResults (reconcile p rs)))" for i r'
  proof -
    have "jwf (caseResults (nextResults (reconcile p rs)))" using assms(1) by (simp add: reconcile_keys)
    then have look: "map_of (caseResults (nextResults (reconcile p rs))) i = Some r'" using r' by simp
    then obtain r where r: "map_of (caseResults rs) i = Some r" by (auto simp: reconcile_lookup [OF assms(1)])
    then have ok: "result_ok r" using assms(2) by (auto simp: list_all_iff dest!: map_of_SomeD)
    have copy: "result_ok (copyCaseResult r)" using ok by (simp add: copyCaseResult_def result_ok_def)
    then have "result_ok (refresh p (plan_canon p) i (copyCaseResult r))" by (simp add: refresh_def result_ok_def)
    moreover have "result_ok (x\<lparr>orphaned := Some True\<rparr>)" if "result_ok x" for x using that by (simp add: result_ok_def)
    ultimately show ?thesis using look copy r by (auto simp: reconcile_lookup [OF assms(1)] Let_def split: if_splits)
  qed
  then show ?thesis by (auto simp: list_all_iff)
qed

lemma reconcile_keeps_notes:
  assumes "jwf (recorded d)"
  shows "keeps_notes d (snd (store_reconcile env slug confirm False d))"
proof (cases "store_reconcile env slug confirm False d")
  case (Pair res d')
  show ?thesis
  proof (cases "d' = d")
    case True
    then show ?thesis using Pair assms by (simp add: keeps_notes_def)
  next
    case False
    obtain plan loaded reason where load: "load_plan env slug d = Inr plan" "loadFile env slug d = Inr (loaded, reason)"
      using Pair False by (auto simp: store_reconcile_def split: sum.splits)
    let ?f = "base_file env (computePlanHash env plan) d"
    let ?next = "nextResults (reconcile plan (fileResults ?f))"
    let ?g = "?f\<lparr>rf_caseResults := caseResults ?next, rf_updatedAt := se_now env, rf_planHash := computePlanHash env plan\<rparr>"
    have wf: "jwf (caseResults (fileResults ?f))" using assms by (simp add: fileResults_def base_ok(3))
    have "persist env slug ?g d = (Inr (), d')"
      using Pair False load load_base [OF load(2), of "computePlanHash env plan"]
      by (auto simp: store_reconcile_def Let_def dest: persist_failed split: if_splits sum.splits prod.splits)
    moreover have "file_ok ?g" "version_ok ?g"
      using reconciled_ok [OF wf, of plan] base_ok [of env "computePlanHash env plan" d]
      by (simp_all add: file_ok_def version_ok_def fileResults_def)
    ultimately have "read_results (results_of d') = Inr ?g" by (simp add: persist_done read_written)
    then have new: "recorded d' = caseResults ?next" by (simp add: recorded_def [of d'])
    have "prefix (notes_at d i) (notes_at d' i)" for i
    proof (cases "map_of (recorded d) i")
      case (Some r)
      then have "map_of (caseResults (fileResults ?f)) i = Some r" by (simp add: fileResults_def base_ok(3))
      from reconcile_orphaned [OF wf this, of plan] Some new show ?thesis by (auto simp: notes_at_def)
    qed (simp add: notes_at_def)
    moreover have "jwf (recorded d')" using wf by (simp add: new reconcile_keys)
    ultimately show ?thesis using Pair by (simp add: keeps_notes_def)
  qed
qed

lemma lifecycle_keeps_results: "results_of (snd (setCaseLifecycle env slug i lc fp d)) = results_of d"
  by (simp add: setCaseLifecycle_def writeLifecycleFile_def writeSpecFile_def Let_def
      split: sum.split option.split json.split prod.split)

lemma purges_cases:
  obtains (on_case) env slug i cop where "op = (env, slug, Case_op i cop)"
  | (reconciles) env slug confirm purge where "op = (env, slug, Reconcile_op confirm purge)"
  | (lifecycle_edit) env slug i lc fp where "op = (env, slug, Lifecycle_op i lc fp)"
  by (metis prod_cases3 store_op.exhaust)

lemma step_keeps_notes:
  assumes "jwf (recorded d)" "\<not> purges op"
  shows "keeps_notes d (store_step op d)"
proof (cases op rule: purges_cases)
  case (on_case env slug i cop)
  then show ?thesis using case_op_keeps_notes [OF assms(1)] by simp
next
  case (reconciles env slug confirm purge)
  then show ?thesis using reconcile_keeps_notes [OF assms(1)] assms(2) by simp
next
  case (lifecycle_edit env slug i lc fp)
  have "recorded (snd (setCaseLifecycle env slug i lc fp d)) = recorded d"
    by (simp add: recorded_def lifecycle_keeps_results)
  then show ?thesis using assms(1) lifecycle_edit by (simp add: keeps_notes_def notes_at_def)
qed

text \<open>
  C21. Notes are immutable: along any sequence of marks, notes, overrides, lifecycle edits and
  reconciliations that purge nothing, succeeding or failing and with the plan and the environment
  changing in any way, the notes of every case only grow at the end.
\<close>

theorem notes_are_append_only:
  assumes "jwf (recorded d)" "list_all (\<lambda>op. \<not> purges op) ops"
  shows "prefix (notes_at d i) (notes_at (fold store_step ops d) i)"
proof -
  have "keeps_notes d (fold store_step ops d)" using assms
  proof (induction ops arbitrary: d)
    case (Cons op ops)
    then have one: "keeps_notes d (store_step op d)" by (simp add: step_keeps_notes)
    then have "keeps_notes (store_step op d) (fold store_step ops (store_step op d))"
      using Cons by (simp add: keeps_notes_def)
    with one show ?case by (auto simp: keeps_notes_def intro: prefix_order.trans)
  qed (simp add: keeps_notes_def)
  then show ?thesis by (simp add: keeps_notes_def)
qed

subsection \<open>Lifecycle edits\<close>

lemma all_some_pointwise: "all_some xs = Some ys \<longleftrightarrow> xs = map Some ys"
  by (induction xs arbitrary: ys) (auto simp: bind_eq_Some_conv split: option.split)

lemma array_pointwise: "array_of p (JArr xs) = Some ys \<longleftrightarrow> map p xs = map Some ys"
  by (simp add: all_some_pointwise)

lemma without_lookup: "k \<noteq> ''lifecycle'' \<Longrightarrow> map_of (withoutLifecycle m) k = map_of m k"
  "map_of (withoutLifecycle m) ''lifecycle'' = None"
  by (induction m) (auto simp: withoutLifecycle_def)

lemma with_lifecycle_fields:
  assumes "k \<noteq> ''lifecycle''"
  shows "required k p (with_lifecycle lc m) = required k p m" "optional k p (with_lifecycle lc m) = optional k p m"
  using assms by (auto simp: required_def optional_def with_lifecycle_def without_lookup split: option.split)

lemma lifecycle_parsed: "CaseLifecycleSchema (lifecycle_json l) = Some x \<Longrightarrow> x = l"
  by (cases l) (auto simp: RetiredSchema_def SupersededSchema_def required_def optional_def opt_field_def
      bind_eq_Some_conv split: if_splits option.splits)

lemma lifecycle_field:
  assumes "optional ''lifecycle'' CaseLifecycleSchema (with_lifecycle lc m) = Some x"
  shows "x = lc"
proof (cases lc)
  case None
  with assms show ?thesis by (simp add: optional_def with_lifecycle_def without_lookup)
next
  case (Some l)
  with assms show ?thesis by (auto simp: optional_def with_lifecycle_def dest: lifecycle_parsed split: option.splits)
qed

lemma CaseSchema_fields:
  "CaseSchema (JObj m) = Some c \<Longrightarrow> map_of m ''id'' = Some (JStr (tc_id c))
     \<and> optional ''lifecycle'' CaseLifecycleSchema m = Some (tc_lifecycle c)"
proof -
  have str: "any_string x = Some s \<longleftrightarrow> x = JStr s" for x s by (cases x) auto
  assume "CaseSchema (JObj m) = Some c"
  then show ?thesis by (clarsimp simp: CaseSchema_def bind_eq_Some_conv required_def str split: if_splits)
qed

lemma edited_case:
  assumes "CaseSchema (JObj m) = Some c" "CaseSchema (JObj (with_lifecycle lc m)) = Some c'"
  shows "c' = c\<lparr>tc_lifecycle := lc\<rparr>"
  using assms lifecycle_field [of lc m "tc_lifecycle c'"] CaseSchema_fields [OF assms(2)]
  by (clarsimp simp: CaseSchema_def with_lifecycle_fields bind_eq_Some_conv split: if_splits)

lemma edit_case_at:
  "edit_case i lc vs = Some vs' \<Longrightarrow> \<exists>n m. n < length vs \<and> vs ! n = JObj m \<and> map_of m ''id'' = Some (JStr i)
     \<and> vs' = vs[n := JObj (with_lifecycle lc m)]"
proof (induction vs arbitrary: vs')
  case (Cons v vs)
  have later: ?case if "edit_case i lc vs = Some ws" "vs' = v # ws" for ws
  proof -
    from Cons.IH [OF that(1)] obtain n m where "n < length vs" "vs ! n = JObj m" "map_of m ''id'' = Some (JStr i)"
      "ws = vs[n := JObj (with_lifecycle lc m)]" by blast
    with that(2) show ?thesis by (intro exI [of _ "Suc n"] exI [of _ m]) simp
  qed
  show ?case
  proof (cases "\<exists>m. v = JObj m \<and> map_of m ''id'' = Some (JStr i)")
    case True
    with Cons.prems show ?thesis by (intro exI [of _ 0]) auto
  next
    case False
    with Cons.prems later show ?thesis by (auto split: json.splits if_splits)
  qed
qed simp

lemma sort_alike:
  assumes "list_all2 (\<lambda>x y. k x = k y \<and> f x = f y) xs ys"
  shows "map f (sort_key k xs) = map f (sort_key k ys)"
proof -
  have ins: "list_all2 (\<lambda>x y. k x = k y \<and> f x = f y) (insort_key k x xs) (insort_key k y ys)"
    if "list_all2 (\<lambda>x y. k x = k y \<and> f x = f y) xs ys" "k x = k y \<and> f x = f y" for x y xs ys
    using that by (induction rule: list_all2_induct) auto
  from assms have "list_all2 (\<lambda>x y. k x = k y \<and> f x = f y) (sort_key k xs) (sort_key k ys)"
    by (induction rule: list_all2_induct) (simp_all add: sort_key_def ins)
  then show ?thesis by (induction rule: list_all2_induct) auto
qed

lemma canonical_unchanged:
  assumes "n < length cs"
  shows "map projectCase (sort_key tc_id (cs[n := (cs ! n)\<lparr>tc_lifecycle := lc\<rparr>])) = map projectCase (sort_key tc_id cs)"
proof (rule sort_alike)
  have "projectCase (c\<lparr>tc_lifecycle := lc\<rparr>) = projectCase c" for c by (simp add: projectCase_def)
  then show "list_all2 (\<lambda>x y. tc_id x = tc_id y \<and> projectCase x = projectCase y) (cs[n := (cs ! n)\<lparr>tc_lifecycle := lc\<rparr>]) cs"
    using assms by (auto simp: list_all2_conv_all_nth nth_list_update)
qed

lemma plan_cases: "TestCasesPlanSchema (JObj m) = Some plan \<Longrightarrow> required ''cases'' (array_of CaseSchema) m = Some (cases_of plan)"
  by (clarsimp simp: TestCasesPlanSchema_def bind_eq_Some_conv split: if_splits)

lemma version_keeps_cases: "required ''cases'' p (raise_version lc (jput ''cases'' v m)) = p v"
  by (simp add: required_def raise_version_def)

lemma edited_cases:
  assumes "array_of CaseSchema (JArr es) = Some cs" "edit_case i lc es = Some es'" "array_of CaseSchema (JArr es') = Some cs'"
  shows "\<exists>n. n < length cs \<and> tc_id (cs ! n) = i \<and> cs' = cs[n := (cs ! n)\<lparr>tc_lifecycle := lc\<rparr>]"
proof -
  obtain n m where n: "n < length es" "es ! n = JObj m" "map_of m ''id'' = Some (JStr i)" "es' = es[n := JObj (with_lifecycle lc m)]"
    using edit_case_at [OF assms(2)] by blast
  have all: "map CaseSchema es = map Some cs" "map CaseSchema es' = map Some cs'" using assms(1,3) by (simp_all only: array_pointwise)
  have len: "length cs = length es" "length cs' = length es'" using map_eq_imp_length_eq [OF all(1)] map_eq_imp_length_eq [OF all(2)] by simp_all
  have at: "CaseSchema (es ! k) = Some (cs ! k)" "CaseSchema (es' ! k) = Some (cs' ! k)" if "k < length es" for k
    using arg_cong [OF all(1), of "\<lambda>xs. xs ! k"] arg_cong [OF all(2), of "\<lambda>xs. xs ! k"] that len n(4) by simp_all
  have "cs' ! n = (cs ! n)\<lparr>tc_lifecycle := lc\<rparr>"
    using edited_case [of m "cs ! n" lc "cs' ! n"] at [OF n(1)] n by simp
  moreover have "cs' ! k = cs ! k" if "k < length es" "k \<noteq> n" for k using at [OF that(1)] that n(4) by simp
  ultimately have "cs' = cs[n := (cs ! n)\<lparr>tc_lifecycle := lc\<rparr>]"
    using len n(1,4) by (intro nth_equalityI) (auto simp: nth_list_update)
  moreover have "tc_id (cs ! n) = i" using CaseSchema_fields [of m "cs ! n"] at(1) [OF n(1)] n by simp
  ultimately show ?thesis using n(1) len by auto
qed

lemma lifecycle_success:
  assumes "setCaseLifecycle env slug i lc fp d = (Inr res, d')"
  obtains t m es es' written doc where "plan_file d = Some t" "computeCaseFileFingerprint env (raw t) = fp" "parsed t = Some (JObj m)"
    "map_of m ''cases'' = Some (JArr es)" "edit_case i lc es = Some es'" "doc = JObj (raise_version lc (jput ''cases'' (JArr es') m))"
    "validateTestCases doc = Some written" "planPath env slug = Inr ()"
    "d' = d\<lparr>plan_file := Some \<lparr>raw = se_text env doc @ (if ends_with [newline] (raw t) then [newline] else []), parsed = Some doc\<rparr>\<rparr>"
    "lr_fingerprint res = computeCaseFileFingerprint env (se_text env doc @ (if ends_with [newline] (raw t) then [newline] else []))"
  using assms by (auto simp: setCaseLifecycle_def writeLifecycleFile_def writeSpecFile_def Let_def PERMITTED_LIFECYCLE_FILENAMES_def
      PERMITTED_SPEC_FILENAMES_def split: sum.splits if_splits option.splits json.splits prod.splits)

text \<open>
  C19. Retiring, superseding or restoring a case changes that case's lifecycle and nothing else the
  program reads: it happens only to the very text the caller was shown, every other case and every
  recorded result stays, and since the digest of the plan does not see lifecycles, results that were
  fresh are still fresh.
\<close>

theorem lifecycle_edit_touches_one_case:
  assumes "setCaseLifecycle env slug i lc fp d = (Inr res, d')" "readPlanAndResults env slug d = Inr a"
  shows "\<exists>b n. readPlanAndResults env slug d' = Inr b \<and> pr_fingerprint a = fp \<and> pr_fingerprint b = lr_fingerprint res
    \<and> n < length (cases_of (pr_plan a)) \<and> tc_id (cases_of (pr_plan a) ! n) = i
    \<and> cases_of (pr_plan b) = (cases_of (pr_plan a))[n := (cases_of (pr_plan a) ! n)\<lparr>tc_lifecycle := lc\<rparr>]
    \<and> pr_results b = pr_results a \<and> pr_stale b = pr_stale a \<and> pr_planHash b = pr_planHash a"
proof -
  obtain t m es es' written doc where
    s: "plan_file d = Some t" "computeCaseFileFingerprint env (raw t) = fp" "parsed t = Some (JObj m)"
      "map_of m ''cases'' = Some (JArr es)" "edit_case i lc es = Some es'" "doc = JObj (raise_version lc (jput ''cases'' (JArr es') m))"
      "validateTestCases doc = Some written" "planPath env slug = Inr ()"
      "d' = d\<lparr>plan_file := Some \<lparr>raw = se_text env doc @ (if ends_with [newline] (raw t) then [newline] else []), parsed = Some doc\<rparr>\<rparr>"
      "lr_fingerprint res = computeCaseFileFingerprint env (se_text env doc @ (if ends_with [newline] (raw t) then [newline] else []))"
    by (rule lifecycle_success [OF assms(1)])
  obtain plan loaded reason where r: "load_plan env slug d = Inr plan" "loadFile env slug d = Inr (loaded, reason)"
      "pr_plan a = plan" "pr_results a = map_option fileResults loaded" "pr_planHash a = computePlanHash env plan"
      "pr_stale a = (case loaded of None \<Rightarrow> False | Some f \<Rightarrow> rf_planHash f \<noteq> computePlanHash env plan)" "pr_fingerprint a = fp"
    using assms(2) s(1,2) by (auto simp: readPlanAndResults_def Let_def split: sum.splits prod.splits)
  have plan: "validateTestCases (JObj m) = Some plan" using r(1) s(1,3) by (auto simp: load_plan_def split: sum.splits option.splits)
  have "array_of CaseSchema (JArr es) = Some (cases_of plan)"
    using plan_cases [of m plan] plan s(4) by (simp add: validateTestCases_def required_def del: array_of.simps)
  moreover have "array_of CaseSchema (JArr es') = Some (cases_of written)"
    using plan_cases [of "raise_version lc (jput ''cases'' (JArr es') m)" written] s(6,7)
    by (simp add: validateTestCases_def version_keeps_cases del: array_of.simps)
  ultimately obtain n where n: "n < length (cases_of plan)" "tc_id (cases_of plan ! n) = i"
      "cases_of written = (cases_of plan)[n := (cases_of plan ! n)\<lparr>tc_lifecycle := lc\<rparr>]"
    using edited_cases [OF _ s(5)] by blast
  have hash: "computePlanHash env written = computePlanHash env plan"
    using canonical_unchanged [OF n(1), of lc] by (simp add: computePlanHash_def canonicalize_def n(3))
  have "load_plan env slug d' = Inr written" using s(7,8,9) by (simp add: load_plan_def)
  moreover have "loadFile env slug d' = Inr (loaded, reason)"
  proof -
    have same: "results_of d' = results_of d" by (simp add: s(9))
    show ?thesis using r(2) unfolding loadFile_def same .
  qed
  ultimately show ?thesis using n r hash s(9,10)
    by (simp add: readPlanAndResults_def Let_def) (intro exI [of _ n], simp)
qed

subsection \<open>A sample folder\<close>

definition sample_store_env :: store_env where
  "sample_store_env = \<lparr>se_escapes = (\<lambda>name. False), se_sha = (\<lambda>t. t), se_text = (\<lambda>v. ''text''), se_now = ''now'', se_uuid = ''u'',
     se_identity = \<lparr>author_name = ''Ann'', author_email = [], isSentinel = None\<rparr>, se_write_fails = False\<rparr>"

definition sample_case_json :: json where
  "sample_case_json = JObj [(''id'', JStr ''T1''), (''title'', JStr ''t''), (''area'', JStr ''a''), (''level'', JNum 1), (''type'', JStr ''ui''),
     (''steps'', JArr [JObj [(''id'', JStr ''S1''), (''instruction'', JStr ''go''),
        (''observations'', JArr [JObj [(''id'', JStr ''O1''), (''expected'', JStr ''x'')]])]]),
     (''tags'', JArr []), (''linked_requirement_ids'', JArr [JStr ''R1'']), (''linked_user_story_ids'', JArr [])]"

definition sample_folder :: spec_folder where
  "sample_folder = \<lparr>plan_file = Some \<lparr>raw = ''plan'', parsed = Some (JObj [(''$schema'', JStr ''s''), (''schemaVersion'', JStr ''1.1.0''),
       (''specSlug'', JStr ''s''), (''cases'', JArr [sample_case_json])])\<rparr>, results_of = None, manifest_of = None\<rparr>"

lemma sample_loads: "\<not> isl (load_plan sample_store_env ''s'' sample_folder)"
  "loadFile sample_store_env ''s'' sample_folder = Inr (None, Some Missing_file)"
  by code_simp+

lemma sample_recorded: "recorded sample_folder = []"
  by code_simp

lemma sample_marked: "\<exists>r d'. run_case_op sample_store_env ''s'' ''T1'' (Mark_op ''O1'' (Some Pass)) sample_folder = (Inr (Some r), d')"
proof -
  obtain plan where "load_plan sample_store_env ''s'' sample_folder = Inr plan"
    using sample_loads(1) by (cases "load_plan sample_store_env ''s'' sample_folder") auto
  moreover have "slug_ok ''s''" by code_simp
  ultimately show ?thesis using sample_loads(2)
    by (simp add: markObservation_def mutateCaseResult_def Let_def coalesce_def js_get_def emptyFile_def object_prototype_members_def
        persist_def writeResults_def writeSpecFile_def PERMITTED_SPEC_FILENAMES_def sample_store_env_def)
qed


theorem notes_are_append_only_witness:
  "prefix (notes_at sample_folder ''T1'')
     (notes_at (fold store_step [(sample_store_env, ''s'', Case_op ''T1'' (Note_op ''x''))] sample_folder) ''T1'')"
  by (rule notes_are_append_only) (simp_all add: sample_recorded)

lemma sample_retired: "\<exists>res d'. setCaseLifecycle sample_store_env ''s'' ''T1'' (Some (Retired ''r'')) ''plan'' sample_folder = (Inr res, d')"
proof -
  let ?out = "setCaseLifecycle sample_store_env ''s'' ''T1'' (Some (Retired ''r'')) ''plan'' sample_folder"
  have "\<not> isl (fst ?out)" by code_simp
  then show ?thesis by (cases ?out; cases "fst ?out") auto
qed

lemma sample_read: "\<exists>a. readPlanAndResults sample_store_env ''s'' sample_folder = Inr a"
  using sample_loads by (cases "load_plan sample_store_env ''s'' sample_folder") (auto simp: readPlanAndResults_def Let_def)

theorem lifecycle_edit_touches_one_case_witness:
  "\<exists>d' a b. readPlanAndResults sample_store_env ''s'' sample_folder = Inr a \<and> readPlanAndResults sample_store_env ''s'' d' = Inr b
     \<and> pr_planHash b = pr_planHash a \<and> (\<exists>n. tc_lifecycle (cases_of (pr_plan b) ! n) = Some (Retired ''r''))"
proof -
  obtain res d' a where s: "setCaseLifecycle sample_store_env ''s'' ''T1'' (Some (Retired ''r'')) ''plan'' sample_folder = (Inr res, d')"
      "readPlanAndResults sample_store_env ''s'' sample_folder = Inr a"
    using sample_retired sample_read by blast
  from lifecycle_edit_touches_one_case [OF s] obtain b n where
    b: "readPlanAndResults sample_store_env ''s'' d' = Inr b" "n < length (cases_of (pr_plan a))" "pr_planHash b = pr_planHash a"
    "cases_of (pr_plan b) = (cases_of (pr_plan a))[n := (cases_of (pr_plan a) ! n)\<lparr>tc_lifecycle := Some (Retired ''r'')\<rparr>]" by blast
  then have "tc_lifecycle (cases_of (pr_plan b) ! n) = Some (Retired ''r'')" by simp
  with s(2) b(1,3) show ?thesis by blast
qed

end
