(* ===== verification/SpecDiscovery.thy ===== *)
theory SpecDiscovery
  imports TestStore
begin

section \<open>The specs of a repository\<close>

text \<open>
  \<open>server/lib/testbench-spec-discovery.ts\<close>, \<open>testbench-spec-lifecycle.ts\<close>,
  \<open>testbench-spec-lifecycle-write.ts\<close> and \<open>shared/spec-lifecycle-schema.ts\<close>: listing the spec folders
  with a summary of their results, and reading and writing the lifecycle record in a manifest another
  tool owns. The directory of specs is its entries in the order they are listed; \<open>localeCompare\<close> is a
  parameter. The wording of validation errors is left out.
\<close>

subsection \<open>The lifecycle record of a spec\<close>

record spec_record =
  sr_reason :: "string option"
  sr_supersededBy :: "string option"

fun slug_string :: "json \<Rightarrow> string option" where
  "slug_string (JStr s) = (if slug_ok s then Some s else None)"
| "slug_string _ = None"

definition SpecLifecycleRecordSchema :: "json \<Rightarrow> spec_record option" where
  "SpecLifecycleRecordSchema = strict_object [''archived'', ''reason'', ''supersededBy''] (\<lambda>m. do {
     a \<leftarrow> required ''archived'' literal_true m;
     r \<leftarrow> optional ''reason'' min1_string m;
     s \<leftarrow> optional ''supersededBy'' slug_string m;
     Some \<lparr>sr_reason = r, sr_supersededBy = s\<rparr> })"

definition validateSpecLifecycle :: "json \<Rightarrow> spec_record option" where
  "validateSpecLifecycle = SpecLifecycleRecordSchema"

definition record_json :: "spec_record \<Rightarrow> json" where
  "record_json r = JObj ([(''archived'', JBool True)] @ opt_field ''reason'' JStr (sr_reason r)
     @ opt_field ''supersededBy'' JStr (sr_supersededBy r))"

definition manifestPath :: "store_env \<Rightarrow> string \<Rightarrow> store_error + unit" where
  "manifestPath env slug = spec_path env slug ''manifest.json''"

text \<open>The record, if there is a valid one, and whether an invalid one was found.\<close>

definition readSpecLifecycle :: "store_env \<Rightarrow> string \<Rightarrow> spec_folder \<Rightarrow> store_error + (spec_record option \<times> bool)" where
  "readSpecLifecycle env slug d =
     (case manifestPath env slug of
        Inl e \<Rightarrow> Inl e
      | Inr _ \<Rightarrow> Inr
          (case Option.bind (manifest_of d) parsed of
             Some (JObj m) \<Rightarrow>
               (case map_of m ''lifecycle'' of
                  None \<Rightarrow> (None, False)
                | Some v \<Rightarrow> (case validateSpecLifecycle v of None \<Rightarrow> (None, True) | Some r \<Rightarrow> (Some r, False)))
           | _ \<Rightarrow> (None, False)))"

datatype manifest_error = Invalid_record | Unsafe_manifest | No_spec_folder | Manifest_unreadable | Manifest_write_failed

definition isoSecondsZ :: "store_env \<Rightarrow> string" where
  "isoSecondsZ env = take 19 (se_now env) @ ''Z''"

definition readManifestObject :: "spec_folder \<Rightarrow> manifest_error + json jmap option" where
  "readManifestObject d =
     (case manifest_of d of
        None \<Rightarrow> Inr None
      | Some t \<Rightarrow> (case parsed t of Some (JObj m) \<Rightarrow> Inr (Some m) | _ \<Rightarrow> Inl Manifest_unreadable))"

definition next_manifest :: "store_env \<Rightarrow> string \<Rightarrow> spec_record option \<Rightarrow> json jmap option \<Rightarrow> json jmap" where
  "next_manifest env slug r existing =
     (let base = (case existing of None \<Rightarrow> [(''slug'', JStr slug)] | Some m \<Rightarrow> m);
          changed = (case r of None \<Rightarrow> jdel ''lifecycle'' base | Some x \<Rightarrow> jput ''lifecycle'' (record_json x) base)
      in jput ''updated_at'' (JStr (isoSecondsZ env)) changed)"

text \<open>The folder is \<open>None\<close> when the spec has none.\<close>

definition writeSpecLifecycle :: "store_env \<Rightarrow> string \<Rightarrow> spec_record option \<Rightarrow> spec_folder option \<Rightarrow> manifest_error + spec_folder" where
  "writeSpecLifecycle env slug r folder =
     (if r \<noteq> None \<and> Option.bind r (\<lambda>x. validateSpecLifecycle (record_json x)) = None then Inl Invalid_record
      else if manifestPath env slug \<noteq> Inr () \<or> se_escapes env [] then Inl Unsafe_manifest
      else case folder of
        None \<Rightarrow> Inl No_spec_folder
      | Some d \<Rightarrow>
          (case readManifestObject d of
             Inl e \<Rightarrow> Inl e
           | Inr existing \<Rightarrow>
               if se_write_fails env then Inl Manifest_write_failed
               else let doc = JObj (next_manifest env slug r existing)
                    in Inr (d\<lparr>manifest_of := Some \<lparr>raw = se_text env doc @ [newline], parsed = Some doc\<rparr>\<rparr>)))"

subsection \<open>Discovery\<close>

datatype verification_class = Needs_attention | All_passed

record spec_verification =
  sv_class :: verification_class
  sv_counts :: "case_status \<Rightarrow> nat"
  sv_resultsPresent :: bool
  sv_resultsValid :: bool
  sv_planHashMatch :: bool
  sv_reason :: "recovery_reason option"
  sv_aggregationError :: bool

definition case_is_live :: "test_case \<Rightarrow> bool" where
  "case_is_live c \<longleftrightarrow> caseStateOf (Some (Subject_case \<lparr>case_id = tc_id c, lifecycle = tc_lifecycle c\<rparr>)) = Live"

text \<open>An own property of the recorded results, so no inherited member is taken for one.\<close>

definition rolled_up :: "case_result jmap \<Rightarrow> string \<Rightarrow> case_status" where
  "rolled_up results i = (case map_of results i of None \<Rightarrow> Not_started | Some r \<Rightarrow> effectiveStatus r)"

definition zeroStatusCounts :: "case_status \<Rightarrow> nat" where
  "zeroStatusCounts = (\<lambda>s. 0)"

definition count_status :: "case_result jmap \<Rightarrow> test_case list \<Rightarrow> case_status \<Rightarrow> nat" where
  "count_status results cs = fold (\<lambda>c counts. counts(rolled_up results (tc_id c) := Suc (counts (rolled_up results (tc_id c))))) cs zeroStatusCounts"

definition computeVerification :: "store_env \<Rightarrow> string \<Rightarrow> spec_folder \<Rightarrow> test_cases_plan \<Rightarrow> test_case list \<Rightarrow> spec_verification" where
  "computeVerification env slug d plan liveCases =
     (case loadResultsFile env slug d of
        Inl e \<Rightarrow> \<lparr>sv_class = Needs_attention, sv_counts = zeroStatusCounts(Not_started := length liveCases), sv_resultsPresent = False,
           sv_resultsValid = False, sv_planHashMatch = False, sv_reason = None, sv_aggregationError = True\<rparr>
      | Inr (loaded, reason) \<Rightarrow>
          let present = (reason \<noteq> Some Missing_file); valid = (loaded \<noteq> None);
              fresh = (case loaded of None \<Rightarrow> False | Some f \<Rightarrow> rf_planHash f = computePlanHash env plan);
              counts = count_status (case loaded of None \<Rightarrow> [] | Some f \<Rightarrow> rf_caseResults f) liveCases
          in \<lparr>sv_class = (if 0 < length liveCases \<and> present \<and> valid \<and> fresh \<and> counts Passed = length liveCases
                then All_passed else Needs_attention),
              sv_counts = counts, sv_resultsPresent = present, sv_resultsValid = valid, sv_planHashMatch = fresh,
              sv_reason = reason, sv_aggregationError = False\<rparr>)"

record spec_lifecycle_state =
  sl_archived :: bool
  sl_reason :: "string option"
  sl_supersededBy :: "string option"
  sl_recordError :: bool

definition computeLifecycle :: "store_env \<Rightarrow> string \<Rightarrow> spec_folder \<Rightarrow> spec_lifecycle_state" where
  "computeLifecycle env slug d =
     (case readSpecLifecycle env slug d of
        Inl e \<Rightarrow> \<lparr>sl_archived = False, sl_reason = None, sl_supersededBy = None, sl_recordError = True\<rparr>
      | Inr (r, bad) \<Rightarrow> \<lparr>sl_archived = (r \<noteq> None), sl_reason = Option.bind r sr_reason,
          sl_supersededBy = Option.bind r sr_supersededBy, sl_recordError = bad\<rparr>)"

record discovered_spec =
  ds_slug :: string
  ds_caseCount :: nat
  ds_verification :: spec_verification
  ds_lifecycle :: spec_lifecycle_state

text \<open>An entry of the directory: a name, and what it holds when it is a folder; \<open>env\<close> is that of its slug.\<close>

definition discover_entry :: "(string \<Rightarrow> store_env) \<Rightarrow> string \<times> spec_folder option \<Rightarrow> (string + discovered_spec) option" where
  "discover_entry env entry =
     (case entry of
        (slug, None) \<Rightarrow> None
      | (slug, Some d) \<Rightarrow>
          if planPath (env slug) slug \<noteq> Inr () then None
          else case plan_file d of
            None \<Rightarrow> None
          | Some t \<Rightarrow>
              (case Option.bind (parsed t) validateTestCases of
                 None \<Rightarrow> Some (Inl slug)
               | Some plan \<Rightarrow>
                   let live = filter case_is_live (cases_of plan)
                   in Some (Inr \<lparr>ds_slug = slug, ds_caseCount = length live,
                        ds_verification = computeVerification (env slug) slug d plan live,
                        ds_lifecycle = computeLifecycle (env slug) slug d\<rparr>)))"

text \<open>The listing is \<open>None\<close> when the directory cannot be read or lies outside the repository.\<close>

definition discoverSpecs :: "(string \<Rightarrow> string \<Rightarrow> int) \<Rightarrow> (string \<Rightarrow> store_env) \<Rightarrow> (string \<times> spec_folder option) list option \<Rightarrow>
    discovered_spec list \<times> string list" where
  "discoverSpecs localeCompare env entries =
     (case entries of
        None \<Rightarrow> ([], [])
      | Some es \<Rightarrow>
          let found = List.map_filter (discover_entry env) es
          in (sort_by (\<lambda>a b. localeCompare (ds_slug a) (ds_slug b)) (List.map_filter (\<lambda>x. case x of Inr s \<Rightarrow> Some s | Inl _ \<Rightarrow> None) found),
              sort_by localeCompare (List.map_filter (\<lambda>x. case x of Inl s \<Rightarrow> Some s | Inr _ \<Rightarrow> None) found)))"

text \<open>
  The segments of a path relative to the repository, \<open>None\<close> when it is blank or escapes; the folder is
  that of the named spec.
\<close>

definition validateManualPath :: "store_env \<Rightarrow> string list option \<Rightarrow> spec_folder \<Rightarrow> (string \<times> nat) option" where
  "validateManualPath env segments d =
     (case segments of
        Some [a, slug, c] \<Rightarrow>
          if a \<noteq> ''.specifications'' \<or> c \<noteq> ''test-cases.json'' \<or> planPath env slug \<noteq> Inr () then None
          else map_option (\<lambda>plan. (slug, length (filter case_is_live (cases_of plan))))
                 (Option.bind (Option.bind (plan_file d) parsed) validateTestCases)
      | _ \<Rightarrow> None)"

subsection \<open>The summary of a spec\<close>

lemma count_status: "count_status results cs s = length (filter (\<lambda>c. rolled_up results (tc_id c) = s) cs)"
proof -
  have "fold (\<lambda>c counts. counts(rolled_up results (tc_id c) := Suc (counts (rolled_up results (tc_id c))))) cs f s
      = f s + length (filter (\<lambda>c. rolled_up results (tc_id c) = s) cs)" for f :: "case_status \<Rightarrow> nat"
    by (induction cs arbitrary: f) auto
  then show ?thesis by (simp add: count_status_def zeroStatusCounts_def)
qed

lemma all_counted: "length (filter p cs) = length cs \<longleftrightarrow> list_all p cs"
  by (metis filter_full length_filter_le list_all_iff nat_less_le)

lemma verified_iff:
  "sv_class (computeVerification env slug d plan cs) = All_passed
    \<longleftrightarrow> cs \<noteq> [] \<and> (\<exists>f. loadFile env slug d = Inr (Some f, None) \<and> rf_planHash f = computePlanHash env plan
      \<and> list_all (\<lambda>c. map_option effectiveStatus (map_of (rf_caseResults f) (tc_id c)) = Some Passed) cs)"
proof (cases "loadFile env slug d")
  case (Inl e)
  then show ?thesis by (simp add: computeVerification_def loadResultsFile_def)
next
  case (Inr out)
  have passed: "rolled_up m i = Passed \<longleftrightarrow> map_option effectiveStatus (map_of m i) = Some Passed" for m i
    by (simp add: rolled_up_def split: option.split)
  obtain loaded reason where out: "out = (loaded, reason)" by (cases out)
  then have "loaded = None \<and> reason \<noteq> None \<or> loaded \<noteq> None \<and> reason = None"
    using Inr by (auto simp: loadFile_def split: sum.splits)
  then show ?thesis using Inr out
    by (auto simp: computeVerification_def loadResultsFile_def Let_def count_status all_counted passed simp del: length_greater_0_conv
        split: if_splits)
qed

text \<open>
  C22. The listing calls a spec verified exactly when its results file reads without a recovery, was
  written for the plan as it is, and records a passing status, by override or by marks, for every
  live case, of which there is at least one: nothing missing, stale or unreadable passes.
\<close>

theorem verified_spec_iff:
  "sv_class (computeVerification env slug d plan (filter case_is_live (cases_of plan))) = All_passed
    \<longleftrightarrow> list_ex case_is_live (cases_of plan) \<and> (\<exists>f. loadFile env slug d = Inr (Some f, None) \<and> rf_planHash f = computePlanHash env plan
      \<and> list_all (\<lambda>c. map_option effectiveStatus (map_of (rf_caseResults f) (tc_id c)) = Some Passed) (filter case_is_live (cases_of plan)))"
proof -
  have "filter case_is_live (cases_of plan) \<noteq> [] \<longleftrightarrow> list_ex case_is_live (cases_of plan)"
    by (auto simp: filter_empty_conv list_ex_iff)
  then show ?thesis by (simp only: verified_iff)
qed

text \<open>A result that is flagged as orphaned counts like any other once its case is in the plan.\<close>

lemma orphaned_results_are_counted: "rolled_up [(i, r\<lparr>orphaned := Some True\<rparr>)] i = effectiveStatus r"
  by (simp add: rolled_up_def effectiveStatus_def split: option.split)

subsection \<open>Archiving a spec\<close>

lemma spec_record_print: "validateSpecLifecycle (record_json r) = Some r'  \<Longrightarrow> r' = r"
  by (cases r) (auto simp: validateSpecLifecycle_def SpecLifecycleRecordSchema_def record_json_def required_def optional_def opt_field_def
      bind_eq_Some_conv split: if_splits option.splits)

lemma written_manifest:
  assumes "writeSpecLifecycle env slug r (Some d) = Inr d'"
  obtains existing where "readManifestObject d = Inr existing" "manifestPath env slug = Inr ()"
    "Option.bind (manifest_of d') parsed = Some (JObj (next_manifest env slug r existing))"
    "plan_file d' = plan_file d" "results_of d' = results_of d"
    "\<And>x. r = Some x \<Longrightarrow> validateSpecLifecycle (record_json x) = Some x"
  using assms spec_record_print
  by (fastforce simp: writeSpecLifecycle_def Let_def split: if_splits sum.splits option.splits)

lemma next_lookup: "map_of (next_manifest env slug r existing) k =
    (if k = ''updated_at'' then Some (JStr (isoSecondsZ env))
     else if k = ''lifecycle'' then map_option record_json r
     else map_of (coalesce existing [(''slug'', JStr slug)]) k)"
  by (auto simp: next_manifest_def coalesce_def Let_def split: option.split)

definition manifest_key :: "spec_folder \<Rightarrow> string \<Rightarrow> json option" where
  "manifest_key d k = (case readManifestObject d of Inr (Some m) \<Rightarrow> map_of m k | _ \<Rightarrow> None)"

text \<open>
  C23. Archiving a spec, or restoring it, is read back as it was written, and of a manifest that was
  there nothing else changes but its time stamp; a manifest that cannot be read is not written over.
\<close>

theorem archiving_keeps_the_manifest:
  assumes "writeSpecLifecycle env slug r (Some d) = Inr d'"
  shows "readSpecLifecycle env slug d' = Inr (r, False) \<and> plan_file d' = plan_file d \<and> results_of d' = results_of d
    \<and> (manifest_of d \<noteq> None \<and> k \<notin> {''lifecycle'', ''updated_at''} \<longrightarrow> manifest_key d' k = manifest_key d k)
    \<and> (\<exists>existing. readManifestObject d = Inr existing)"
proof -
  from assms obtain existing where w: "readManifestObject d = Inr existing" "manifestPath env slug = Inr ()"
    "Option.bind (manifest_of d') parsed = Some (JObj (next_manifest env slug r existing))"
    "plan_file d' = plan_file d" "results_of d' = results_of d"
    "\<And>x. r = Some x \<Longrightarrow> validateSpecLifecycle (record_json x) = Some x"
    by (rule written_manifest) blast
  have "readSpecLifecycle env slug d' = Inr (r, False)"
    using w(2,3,6) by (cases r) (simp_all add: readSpecLifecycle_def next_lookup)
  moreover have "manifest_key d' k = manifest_key d k" if "manifest_of d \<noteq> None" "k \<notin> {''lifecycle'', ''updated_at''}"
  proof -
    from w(1) that(1) obtain m where "existing = Some m" by (auto simp: readManifestObject_def split: option.splits json.splits)
    moreover have "readManifestObject d' = Inr (Some (next_manifest env slug r existing))"
      using w(3) by (auto simp: readManifestObject_def bind_eq_Some_conv)
    ultimately show ?thesis using w(1) that(2) by (simp add: manifest_key_def next_lookup coalesce_def)
  qed
  ultimately show ?thesis using w by blast
qed

theorem archiving_keeps_the_manifest_witness:
  "\<exists>d'. readSpecLifecycle sample_store_env ''s'' d' = Inr (Some \<lparr>sr_reason = Some ''old'', sr_supersededBy = None\<rparr>, False)"
proof -
  let ?r = "Some \<lparr>sr_reason = Some ''old'', sr_supersededBy = None\<rparr>"
  have "\<not> isl (writeSpecLifecycle sample_store_env ''s'' ?r (Some sample_folder))" by code_simp
  then obtain d' where "writeSpecLifecycle sample_store_env ''s'' ?r (Some sample_folder) = Inr d'"
    by (cases "writeSpecLifecycle sample_store_env ''s'' ?r (Some sample_folder)") auto
  from archiving_keeps_the_manifest [OF this] show ?thesis by blast
qed

end
