(* ===== verification/Spec2Isabelle.thy ===== *)
theory Spec2Isabelle
  imports BenchWatch TrackerActions Supervisor Broker PermissionRules GuardedFetch SpecDiscovery
begin

section \<open>Verification library of Roubo\<close>

text \<open>
  Roubo runs benches: numbered workspaces of a project, each a git worktree with its own ports, in
  which the components of the project (databases, servers, set-up steps) are brought up by plugins,
  and in which work on an issue is tested against a plan. This library models the server's core and
  the shared domain code, and proves what makes them correct. Paths below are under \<open>src/\<close>.

  \<^bold>\<open>How the parts interact.\<close> The bench manager reserves a bench and its ports, prepares the worktree
  and starts the components in dependency order. A component plugin answers with a provision
  descriptor, which the lifecycle engine executes through docker and the process manager, or it acts
  itself through the broker. Everything started is a row of the ownership ledger, which stop, Clear,
  crash recovery and the startup sweep consult. The supervisor keeps the plugin's own process and
  tells the bench manager about crashes. Test plans are canonicalised and reconciled with recorded
  results; verify gates are evaluated from them, merged and split by overrides, and their sign-off
  acts on the issue tracker. Every bench is mirrored in a state file, and carries notifications.

  \<^bold>\<open>Foundations.\<close>
  \<^item> \<open>Prelude\<close>: ordered maps (a \<open>Map\<close>, or a plain object used as one, with the members every object
    inherits), strings, JSON values, stable sorting, and the lemmas on them all theories share.
  \<^item> \<open>Flow\<close>: an asynchronous handler as the list of what it did and then an error or a result, its
    sequencing, and the lemmas on an event being allowed everywhere in it.
  \<^item> \<open>ProjectConfig\<close>, \<open>TestTypes\<close>: the data of \<open>shared/config-schema.ts\<close>, \<open>shared/types.ts\<close> and
    \<open>shared/testbench-domain-types.ts\<close>.

  \<^bold>\<open>Projects and ports.\<close>
  \<^item> \<open>Ports\<close>: \<open>server/services/port-allocator.ts\<close>; which ports a bench gets, which clashes
    \<open>getPortConflicts\<close> finds, and that it does not look inside one project.
  \<^item> \<open>Templates\<close>: \<open>server/services/config-parser.ts\<close>; the \<open>{{..}}\<close> substitution. \<open>Exec\<close>:
    \<open>server/services/exec.ts\<close>; the tokenizer, against a printer of command lines. \<open>HostEnv\<close>:
    \<open>server/services/env.ts\<close>; the login shell's environment and the agent command.

  \<^bold>\<open>Benches.\<close>
  \<^item> \<open>StateStore\<close>: the bench types and \<open>server/services/state.ts\<close> with \<open>server/lib/safe-path.ts\<close>.
  \<^item> \<open>BenchManager\<close>: reservation, creation, hydration and provisioning steps of
    \<open>server/services/bench-manager.ts\<close>; limits, numbering, ports of live benches, the round trip
    through the state file.
  \<^item> \<open>BenchOrder\<close>: \<open>resolveComponentOrder\<close> and \<open>getComponentOrder\<close>, a depth-first search proved to
    be a topological sort that refuses exactly the cyclic configurations.
  \<^item> \<open>BenchRun\<close>, \<open>BenchStop\<close>, \<open>Teardown\<close>, \<open>BenchWatch\<close>: the flows of the bench manager that
    start, stop, clear and watch benches, with \<open>server/services/worktree-registry.ts\<close>. A flow takes
    the bench and the ledger (and for \<open>Teardown\<close> the disk) and returns the events and the new ones.
  \<^item> \<open>Notifications\<close>, \<open>ComponentLogs\<close>: \<open>server/services/notification.ts\<close>, \<open>component-log-store.ts\<close>.

  \<^bold>\<open>Components.\<close>
  \<^item> \<open>Descriptors\<close>: \<open>shared/provision-descriptor-schema.ts\<close> as parsers of JSON values.
  \<^item> \<open>LifecycleEngine\<close>: \<open>server/services/lifecycle-engine.ts\<close>; what a run reports, and that the ledger
    knows whatever it started.
  \<^item> \<open>Ledger\<close>: \<open>server/services/resource-ownership-ledger.ts\<close>, refining a set of ownership facts,
    whose lemmas on single rows are what stop and recovery rest on.
  \<^item> \<open>Processes\<close>: \<open>server/services/process-manager.ts\<close> as operations on a map of managed processes.
  \<^item> \<open>DockerCli\<close>: \<open>server/services/docker.ts\<close>: the commands it builds and the wait for health.

  \<^bold>\<open>Plugins.\<close>
  \<^item> \<open>Supervisor\<close>: the runtime of one plugin in \<open>server/services/plugin-manager.ts\<close>, an \<open>inductive\<close>
    step relation over every interleaving of exits, timers, clean-ups and requests.
  \<^item> \<open>Broker\<close>: \<open>server/services/component-broker.ts\<close>, \<open>audit-log.ts\<close> and
    \<open>shared/plugin-consent-schema.ts\<close>; permissions, audit, parameter checks and reply types.
  \<^item> \<open>PermissionRules\<close>: \<open>server/services/permission-rule-guard.ts\<close>, \<open>claude-settings-local.ts\<close> and
    the routes and storage of a project's permission rules.
  \<^item> \<open>IpRanges\<close>, \<open>AddressText\<close>, \<open>GuardedFetch\<close>: \<open>server/services/guarded-fetch.ts\<close>, through which
    catalogs and artifacts are downloaded; address classes against network prefixes for every
    spelling of an address, and which requests the redirect loop sends with which credential.

  \<^bold>\<open>Tests and gates.\<close>
  \<^item> \<open>Canonical\<close>, \<open>TestDomain\<close>: \<open>shared/testbench-canonicalize.ts\<close>, \<open>testbench-domain.ts\<close>; equal
    canonical strings are equal contents, derived status, reconciliation.
  \<^item> \<open>Supersession\<close>: \<open>shared/lifecycle-resolver.ts\<close>, refining reachability over case pointers.
  \<^item> \<open>VerifyGate\<close>, \<open>GateOverrides\<close>: \<open>server/lib/gate-evaluator.ts\<close>, \<open>gate-overrides.ts\<close> and the
    contracts they read; when a gate passes, and that merges and splits keep the cases.
  \<^item> \<open>TestFiles\<close>, \<open>TestStore\<close>, \<open>SpecDiscovery\<close>: \<open>shared/testbench-contracts.ts\<close> as parsers and
    printers of JSON values, \<open>server/lib/testbench-store.ts\<close> with the two writers beside it, and the
    listing and archiving of specs; what is written is read back, notes are only appended, and a
    lifecycle edit touches one case and leaves recorded results fresh.
  \<^item> \<open>TrackerActions\<close>: \<open>server/services/gate-lifecycle-coordinator.ts\<close>, \<open>tracker-action-gateway.ts\<close>,
    \<open>fix-issue-filer.ts\<close>, \<open>start-gate.ts\<close>, and the sign-off routes.

  \<^bold>\<open>Interfaces.\<close> \<open>Prelude\<close> states the contracts shared by components as locales: \<open>keyed_store\<close>
  (look-up after insertion and deletion), \<open>record_store\<close> and \<open>updatable_store\<close> (records under a key in
  a file, replaced, removed and updated) and \<open>step_system\<close> (an invariant kept along any sequence of
  operations); \<open>LifecycleEngine\<close> states \<open>event_predicate\<close>, a property of runs closed under sequencing.
  Ordered maps, the state file, the bench map, the ledger, gate overrides, process and component logs
  and notifications interpret them, and their invariants are facts of those interpretations.

  \<^bold>\<open>Conventions.\<close> Errors are values of a sum or an option. What is not under \<open>src/\<close> is a parameter:
  docker, git, the file system, plugins' hooks and answers, the URL parser, the regular expression
  engine, \<open>localeCompare\<close> and the clock; each theory names its own in a record (\<open>host\<close>, \<open>disk\<close>,
  \<open>broker_host\<close>, \<open>tracker_env\<close>, \<open>fetch_env\<close>). Strings are lists of 8-bit characters, so Unicode normalisation is
  the identity on them, and object keys that look like array indices, which JavaScript enumerates
  first, are taken in insertion order. Integers of the code are mathematical integers within the
  safe range. Fuel is used once, for the polls of \<open>waitForHealthy\<close>: \<open>health_wait_ends\<close> shows that one
  poll more than the time-out divided by the interval is enough. Recursions over data that is not
  structural (\<open>walk\<close> of \<open>Supersession\<close>, \<open>visit\<close> of \<open>BenchOrder\<close>) have a termination proof.

  \<^bold>\<open>Not modelled.\<close> The redaction of log lines happens before the model, broadcasts to open clients and
  the notifications a launch raises are left out, and so are time stamps of audit entries. The texts
  of errors are shortened in \<open>TrackerActions\<close>. A signal that fails to kill a child is left out of
  \<open>Supervisor\<close>, so a stop ends with the exit of its child. Discovery, installation and sandboxing of
  plugins, JSON-RPC transport, terminals, event streams, jigs, agent launches, queries and caches of
  integrations, credentials, the scan of repositories, reading and writing of files other than by
  their contents, and the client are not modelled: they are I/O or calls of external programs around
  small decisions, and \<open>PROJECT.json\<close> lists them one by one.
\<close>

end
